theory Spec2Isabelle
  imports Complex_Main "HOL-Library.Sublist"
begin

section \<open>Strings of the host language\<close>

text \<open>
  The parser of \<^verbatim>\<open>src/lib/calendarParser.ts\<close> works on JavaScript strings. Every string
  literal of the source lies in the Latin-1 range (the accented letters of the French
  keywords, the degree sign of the week-number header), so a string is modelled as a list of HOL
  characters read as the code points U+0000 .. U+00FF. On that range
  \<^verbatim>\<open>String.prototype.toLowerCase\<close> maps A..Z and the upper-case letters U+00C0 .. U+00DE
  (without the multiplication sign U+00D7) to the code point 32 above, and nothing else.
  In both ranges bit 5 of the code point is clear, so adding 32 is setting bit 5.
\<close>

fun lower_char :: "char \<Rightarrow> char" where
  "lower_char (Char b0 b1 b2 b3 b4 b5 b6 b7) =
     (let n = (of_char (Char b0 b1 b2 b3 b4 b5 b6 b7) :: nat) in
      if (65 \<le> n \<and> n \<le> 90) \<or> (192 \<le> n \<and> n \<le> 222 \<and> n \<noteq> 215)
      then Char b0 b1 b2 b3 b4 True b6 b7
      else Char b0 b1 b2 b3 b4 b5 b6 b7)"

definition toLowerCase :: "string \<Rightarrow> string" where
  "toLowerCase s = map lower_char s"

text \<open>\<^verbatim>\<open>hay.includes(needle)\<close>: the needle occurs as a contiguous run of the haystack.\<close>

fun str_includes :: "string \<Rightarrow> string \<Rightarrow> bool" where
  "str_includes [] k = (k = [])"
| "str_includes (c # s) k = (prefix k (c # s) \<or> str_includes s k)"

text \<open>
  \<^verbatim>\<open>trim()\<close> removes white space and line terminators at both ends; in the Latin-1 range
  these are TAB, LF, VT, FF, CR, SPACE and the no-break space U+00A0.
\<close>

definition is_space :: "char \<Rightarrow> bool" where
  "is_space c = ((of_char c :: nat) \<in> {9, 10, 11, 12, 13, 32, 160})"

definition trim :: "string \<Rightarrow> string" where
  "trim s = rev (dropWhile is_space (rev (dropWhile is_space s)))"

text \<open>\<^verbatim>\<open>s.split(sep)\<close> for a one-character separator; the empty string gives one empty part.\<close>

fun cons_first :: "char \<Rightarrow> string list \<Rightarrow> string list" where
  "cons_first c [] = [[c]]"
| "cons_first c (w # ws) = (c # w) # ws"

fun split_char :: "char \<Rightarrow> string \<Rightarrow> string list" where
  "split_char sep [] = [[]]"
| "split_char sep (c # cs) =
     (if c = sep then [] # split_char sep cs else cons_first c (split_char sep cs))"

text \<open>
  \<^verbatim>\<open>text.split(/\r?\n/)\<close>: a line feed ends a line, together with a carriage return right
  before it; a carriage return on its own is an ordinary character.
\<close>

fun split_lines :: "string \<Rightarrow> string list" where
  "split_lines [] = [[]]"
| "split_lines [c] = (if c = CHR 0x0A then [[], []] else [[c]])"
| "split_lines (c # d # cs) =
     (if c = CHR 0x0A then [] # split_lines (d # cs)
      else if c = CHR 0x0D \<and> d = CHR 0x0A then [] # split_lines cs
      else cons_first c (split_lines (d # cs)))"

text \<open>\<^verbatim>\<open>.replace(/^"|"$/g, '')\<close>: one double quote is dropped at the start and one at the end.\<close>

definition strip_quotes :: "string \<Rightarrow> string" where
  "strip_quotes s =
     (let s1 = (case s of [] \<Rightarrow> [] | c # cs \<Rightarrow> if c = CHR 0x22 then cs else c # cs)
      in if s1 \<noteq> [] \<and> last s1 = CHR 0x22 then butlast s1 else s1)"

text \<open>The decimal digits of a row number, as a template literal prints it.\<close>

definition digit_char :: "nat \<Rightarrow> char" where
  "digit_char d =
     (if d = 0 then CHR ''0'' else if d = 1 then CHR ''1'' else if d = 2 then CHR ''2''
      else if d = 3 then CHR ''3'' else if d = 4 then CHR ''4'' else if d = 5 then CHR ''5''
      else if d = 6 then CHR ''6'' else if d = 7 then CHR ''7'' else if d = 8 then CHR ''8''
      else CHR ''9'')"

fun nat_to_string :: "nat \<Rightarrow> string" where
  "nat_to_string n =
     (if n < 10 then [digit_char n] else nat_to_string (n div 10) @ [digit_char (n mod 10)])"

declare nat_to_string.simps [simp del]

text \<open>\<^verbatim>\<open>parts.join(sep)\<close>\<close>

fun join_with :: "string \<Rightarrow> string list \<Rightarrow> string" where
  "join_with sep [] = []"
| "join_with sep [p] = p"
| "join_with sep (p # q # ps) = p @ sep @ join_with sep (q # ps)"

text \<open>The accented letters and signs the source's literals use.\<close>

definition e_acute :: char where "e_acute = CHR 0xE9"
definition e_grave :: char where "e_grave = CHR 0xE8"
definition E_acute :: char where "E_acute = CHR 0xC9"
definition degree_sign :: char where "degree_sign = CHR 0xB0"

section \<open>Availability status and the free-text classifier\<close>

datatype AvailabilityStatus = Available | Unavailable | School | Vacation | Company

text \<open>
  \<^verbatim>\<open>detectStatusFromSummary\<close> (lines 37 to 82): the summary is lower-cased once and the
  keyword groups are tried in the order of the source.
\<close>

definition detectStatusFromSummary :: "string \<Rightarrow> AvailabilityStatus" where
  "detectStatusFromSummary summary =
     (let lowerSummary = toLowerCase summary in
      if str_includes lowerSummary ''vacances'' \<or>
         str_includes lowerSummary (''cong'' @ [e_acute]) \<or>
         str_includes lowerSummary ''conge''
      then Vacation
      else if str_includes lowerSummary ([e_acute] @ ''cole'') \<or>
         str_includes lowerSummary ''ecole'' \<or>
         str_includes lowerSummary ''cours'' \<or>
         str_includes lowerSummary ''hetic'' \<or>
         str_includes lowerSummary ''formation'' \<or>
         str_includes lowerSummary ([e_acute] @ ''tude'') \<or>
         str_includes lowerSummary ''etude''
      then School
      else if str_includes lowerSummary ''absent'' \<or>
         str_includes lowerSummary ''indisponible''
      then Unavailable
      else if str_includes lowerSummary ''entreprise'' \<or>
         str_includes lowerSummary ''disponible'' \<or>
         str_includes lowerSummary ''travail'' \<or>
         str_includes lowerSummary ''work''
      then Available
      else School)"

text \<open>
  The keyword tiers as the specification lists them, and what it means for a label to
  contain a keyword whatever the case of its letters: some contiguous part of the label
  lower-cases to the keyword.
\<close>

definition vacation_keywords :: "string list" where
  "vacation_keywords = [''vacances'', ''cong'' @ [e_acute], ''conge'']"

definition school_keywords :: "string list" where
  "school_keywords =
     [[e_acute] @ ''cole'', ''ecole'', ''cours'', ''hetic'', ''formation'',
      [e_acute] @ ''tude'', ''etude'']"

definition unavailable_keywords :: "string list" where
  "unavailable_keywords = [''absent'', ''indisponible'']"

definition available_keywords :: "string list" where
  "available_keywords = [''entreprise'', ''disponible'', ''travail'', ''work'']"

definition mentions :: "string \<Rightarrow> string list \<Rightarrow> bool" where
  "mentions label kws = (\<exists>part. sublist part label \<and> toLowerCase part \<in> set kws)"

section \<open>Numbers and dates of the host language\<close>

text \<open>
  A JavaScript Number is a double. Its finite values are modelled as reals, and the Numbers
  that are not finite (NaN and the infinities, which every use below turns into an Invalid
  Date) as \<open>None\<close>. \<open>to_integer\<close> is the standard's ToIntegerOrInfinity on finite Numbers:
  truncation towards zero.
\<close>

type_synonym number = "real option"

definition to_integer :: "real \<Rightarrow> int" where
  "to_integer x = (if 0 \<le> x then \<lfloor>x\<rfloor> else \<lceil>x\<rceil>)"

text \<open>
  The result of an arithmetic operation is the double nearest to the exact result, ties
  going to the even significand (IEEE 754, round to nearest even). For \<open>x\<close> other than 0,
  \<open>binary_exponent x\<close> is the exponent \<open>e\<close> with \<open>2 ^ e \<le> \<bar>x\<bar> < 2 ^ (e + 1)\<close>; doubles
  of that size are the multiples of \<open>2 ^ (e - 52)\<close>, and below \<open>2 ^ - 1022\<close> the multiples
  of \<open>2 ^ - 1074\<close>. A result beyond the largest double is an infinity.
\<close>

function bit_length :: "int \<Rightarrow> int" where
  "bit_length n = (if n \<le> 0 then 0 else 1 + bit_length (n div 2))"
  by auto
termination
  by (relation "measure nat") auto

declare bit_length.simps [simp del]

definition binary_exponent :: "real \<Rightarrow> int" where
  "binary_exponent x =
     (if 1 \<le> \<bar>x\<bar> then bit_length \<lfloor>\<bar>x\<bar>\<rfloor> - 1 else - bit_length (\<lceil>1 / \<bar>x\<bar>\<rceil> - 1))"

definition pow2 :: "int \<Rightarrow> real" where
  "pow2 e = (if 0 \<le> e then 2 ^ nat e else 1 / 2 ^ nat (- e))"

definition round_half_even :: "real \<Rightarrow> int" where
  "round_half_even x =
     (let f = \<lfloor>x\<rfloor>; r = x - of_int f in
      if r < 1 / 2 then f else if 1 / 2 < r then f + 1 else if even f then f else f + 1)"

definition max_double :: real where
  "max_double = (2 ^ 53 - 1) * 2 ^ 971"

definition fl :: "real \<Rightarrow> number" where
  "fl x =
     (if x = 0 then Some 0
      else
        let u = pow2 (max (binary_exponent x) (- 1022) - 52);
            r = of_int (round_half_even (x / u)) * u
        in if \<bar>r\<bar> \<le> max_double then Some r else None)"

text \<open>
  \<^verbatim>\<open>Number(s)\<close> on a string (the standard's StringToNumber): white space is trimmed at both
  ends; the empty string is 0; a binary, octal or hexadecimal literal (\<^verbatim>\<open>0b\<close>, \<^verbatim>\<open>0o\<close>,
  \<^verbatim>\<open>0x\<close>, without sign) is its value; a decimal literal is an optional sign, then
  \<^verbatim>\<open>Infinity\<close> or digits with an optional fraction and an optional exponent, at least one
  digit standing before the exponent; every other string is NaN. The value is rounded to
  the nearest double (for literals of more than 20 significant digits the standard allows
  an implementation to round the decimal digits first; the rounding here is the exact
  one).
\<close>

definition is_digit :: "char \<Rightarrow> bool" where
  "is_digit c = (48 \<le> (of_char c :: int) \<and> (of_char c :: int) \<le> 57)"

definition digit_value :: "char \<Rightarrow> int option" where
  "digit_value c =
     (let n = (of_char c :: int) in
      if 48 \<le> n \<and> n \<le> 57 then Some (n - 48)
      else if 97 \<le> n \<and> n \<le> 102 then Some (n - 87)
      else if 65 \<le> n \<and> n \<le> 70 then Some (n - 55)
      else None)"

text \<open>The value of a string of digits in a radix; no value when a character is no such digit.\<close>

fun radix_value :: "int \<Rightarrow> int \<Rightarrow> string \<Rightarrow> int option" where
  "radix_value radix acc [] = Some acc"
| "radix_value radix acc (c # cs) =
     (case digit_value c of
        None \<Rightarrow> None
      | Some d \<Rightarrow> if d < radix then radix_value radix (radix * acc + d) cs else None)"

definition digits_in :: "int \<Rightarrow> string \<Rightarrow> int option" where
  "digits_in radix s = (if s = [] then None else radix_value radix 0 s)"

text \<open>The exponent part of a decimal literal: nothing, or \<^verbatim>\<open>e\<close> or \<^verbatim>\<open>E\<close>, a sign, digits.\<close>

definition exponent_part :: "string \<Rightarrow> int option" where
  "exponent_part s =
     (case s of
        [] \<Rightarrow> Some 0
      | c # t \<Rightarrow>
          if c = CHR ''e'' \<or> c = CHR ''E'' then
            (case t of
               [] \<Rightarrow> None
             | d # ds \<Rightarrow>
                 if d = CHR ''+'' then digits_in 10 ds
                 else if d = CHR ''-'' then map_option uminus (digits_in 10 ds)
                 else digits_in 10 t)
          else None)"

text \<open>
  An unsigned decimal literal: the digits before the point, the digits after it, the
  exponent. \<^verbatim>\<open>Infinity\<close> has no digit and gives, like a malformed literal, no finite
  Number.
\<close>

definition scale10 :: "real \<Rightarrow> int \<Rightarrow> real" where
  "scale10 x e = (if 0 \<le> e then x * 10 ^ nat e else x / 10 ^ nat (- e))"

definition unsigned_decimal :: "string \<Rightarrow> real option" where
  "unsigned_decimal s =
     (let ip = takeWhile is_digit s;
          r1 = dropWhile is_digit s;
          fp = (case r1 of [] \<Rightarrow> [] | c # t \<Rightarrow> if c = CHR ''.'' then takeWhile is_digit t else []);
          r2 = (case r1 of [] \<Rightarrow> [] | c # t \<Rightarrow> if c = CHR ''.'' then dropWhile is_digit t else r1)
      in if ip = [] \<and> fp = [] then None
         else
           case exponent_part r2 of
             None \<Rightarrow> None
           | Some ex \<Rightarrow>
               Some (scale10
                       (of_int (the (radix_value 10 0 ip)) +
                        of_int (the (radix_value 10 0 fp)) / 10 ^ length fp) ex))"

text \<open>
  A literal that starts with \<^verbatim>\<open>0x\<close>, \<^verbatim>\<open>0o\<close> or \<^verbatim>\<open>0b\<close> is read in that radix and in no other
  way; its digits may be missing or wrong, which gives NaN.
\<close>

definition nondecimal_literal :: "string \<Rightarrow> int option option" where
  "nondecimal_literal s =
     (case s of
        c # x # ds \<Rightarrow>
          if c \<noteq> CHR ''0'' then None
          else if x = CHR ''x'' \<or> x = CHR ''X'' then Some (digits_in 16 ds)
          else if x = CHR ''o'' \<or> x = CHR ''O'' then Some (digits_in 8 ds)
          else if x = CHR ''b'' \<or> x = CHR ''B'' then Some (digits_in 2 ds)
          else None
      | _ \<Rightarrow> None)"

definition signed_decimal :: "string \<Rightarrow> real option" where
  "signed_decimal s =
     (case s of
        [] \<Rightarrow> None
      | c # t \<Rightarrow>
          if c = CHR ''+'' then unsigned_decimal t
          else if c = CHR ''-'' then map_option uminus (unsigned_decimal t)
          else unsigned_decimal s)"

definition str_to_number :: "string \<Rightarrow> number" where
  "str_to_number str =
     (let s = trim str in
      if s = [] then Some 0
      else
        case nondecimal_literal s of
          Some lit \<Rightarrow> (case lit of None \<Rightarrow> None | Some v \<Rightarrow> fl (of_int v))
        | None \<Rightarrow> (case signed_decimal s of None \<Rightarrow> None | Some v \<Rightarrow> fl v))"

text \<open>
  A Date object holds a time value: the milliseconds since 1970-01-01T00:00:00Z, or NaN
  (an Invalid Date). Time values range over 100 000 000 days on either side of the epoch;
  \<open>timeClip\<close> turns anything beyond into NaN.
\<close>

datatype jsdate = Invalid_Date | Date_at int

definition msPerDay :: int where
  "msPerDay = 86400000"

definition maxTime :: int where
  "maxTime = 8640000000000000"

definition timeClip :: "int \<Rightarrow> jsdate" where
  "timeClip t = (if \<bar>t\<bar> \<le> maxTime then Date_at t else Invalid_Date)"

definition timeClipNumber :: "real \<Rightarrow> jsdate" where
  "timeClipNumber x = (if \<bar>x\<bar> \<le> of_int maxTime then Date_at (to_integer x) else Invalid_Date)"

definition isNaN_getTime :: "jsdate \<Rightarrow> bool" where
  "isNaN_getTime d = (d = Invalid_Date)"

text \<open>
  \<^verbatim>\<open>a < b\<close> on two Date objects compares their time values; a comparison with NaN is false.
\<close>

fun date_less :: "jsdate \<Rightarrow> jsdate \<Rightarrow> bool" where
  "date_less (Date_at a) (Date_at b) = (a < b)"
| "date_less _ _ = False"

text \<open>The day and calendar arithmetic of the standard (ECMA-262, section 21.4.1).\<close>

definition Day :: "int \<Rightarrow> int" where
  "Day t = t div msPerDay"

definition TimeWithinDay :: "int \<Rightarrow> int" where
  "TimeWithinDay t = t mod msPerDay"

definition DayFromYear :: "int \<Rightarrow> int" where
  "DayFromYear y =
     365 * (y - 1970) + (y - 1969) div 4 - (y - 1901) div 100 + (y - 1601) div 400"

definition InLeapYear :: "int \<Rightarrow> bool" where
  "InLeapYear y = (y mod 4 = 0 \<and> (y mod 100 \<noteq> 0 \<or> y mod 400 = 0))"

text \<open>
  The year of a day number is the largest year that starts on or before it. It is computed
  from the mean length of a Gregorian year (146097 days in 400 years), corrected by one
  year where the estimate is off.
\<close>

definition YearFromDay :: "int \<Rightarrow> int" where
  "YearFromDay d =
     (let y = 1970 + (d * 400) div 146097 in
      if d < DayFromYear y then y - 1
      else if DayFromYear (y + 1) \<le> d then y + 1
      else y)"

definition DayWithinYear :: "int \<Rightarrow> int" where
  "DayWithinYear d = d - DayFromYear (YearFromDay d)"

text \<open>The day of the year on which month \<open>m\<close> (0 = January) starts.\<close>

definition monthStart :: "bool \<Rightarrow> int \<Rightarrow> int" where
  "monthStart leap m =
     (if m \<le> 0 then 0 else if m = 1 then 31
      else (if leap then 1 else 0) +
        (if m = 2 then 59 else if m = 3 then 90 else if m = 4 then 120
         else if m = 5 then 151 else if m = 6 then 181 else if m = 7 then 212
         else if m = 8 then 243 else if m = 9 then 273 else if m = 10 then 304
         else 334))"

definition MonthFromDay :: "int \<Rightarrow> int" where
  "MonthFromDay d =
     (let leap = InLeapYear (YearFromDay d); w = DayWithinYear d in
      if w < monthStart leap 1 then 0 else if w < monthStart leap 2 then 1
      else if w < monthStart leap 3 then 2 else if w < monthStart leap 4 then 3
      else if w < monthStart leap 5 then 4 else if w < monthStart leap 6 then 5
      else if w < monthStart leap 7 then 6 else if w < monthStart leap 8 then 7
      else if w < monthStart leap 9 then 8 else if w < monthStart leap 10 then 9
      else if w < monthStart leap 11 then 10 else 11)"

definition DateFromDay :: "int \<Rightarrow> int" where
  "DateFromDay d =
     DayWithinYear d - monthStart (InLeapYear (YearFromDay d)) (MonthFromDay d) + 1"

text \<open>
  \<open>MakeDay\<close> on integral arguments: months outside 0..11 carry into the year and the day
  of the month is a plain offset, so that day 32 of a month is a day of the next one. The
  range of the result is checked by \<open>timeClip\<close> where the Date is built.
\<close>

definition MakeDay :: "int \<Rightarrow> int \<Rightarrow> int \<Rightarrow> int" where
  "MakeDay year month date =
     (let ym = year + month div 12; mn = month mod 12 in
      DayFromYear ym + monthStart (InLeapYear ym) mn + date - 1)"

definition MakeTime :: "int \<Rightarrow> int \<Rightarrow> int \<Rightarrow> int \<Rightarrow> int" where
  "MakeTime hour minute sec ms = hour * 3600000 + minute * 60000 + sec * 1000 + ms"

definition MakeDate :: "int \<Rightarrow> int \<Rightarrow> int" where
  "MakeDate day time = day * msPerDay + time"

section \<open>The data model\<close>

text \<open>The output unit and the result shape of \<^verbatim>\<open>src/lib/types\<close>.\<close>

record CalendarEvent =
  event_id :: string
  memberId :: string
  startDate :: jsdate
  endDate :: jsdate
  status :: AvailabilityStatus
  event_note :: "string option"
  isImported :: bool

record CalendarParseResult =
  success :: bool
  events :: "CalendarEvent list"
  errors :: "string list option"
  warnings :: "string list option"

text \<open>
  A file has a name and a payload; reading the payload may be rejected with a message,
  which the catch-all of each parser turns into an error result.
\<close>

datatype read_result = Unreadable string | Content string

record input_file =
  file_name :: string
  file_content :: read_result

text \<open>
  What the iCalendar library hands to the parser for one VEVENT: whether going through the
  event wrapper raises, the summary, and the start and end times already converted to
  Date objects (absent when the property is missing).
\<close>

record vevent =
  ev_raises :: bool
  ev_summary :: "string option"
  ev_start :: "jsdate option"
  ev_end :: "jsdate option"

datatype ical_outcome = ParseError string | ComponentError string | VEvents "vevent list"

text \<open>
  Spreadsheet cells as the spreadsheet library types them: the value of a cell is null, a
  number, a string, a boolean, a date, an error, rich text (the texts of its runs), a
  hyperlink (text and target) or a formula with its computed result when there is one.
  The text of a hyperlink is a string or itself rich text. Besides its value a cell has
  the text the library renders for it.
\<close>

datatype formula_result =
  RNumber real | RString string | RBoolean bool | RDate jsdate | RError string

datatype hyperlink_text = HString string | HRichText "string list"

datatype cell_value =
  VNull | VNumber real | VString string | VBoolean bool | VDate jsdate | VError string
  | VRichText "string list" | VHyperlink hyperlink_text string
  | VFormula string "formula_result option"

record cell =
  cvalue :: cell_value
  ctext :: string

text \<open>
  A row lists its cells by column number, in column order; a worksheet is the list of its
  rows, row 1 first. \<^verbatim>\<open>rowCount\<close> is the number of the last row.
\<close>

type_synonym row = "(nat \<times> cell) list"
type_synonym worksheet = "row list"

text \<open>
  The host: what the platform and the libraries compute and the source takes as given.
  \<open>localTZA t isUTC\<close> is the offset of local time from UTC in milliseconds, as the
  standard has it: for \<open>isUTC\<close> the offset in force at the instant \<open>t\<close>, otherwise the
  offset by which the local time value \<open>t\<close> is read (where clocks were set forward or
  back, the offset before the change). \<open>not_a_function callee\<close> is the message of the
  TypeError raised by the call of a method that the value does not have; \<open>gen_id k\<close> is
  the identifier built from the clock and the random generator for the event pushed after
  \<open>k\<close> others.
\<close>

record host =
  localTZA :: "int \<Rightarrow> bool \<Rightarrow> int"
  not_a_function :: "string \<Rightarrow> string"
  num_to_string :: "real \<Rightarrow> string"
  date_parse :: "string \<Rightarrow> jsdate"
  date_to_string :: "jsdate \<Rightarrow> string"
  locale_date_fr :: "jsdate \<Rightarrow> string"
  gen_id :: "nat \<Rightarrow> string"
  ical_parse :: "string \<Rightarrow> ical_outcome"
  xlsx_load :: "string \<Rightarrow> string + worksheet list"

section \<open>Date objects in local time\<close>

definition LocalTime :: "host \<Rightarrow> int \<Rightarrow> int" where
  "LocalTime h t = t + localTZA h t True"

definition UTC :: "host \<Rightarrow> int \<Rightarrow> int" where
  "UTC h t = t - localTZA h t False"

text \<open>
  \<^verbatim>\<open>new Date(year, month, day)\<close>: an argument that is not finite gives an Invalid Date; a
  year from 0 to 99 means 1900 + year; the fields are read in local time.
\<close>

definition new_Date :: "host \<Rightarrow> number \<Rightarrow> number \<Rightarrow> number \<Rightarrow> jsdate" where
  "new_Date h year month day =
     (case (year, month, day) of
        (Some y, Some m, Some d) \<Rightarrow>
          (let yi = to_integer y;
               yr = (if 0 \<le> yi \<and> yi \<le> 99 then 1900 + yi else yi)
           in timeClip (UTC h (MakeDate (MakeDay yr (to_integer m) (to_integer d))
                                 (MakeTime 0 0 0 0))))
      | _ \<Rightarrow> Invalid_Date)"

fun getFullYear :: "host \<Rightarrow> jsdate \<Rightarrow> int option" where
  "getFullYear h Invalid_Date = None"
| "getFullYear h (Date_at t) = Some (YearFromDay (Day (LocalTime h t)))"

fun getMonth :: "host \<Rightarrow> jsdate \<Rightarrow> int option" where
  "getMonth h Invalid_Date = None"
| "getMonth h (Date_at t) = Some (MonthFromDay (Day (LocalTime h t)))"

fun getDate :: "host \<Rightarrow> jsdate \<Rightarrow> int option" where
  "getDate h Invalid_Date = None"
| "getDate h (Date_at t) = Some (DateFromDay (Day (LocalTime h t)))"

fun setDate :: "host \<Rightarrow> jsdate \<Rightarrow> int option \<Rightarrow> jsdate" where
  "setDate h (Date_at t) (Some dt) =
     (let l = LocalTime h t;
          newDate = MakeDate (MakeDay (YearFromDay (Day l)) (MonthFromDay (Day l)) dt)
                      (TimeWithinDay l)
      in timeClip (UTC h newDate))"
| "setDate h _ _ = Invalid_Date"

text \<open>\<^verbatim>\<open>setHours(hour, minute, sec, ms)\<close> on the local day of the date.\<close>

fun setHours :: "host \<Rightarrow> jsdate \<Rightarrow> int \<Rightarrow> int \<Rightarrow> int \<Rightarrow> int \<Rightarrow> jsdate" where
  "setHours h Invalid_Date hour minute sec ms = Invalid_Date"
| "setHours h (Date_at t) hour minute sec ms =
     timeClip (UTC h (MakeDate (Day (LocalTime h t)) (MakeTime hour minute sec ms)))"

text \<open>\<^verbatim>\<open>startOfDay\<close> and \<^verbatim>\<open>endOfDay\<close> of date-fns: a copy of the date with the hours set.\<close>

definition startOfDay :: "host \<Rightarrow> jsdate \<Rightarrow> jsdate" where
  "startOfDay h d = setHours h d 0 0 0 0"

definition endOfDay :: "host \<Rightarrow> jsdate \<Rightarrow> jsdate" where
  "endOfDay h d = setHours h d 23 59 59 999"

text \<open>
  \<^verbatim>\<open>new Date(x)\<close> on a Number, and the sum and the product of two Numbers.
\<close>

definition date_of_number :: "number \<Rightarrow> jsdate" where
  "date_of_number x = (case x of None \<Rightarrow> Invalid_Date | Some v \<Rightarrow> timeClipNumber v)"

definition num_add :: "number \<Rightarrow> number \<Rightarrow> number" where
  "num_add a b = (case (a, b) of (Some x, Some y) \<Rightarrow> fl (x + y) | _ \<Rightarrow> None)"

definition num_mult :: "number \<Rightarrow> number \<Rightarrow> number" where
  "num_mult a b = (case (a, b) of (Some x, Some y) \<Rightarrow> fl (x * y) | _ \<Rightarrow> None)"

definition getTime :: "jsdate \<Rightarrow> number" where
  "getTime d = (case d of Invalid_Date \<Rightarrow> None | Date_at t \<Rightarrow> Some (of_int t))"

text \<open>
  \<^verbatim>\<open>excelDateToJSDate\<close> (lines 315 to 322): the serial times the milliseconds of a day,
  added to local midnight of 30 December 1899.
\<close>

definition excelDateToJSDate :: "host \<Rightarrow> real \<Rightarrow> jsdate" where
  "excelDateToJSDate h excelDate =
     (let excelEpoch = new_Date h (Some 1899) (Some 11) (Some 30);
          millisecondsPerDay = 24 * 60 * 60 * 1000
      in date_of_number
           (num_add (getTime excelEpoch) (num_mult (Some excelDate) (Some millisecondsPerDay))))"

text \<open>
  Reading a whole serial \<open>n\<close>. The epoch of the serials is day number
  \<open>excel_epoch_day\<close>, 30 December 1899, and \<open>civil_day d\<close> is the day of the Gregorian
  calendar with day number \<open>d\<close>: year, month (1 = January), day of the month. Local
  midnight of the epoch is read with the offset \<open>epoch_offset\<close>, which puts serial \<open>n\<close> at
  the instant \<open>serial_instant\<close>; the zone reads that instant like the epoch when its
  offset there is not less than the offset of the epoch and less than a day more.
\<close>

definition excel_epoch_day :: int where
  "excel_epoch_day = MakeDay 1899 11 30"

definition civil_day :: "int \<Rightarrow> int \<times> int \<times> int" where
  "civil_day d = (YearFromDay d, MonthFromDay d + 1, DateFromDay d)"

definition epoch_offset :: "host \<Rightarrow> int" where
  "epoch_offset h = localTZA h (MakeDate excel_epoch_day (MakeTime 0 0 0 0)) False"

definition serial_instant :: "host \<Rightarrow> int \<Rightarrow> int" where
  "serial_instant h n = MakeDate (excel_epoch_day + n) (MakeTime 0 0 0 0) - epoch_offset h"

definition reads_like_epoch :: "host \<Rightarrow> int \<Rightarrow> bool" where
  "reads_like_epoch h n =
     (epoch_offset h \<le> localTZA h (serial_instant h n) True \<and>
      localTZA h (serial_instant h n) True < epoch_offset h + msPerDay)"

text \<open>The calendar day a Date shows in local time: year, month (1 = January), day.\<close>

definition calendar_day :: "host \<Rightarrow> jsdate \<Rightarrow> (int \<times> int \<times> int) option" where
  "calendar_day h d =
     (case (getFullYear h d, getMonth h d, getDate h d) of
        (Some y, Some m, Some dd) \<Rightarrow> Some (y, m + 1, dd)
      | _ \<Rightarrow> None)"

section \<open>Maps and objects used as dictionaries\<close>

text \<open>
  A \<^verbatim>\<open>Map<string, number>\<close> is an association list in insertion order: setting a key that
  is present replaces its value where it stands, setting a new key appends it. The own
  properties of a plain object are kept in the same way.
\<close>

fun map_set :: "('k \<times> 'v) list \<Rightarrow> 'k \<Rightarrow> 'v \<Rightarrow> ('k \<times> 'v) list" where
  "map_set [] k v = [(k, v)]"
| "map_set ((k', v') # m) k v =
     (if k' = k then (k, v) # m else (k', v') # map_set m k v)"

definition map_keys :: "('k \<times> 'v) list \<Rightarrow> 'k list" where
  "map_keys m = map fst m"

text \<open>\<^verbatim>\<open>Array.from(m.entries()).find(([key]) => p(key))?.[1]\<close>\<close>

definition find_entry :: "('k \<Rightarrow> bool) \<Rightarrow> ('k \<times> 'v) list \<Rightarrow> 'v option" where
  "find_entry p m = map_option snd (List.find (\<lambda>(k, v). p k) m)"

section \<open>Reading a worksheet\<close>

definition rowCount :: "worksheet \<Rightarrow> nat" where
  "rowCount ws = length ws"

text \<open>\<^verbatim>\<open>getRow(n)\<close> and \<^verbatim>\<open>getCell(c)\<close> give an empty row or cell where the sheet has none.\<close>

definition getRow :: "worksheet \<Rightarrow> nat \<Rightarrow> row" where
  "getRow ws n = (if 1 \<le> n \<and> n \<le> length ws then ws ! (n - 1) else [])"

definition empty_cell :: cell where
  "empty_cell = \<lparr>cvalue = VNull, ctext = []\<rparr>"

definition getCell :: "row \<Rightarrow> nat \<Rightarrow> cell" where
  "getCell r c = (case map_of r c of Some x \<Rightarrow> x | None \<Rightarrow> empty_cell)"

definition hasValues :: "row \<Rightarrow> bool" where
  "hasValues r = list_ex (\<lambda>(c, x). cvalue x \<noteq> VNull) r"

text \<open>\<^verbatim>\<open>eachCell\<close> visits the cells that hold a value, in column order.\<close>

definition eachCell :: "row \<Rightarrow> (nat \<times> cell) list" where
  "eachCell r = filter (\<lambda>(c, x). cvalue x \<noteq> VNull) r"

text \<open>\<^verbatim>\<open>String(v)\<close> on a formula result and on a cell value.\<close>

fun string_of_result :: "host \<Rightarrow> formula_result \<Rightarrow> string" where
  "string_of_result h (RNumber n) = num_to_string h n"
| "string_of_result h (RString s) = s"
| "string_of_result h (RBoolean b) = (if b then ''true'' else ''false'')"
| "string_of_result h (RDate d) = date_to_string h d"
| "string_of_result h (RError e) = ''[object Object]''"

fun string_of_value :: "host \<Rightarrow> cell_value \<Rightarrow> string" where
  "string_of_value h VNull = ''null''"
| "string_of_value h (VNumber n) = num_to_string h n"
| "string_of_value h (VString s) = s"
| "string_of_value h (VBoolean b) = (if b then ''true'' else ''false'')"
| "string_of_value h (VDate d) = date_to_string h d"
| "string_of_value h (VError e) = ''[object Object]''"
| "string_of_value h (VRichText segs) = ''[object Object]''"
| "string_of_value h (VHyperlink t l) = ''[object Object]''"
| "string_of_value h (VFormula f r) = ''[object Object]''"

text \<open>The values JavaScript takes for false in a condition, and \<^verbatim>\<open>a || b\<close>.\<close>

fun truthy :: "cell_value \<Rightarrow> bool" where
  "truthy VNull = False"
| "truthy (VNumber n) = (n \<noteq> 0)"
| "truthy (VString s) = (s \<noteq> [])"
| "truthy (VBoolean b) = b"
| "truthy _ = True"

definition or_else :: "cell_value \<Rightarrow> cell_value \<Rightarrow> cell_value" where
  "or_else a b = (if truthy a then a else b)"

text \<open>
  \<^verbatim>\<open>extractCellText\<close> (lines 518 to 549), the closure of \<^verbatim>\<open>parseExcelFile\<close>: a false value
  gives the empty string, strings and numbers print as they are, a date prints in the
  French locale, rich text joins its non-empty runs, a formula prints its result, and
  everything else falls back to the text the library renders. For a hyperlink line 544
  returns the \<^verbatim>\<open>text\<close> property as it is: a string, or, where the text of the link is
  rich text, that object. So the function gives a string or a value that is not a string.
\<close>

datatype cell_text = Text string | NotText

fun extractCellText :: "host \<Rightarrow> cell \<Rightarrow> cell_text" where
  "extractCellText h c =
     (case cvalue c of
        VNull \<Rightarrow> Text []
      | VNumber n \<Rightarrow> Text (if n = 0 then [] else num_to_string h n)
      | VString s \<Rightarrow> Text s
      | VBoolean b \<Rightarrow> Text (if b then ctext c else [])
      | VDate d \<Rightarrow> Text (locale_date_fr h d)
      | VRichText segs \<Rightarrow> Text (concat (filter (\<lambda>t. t \<noteq> []) segs))
      | VFormula f (Some r) \<Rightarrow> Text (string_of_result h r)
      | VFormula f None \<Rightarrow> Text (ctext c)
      | VHyperlink (HString t) l \<Rightarrow> Text (if t \<noteq> [] then t else ctext c)
      | VHyperlink (HRichText segs) l \<Rightarrow> NotText
      | VError e \<Rightarrow> Text (ctext c))"

text \<open>
  A method call on the extracted value: on a string it goes through; on a value that is
  not a string the method is missing and the call raises a TypeError, modelled by its
  message.
\<close>

definition method_on :: "host \<Rightarrow> string \<Rightarrow> cell_text \<Rightarrow> string + string" where
  "method_on h callee v = (case v of Text s \<Rightarrow> Inr s | NotText \<Rightarrow> Inl (not_a_function h callee))"

section \<open>The weekly-grid sub-parser\<close>

text \<open>The events and warnings a parse has collected so far.\<close>

record parse_state =
  ps_events :: "CalendarEvent list"
  ps_warnings :: "string list"

definition push_warning :: "string \<Rightarrow> parse_state \<Rightarrow> parse_state" where
  "push_warning w st = st\<lparr>ps_warnings := ps_warnings st @ [w]\<rparr>"

definition push_event :: "CalendarEvent \<Rightarrow> parse_state \<Rightarrow> parse_state" where
  "push_event e st = st\<lparr>ps_events := ps_events st @ [e]\<rparr>"

definition empty_state :: parse_state where
  "empty_state = \<lparr>ps_events = [], ps_warnings = []\<rparr>"

text \<open>\<^verbatim>\<open>warnings.length > 0 ? warnings : undefined\<close>\<close>

definition warnings_or_undefined :: "string list \<Rightarrow> string list option" where
  "warnings_or_undefined ws = (if length ws > 0 then Some ws else None)"

text \<open>The result literal \<^verbatim>\<open>{ success: false, events: [], errors }\<close>.\<close>

definition failure :: "string list \<Rightarrow> CalendarParseResult" where
  "failure es = \<lparr>success = False, events = [], errors = Some es, warnings = None\<rparr>"

text \<open>
  The status of one weekday cell (lines 411 to 425), with the tests in the order of the
  source.
\<close>

definition weekly_cell_status :: "string \<Rightarrow> AvailabilityStatus" where
  "weekly_cell_status cellValue =
     (if cellValue = ''7'' \<or> cellValue = ''7.00'' then School
      else if str_includes (toLowerCase cellValue) (''f'' @ [e_acute] @ ''ri'' @ [e_acute]) \<or>
              str_includes (toLowerCase cellValue) ''ferie'' then Vacation
      else if str_includes (toLowerCase cellValue) ''vacances'' \<or>
              str_includes (toLowerCase cellValue) ''exam'' then Vacation
      else if str_includes (toLowerCase cellValue) ''disponible'' then Available
      else if str_includes (toLowerCase cellValue) ''indisponible'' then Unavailable
      else Company)"

text \<open>
  The keywords of the grid that stand before the test for \<^verbatim>\<open>disponible\<close>: public holidays,
  vacations and exams.
\<close>

definition holiday_keywords :: "string list" where
  "holiday_keywords =
     [''f'' @ [e_acute] @ ''ri'' @ [e_acute], ''ferie'', ''vacances'', ''exam'']"

text \<open>
  The weekday columns of the header (lines 349 to 360). \<^verbatim>\<open>dayMapping\<close> is an object
  literal with seven own properties, and line 354 reads it at every key of the column
  map. Such a read also finds the properties every object inherits from
  \<^verbatim>\<open>Object.prototype\<close>, whose values are functions (for \<^verbatim>\<open>__proto__\<close> the prototype
  itself): they are not \<^verbatim>\<open>undefined\<close>, so the test of line 355 lets them through.
\<close>

definition weekday_names :: "(string \<times> nat) list" where
  "weekday_names =
     [(''lu'', 0), (''ma'', 1), (''me'', 2), (''je'', 3), (''ve'', 4), (''sa'', 5), (''di'', 6)]"

definition prototype_names :: "string list" where
  "prototype_names =
     [''constructor'', ''__defineGetter__'', ''__defineSetter__'', ''hasOwnProperty'',
      ''__lookupGetter__'', ''__lookupSetter__'', ''isPrototypeOf'', ''propertyIsEnumerable'',
      ''toString'', ''valueOf'', ''__proto__'', ''toLocaleString'']"

datatype day_offset = Offset nat | Inherited

definition dayMapping :: "string \<Rightarrow> day_offset option" where
  "dayMapping key =
     (case map_of weekday_names key of
        Some off \<Rightarrow> Some (Offset off)
      | None \<Rightarrow> if key \<in> set prototype_names then Some Inherited else None)"

record weekday_column =
  day :: string
  colIndex :: nat
  dayOffset :: day_offset

definition weekday_entry :: "string \<times> nat \<Rightarrow> weekday_column option" where
  "weekday_entry e =
     (case dayMapping (fst e) of
        None \<Rightarrow> None
      | Some off \<Rightarrow> Some \<lparr>day = fst e, colIndex = snd e, dayOffset = off\<rparr>)"

text \<open>
  The comparison function of line 360, \<^verbatim>\<open>a.dayOffset - b.dayOffset\<close>: the difference of
  two numbers, and NaN, which a sort takes for 0, when one of them is a function or an
  object. The sort is stable. It is modelled as an insertion sort; where the comparison
  is not a consistent order (an inherited offset beside two different days) the standard
  leaves the resulting order to the implementation.
\<close>

fun compare_offsets :: "day_offset \<Rightarrow> day_offset \<Rightarrow> int" where
  "compare_offsets (Offset a) (Offset b) = int a - int b"
| "compare_offsets _ _ = 0"

fun insert_column :: "weekday_column \<Rightarrow> weekday_column list \<Rightarrow> weekday_column list" where
  "insert_column x [] = [x]"
| "insert_column x (y # ys) =
     (if compare_offsets (dayOffset x) (dayOffset y) \<le> 0 then x # y # ys
      else y # insert_column x ys)"

definition sort_columns :: "weekday_column list \<Rightarrow> weekday_column list" where
  "sort_columns xs = foldr insert_column xs []"

definition weekdayColumns_of :: "(string \<times> nat) list \<Rightarrow> weekday_column list" where
  "weekdayColumns_of columnMap = sort_columns (List.map_filter weekday_entry columnMap)"

text \<open>
  The date of a weekday cell (lines 407 and 408): a copy of the Monday, moved by the day
  offset with \<^verbatim>\<open>setDate(getDate() + dayOffset)\<close>. With an inherited offset the sum is a
  string that is no numeric literal, and \<^verbatim>\<open>setDate\<close> of NaN gives an Invalid Date.
\<close>

definition currentDate_of :: "host \<Rightarrow> jsdate \<Rightarrow> day_offset \<Rightarrow> jsdate" where
  "currentDate_of h mondayDate off =
     (case off of
        Offset k \<Rightarrow> setDate h mondayDate (map_option (\<lambda>d. d + int k) (getDate h mondayDate))
      | Inherited \<Rightarrow> setDate h mondayDate None)"

text \<open>
  One weekday cell of a week row (lines 402 to 437): the event of that day, or the message
  of the TypeError that \<^verbatim>\<open>cellValue.toLowerCase()\<close> raises on a value that is not a string
  (such a value is neither of the two school codes, so line 415 is reached).
\<close>

definition weekly_day_step ::
  "host \<Rightarrow> string \<Rightarrow> (cell \<Rightarrow> cell_text) \<Rightarrow> row \<Rightarrow> jsdate \<Rightarrow> weekday_column \<Rightarrow>
   parse_state \<Rightarrow> string + parse_state" where
  "weekly_day_step h member extract r mondayDate wc st =
     (let currentDate = currentDate_of h mondayDate (dayOffset wc) in
      case method_on h ''cellValue.toLowerCase'' (extract (getCell r (colIndex wc))) of
        Inl message \<Rightarrow> Inl message
      | Inr cellValue \<Rightarrow>
          Inr (push_event
                 \<lparr>event_id = gen_id h (length (ps_events st)),
                  memberId = member,
                  startDate = startOfDay h currentDate,
                  endDate = endOfDay h currentDate,
                  status = weekly_cell_status cellValue,
                  event_note = (if cellValue = [] then None else Some cellValue),
                  isImported = True\<rparr> st))"

text \<open>
  The loop over the weekday columns of one row. An error leaves the loop at once; the
  events pushed before it stay in the list.
\<close>

fun weekly_days_loop ::
  "host \<Rightarrow> string \<Rightarrow> (cell \<Rightarrow> cell_text) \<Rightarrow> row \<Rightarrow> jsdate \<Rightarrow> weekday_column list \<Rightarrow>
   parse_state \<Rightarrow> string option \<times> parse_state" where
  "weekly_days_loop h member extract r mondayDate [] st = (None, st)"
| "weekly_days_loop h member extract r mondayDate (wc # wcs) st =
     (case weekly_day_step h member extract r mondayDate wc st of
        Inl message \<Rightarrow> (Some message, st)
      | Inr st' \<Rightarrow> weekly_days_loop h member extract r mondayDate wcs st')"

text \<open>
  The anchor date of a week row (lines 387 to 394): the three parts of the text between
  slashes, each through \<^verbatim>\<open>Number\<close>, as day, month and year of a local date.
\<close>

definition monday_of :: "host \<Rightarrow> string list \<Rightarrow> jsdate" where
  "monday_of h dateParts =
     (let d = str_to_number (dateParts ! 0);
          m = str_to_number (dateParts ! 1);
          y = str_to_number (dateParts ! 2)
      in new_Date h y (num_add m (Some (- 1))) d)"

text \<open>
  One row of the grid (lines 373 to 441). The catch of line 438 turns an error of the row
  body into one warning, \<^verbatim>\<open>${error}\<close> printing the name and the message of the error.
\<close>

definition parsing_error :: "nat \<Rightarrow> string \<Rightarrow> string" where
  "parsing_error rowNum message =
     ''Ligne '' @ nat_to_string rowNum @ '': Erreur de parsing - TypeError: '' @ message"

definition weekly_row_step ::
  "host \<Rightarrow> worksheet \<Rightarrow> nat \<Rightarrow> weekday_column list \<Rightarrow> string \<Rightarrow> (cell \<Rightarrow> cell_text) \<Rightarrow>
   nat \<Rightarrow> parse_state \<Rightarrow> parse_state" where
  "weekly_row_step h ws dateColIndex weekdayColumns member extract rowNum st =
     (let r = getRow ws rowNum in
      if \<not> hasValues r then st
      else
        case extract (getCell r dateColIndex) of
          NotText \<Rightarrow>
            push_warning (parsing_error rowNum (not_a_function h ''dateText.includes'')) st
        | Text dateText \<Rightarrow>
            if dateText = [] \<or> str_includes dateText (''synth'' @ [e_grave] @ ''se'') \<or>
               str_includes dateText (''p'' @ [e_acute] @ ''riode'')
            then st
            else
              let dateParts = split_char (CHR ''/'') dateText in
              if length dateParts \<noteq> 3
              then push_warning
                     (''Ligne '' @ nat_to_string rowNum @ '': Format de date invalide '' @
                      [CHR 0x22] @ dateText @ [CHR 0x22]) st
              else
                let mondayDate = monday_of h dateParts in
                if isNaN_getTime mondayDate
                then push_warning
                       (''Ligne '' @ nat_to_string rowNum @ '': Date invalide '' @
                        [CHR 0x22] @ dateText @ [CHR 0x22]) st
                else
                  (case weekly_days_loop h member extract r mondayDate weekdayColumns st of
                     (None, st') \<Rightarrow> st'
                   | (Some message, st') \<Rightarrow> push_warning (parsing_error rowNum message) st'))"

fun weekly_rows_loop ::
  "host \<Rightarrow> worksheet \<Rightarrow> nat \<Rightarrow> weekday_column list \<Rightarrow> string \<Rightarrow> (cell \<Rightarrow> cell_text) \<Rightarrow>
   nat list \<Rightarrow> parse_state \<Rightarrow> parse_state" where
  "weekly_rows_loop h ws dateColIndex weekdayColumns member extract [] st = st"
| "weekly_rows_loop h ws dateColIndex weekdayColumns member extract (rowNum # rest) st =
     weekly_rows_loop h ws dateColIndex weekdayColumns member extract rest
       (weekly_row_step h ws dateColIndex weekdayColumns member extract rowNum st)"

text \<open>
  \<^verbatim>\<open>parseWeeklyCalendarFormat\<close> (lines 330 to 459). The rows run from \<open>dataStartRow\<close> to
  \<open>rowCount\<close>.
\<close>

definition parseWeeklyCalendarFormat ::
  "host \<Rightarrow> worksheet \<Rightarrow> (string \<times> nat) list \<Rightarrow> nat \<Rightarrow> string \<Rightarrow> (cell \<Rightarrow> cell_text) \<Rightarrow>
   CalendarParseResult" where
  "parseWeeklyCalendarFormat h ws columnMap dataStartRow member extract =
     (let dateColIndex =
            find_entry (\<lambda>key. str_includes key ''date'' \<or> str_includes key ''lundi'') columnMap;
          weekdayColumns = weekdayColumns_of columnMap
      in case dateColIndex of
           None \<Rightarrow>
             failure [''Format calendrier hebdomadaire invalide : colonnes date ou jours manquantes'']
         | Some dateCol \<Rightarrow>
             if dateCol = 0 \<or> length weekdayColumns = 0
             then failure
                    [''Format calendrier hebdomadaire invalide : colonnes date ou jours manquantes'']
             else
               let st = weekly_rows_loop h ws dateCol weekdayColumns member extract
                          [dataStartRow ..< Suc (rowCount ws)] empty_state
               in if length (ps_events st) = 0
                  then \<lparr>success = False, events = [],
                        errors = Some [''Aucun '' @ [e_acute] @ ''v'' @ [e_acute] @
                                       ''nement trouv'' @ [e_acute] @
                                       '' dans le calendrier hebdomadaire''],
                        warnings = warnings_or_undefined (ps_warnings st)\<rparr>
                  else \<lparr>success = True, events = ps_events st, errors = None,
                        warnings = warnings_or_undefined (ps_warnings st)\<rparr>)"

section \<open>The spreadsheet parser\<close>

text \<open>\<^verbatim>\<open>getCellValue\<close> (lines 292 to 306): the first candidate name the header has decides.\<close>

fun getCellValue :: "row \<Rightarrow> string list \<Rightarrow> (string \<times> nat) list \<Rightarrow> cell_value" where
  "getCellValue r [] columnMap = VNull"
| "getCellValue r (name # names) columnMap =
     (case map_of columnMap (trim (toLowerCase name)) of
        Some col \<Rightarrow> cvalue (getCell r col)
      | None \<Rightarrow> getCellValue r names columnMap)"

text \<open>
  The header scan (lines 554 to 596). For one row: the lower-cased, trimmed texts of its
  cells with their column numbers, leaving out empty texts and the text of an object that
  did not print. On a cell whose extracted value is not a string, \<^verbatim>\<open>toLowerCase\<close> raises
  a TypeError, which leaves the scan and the parser.
\<close>

fun the_text :: "cell_text \<Rightarrow> string" where
  "the_text (Text s) = s"
| "the_text NotText = []"

definition header_texts :: "host \<Rightarrow> row \<Rightarrow> string + (string \<times> nat) list" where
  "header_texts h r =
     (if list_ex (\<lambda>(c, x). extractCellText h x = NotText) (eachCell r)
      then Inl (not_a_function h ''extractCellText(...).toLowerCase'')
      else Inr (filter (\<lambda>(t, c). t \<noteq> [] \<and> t \<noteq> ''[object object]'')
                  (map (\<lambda>(c, x). (trim (toLowerCase (the_text (extractCellText h x))), c))
                     (eachCell r))))"

definition tempMap_of :: "(string \<times> nat) list \<Rightarrow> (string \<times> nat) list" where
  "tempMap_of texts = foldl (\<lambda>m (t, c). map_set m t c) [] texts"

definition is_header_row :: "(string \<times> nat) list \<Rightarrow> bool" where
  "is_header_row texts =
     (let tempMap = tempMap_of texts;
          rowValues = map fst texts;
          uniqueValues = length (remdups rowValues);
          hasSemaineColumn =
            list_ex (\<lambda>col. str_includes col ''semaine'' \<or> str_includes col ''week'' \<or>
                            col = ''n'' @ [degree_sign] \<or>
                            str_includes col (''n'' @ [degree_sign] @ '' semaine''))
              (map_keys tempMap);
          hasDateColumn =
            list_ex (\<lambda>col. str_includes col ''date'' \<or> str_includes col ''lundi'')
              (map_keys tempMap);
          hasWeekdayColumns =
            list_ex (\<lambda>col. col = ''lu'' \<or> col = ''ma'' \<or> col = ''me'' \<or> col = ''je'' \<or>
                            col = ''ve'')
              (map_keys tempMap)
      in (hasSemaineColumn \<and> hasDateColumn) \<or> hasWeekdayColumns \<or> uniqueValues > 3)"

text \<open>
  The scan returns the column map and the number of the first data row; when no row
  qualifies they keep their initial values, the empty map and row 2.
\<close>

fun find_header ::
  "host \<Rightarrow> worksheet \<Rightarrow> nat list \<Rightarrow> string + ((string \<times> nat) list \<times> nat)" where
  "find_header h ws [] = Inr ([], 2)"
| "find_header h ws (rowNum # rest) =
     (case header_texts h (getRow ws rowNum) of
        Inl message \<Rightarrow> Inl message
      | Inr texts \<Rightarrow>
          if is_header_row texts then Inr (tempMap_of texts, rowNum + 1)
          else find_header h ws rest)"

text \<open>The value of a date cell as a Date (lines 706 to 721).\<close>

definition cell_date :: "host \<Rightarrow> cell_value \<Rightarrow> jsdate" where
  "cell_date h v =
     (case v of
        VNumber n \<Rightarrow> excelDateToJSDate h n
      | VDate d \<Rightarrow> d
      | _ \<Rightarrow> date_parse h (string_of_value h v))"

text \<open>One data row of the classic table (lines 650 to 759).\<close>

definition excel_row_step ::
  "host \<Rightarrow> worksheet \<Rightarrow> (string \<times> nat) list \<Rightarrow> string \<Rightarrow> nat \<Rightarrow> parse_state \<Rightarrow> parse_state"
  where
  "excel_row_step h ws columnMap member rowNumber st =
     (let r = getRow ws rowNumber in
      if \<not> hasValues r then st
      else
        let dateDebutValue =
              getCellValue r
                [''date d'' @ [e_acute] @ ''but'', ''date de d'' @ [e_acute] @ ''but'',
                 ''start date'', ''date'', ''date_debut'', ''d'' @ [e_acute] @ ''but'',
                 ''debut'']
                columnMap
        in if \<not> truthy dateDebutValue
           then push_warning
                  (''Ligne '' @ nat_to_string rowNumber @ '': Date de d'' @ [e_acute] @
                   ''but manquante'') st
           else
             let dateFinValue =
                   or_else
                     (getCellValue r
                        [''date fin'', ''date de fin'', ''end date'', ''date_fin'', ''fin'']
                        columnMap)
                     dateDebutValue;
                 typeValue =
                   or_else
                     (getCellValue r
                        [''type'', ''statut'', ''status'', [e_acute] @ ''tat'', ''etat'']
                        columnMap)
                     (VString ([e_acute] @ ''cole''));
                 startD = cell_date h dateDebutValue;
                 endD = cell_date h dateFinValue
             in if isNaN_getTime startD \<or> isNaN_getTime endD
                then push_warning (''Ligne '' @ nat_to_string rowNumber @ '': Date invalide'') st
                else if date_less endD startD
                then push_warning
                       (''Ligne '' @ nat_to_string rowNumber @ '': Date de fin avant date de d'' @
                        [e_acute] @ ''but'') st
                else
                  let typeStr = string_of_value h typeValue;
                      st_status = detectStatusFromSummary typeStr
                  in push_event
                       \<lparr>event_id = gen_id h (length (ps_events st)),
                        memberId = member,
                        startDate = startOfDay h startD,
                        endDate = endOfDay h endD,
                        status = st_status,
                        event_note = Some typeStr,
                        isImported = True\<rparr> st)"

fun excel_rows_loop ::
  "host \<Rightarrow> worksheet \<Rightarrow> (string \<times> nat) list \<Rightarrow> string \<Rightarrow> nat list \<Rightarrow> parse_state \<Rightarrow>
   parse_state" where
  "excel_rows_loop h ws columnMap member [] st = st"
| "excel_rows_loop h ws columnMap member (rowNumber # rest) st =
     excel_rows_loop h ws columnMap member rest
       (excel_row_step h ws columnMap member rowNumber st)"

text \<open>
  \<^verbatim>\<open>parseExcelFile\<close> (lines 485 to 787). A payload that cannot be read, or that the
  library cannot load, is caught by the catch-all of the function.
\<close>

definition parseExcelFile :: "host \<Rightarrow> input_file \<Rightarrow> string \<Rightarrow> CalendarParseResult" where
  "parseExcelFile h f member =
     (case file_content f of
        Unreadable msg \<Rightarrow> failure [''Erreur parsing Excel: '' @ msg]
      | Content buffer \<Rightarrow>
          (case xlsx_load h buffer of
             Inl msg \<Rightarrow> failure [''Erreur parsing Excel: '' @ msg]
           | Inr [] \<Rightarrow> failure [''Le fichier Excel ne contient aucune feuille'']
           | Inr (ws # others) \<Rightarrow>
               (case find_header h ws [1 ..< Suc (min 10 (rowCount ws))] of
                  Inl message \<Rightarrow> failure [''Erreur parsing Excel: '' @ message]
                | Inr (columnMap, dataStartRow) \<Rightarrow>
                   if length columnMap = 0
                   then failure
                     [''Aucune colonne d'' @ [CHR 0x27] @ ''en-t'' @ [CHR 0xEA] @
                        ''te valide d'' @ [e_acute] @ ''tect'' @ [e_acute] @
                        ''e dans les 10 premi'' @ [e_grave] @ ''res lignes.'',
                      ''Format attendu: Le fichier doit contenir une ligne d'' @ [CHR 0x27] @
                        ''en-t'' @ [CHR 0xEA] @ ''tes avec : Date d'' @ [e_acute] @
                        ''but | Date fin | Type'',
                      ''Ou un format calendrier hebdomadaire avec : N'' @ [degree_sign] @
                        '' Semaine | Date | LU | MA | ME...'']
                   else
                     let hasSemaineColumn =
                           list_ex (\<lambda>col. str_includes col ''semaine'' \<or>
                                           str_includes col ''week'' \<or>
                                           col = ''n'' @ [degree_sign])
                             (map_keys columnMap);
                         hasWeekdayColumns =
                           list_ex (\<lambda>col. col = ''lu'' \<or> col = ''ma'' \<or> col = ''me'')
                             (map_keys columnMap)
                     in if hasSemaineColumn \<and> hasWeekdayColumns
                        then parseWeeklyCalendarFormat h ws columnMap dataStartRow member
                               (extractCellText h)
                        else
                          let hasDateColumn =
                                list_ex (\<lambda>col. str_includes col ''date'' \<or>
                                                str_includes col (''d'' @ [e_acute] @ ''but'') \<or>
                                                str_includes col ''debut'' \<or>
                                                str_includes col ''start'')
                                  (map_keys columnMap)
                          in if \<not> hasDateColumn
                             then failure
                               [''Colonne '' @ [CHR 0x22] @ ''date d'' @ [e_acute] @ ''but'' @
                                  [CHR 0x22] @ '' ou '' @ [CHR 0x22] @ ''date'' @ [CHR 0x22] @
                                  '' non trouv'' @ [e_acute] @ ''e. Colonnes d'' @ [e_acute] @
                                  ''tect'' @ [e_acute] @ ''es: '' @
                                  join_with '', '' (map_keys columnMap),
                                ''Format attendu: Le fichier doit contenir une colonne '' @
                                  [CHR 0x22] @ ''Date d'' @ [e_acute] @ ''but'' @ [CHR 0x22] @
                                  '' ou '' @ [CHR 0x22] @ ''Date'' @ [CHR 0x22]]
                             else
                               let st = excel_rows_loop h ws columnMap member
                                          [dataStartRow ..< Suc (rowCount ws)] empty_state
                               in if length (ps_events st) = 0
                                  then \<lparr>success = False, events = [],
                                        errors = Some [''Aucun '' @ [e_acute] @ ''v'' @
                                          [e_acute] @ ''nement valide trouv'' @ [e_acute] @
                                          '' dans le fichier Excel''],
                                        warnings = warnings_or_undefined (ps_warnings st)\<rparr>
                                  else \<lparr>success = True, events = ps_events st, errors = None,
                                        warnings = warnings_or_undefined (ps_warnings st)\<rparr>)))"

text \<open>
  The names of the header columns that the scan of a spreadsheet file detects; none when
  the file has no sheet or cannot be read or scanned.
\<close>

definition detected_columns :: "host \<Rightarrow> input_file \<Rightarrow> string list" where
  "detected_columns h f =
     (case file_content f of
        Unreadable msg \<Rightarrow> []
      | Content buffer \<Rightarrow>
          (case xlsx_load h buffer of
             Inl msg \<Rightarrow> []
           | Inr [] \<Rightarrow> []
           | Inr (ws # others) \<Rightarrow>
               (case find_header h ws [1 ..< Suc (min 10 (rowCount ws))] of
                  Inl message \<Rightarrow> []
                | Inr (columnMap, dataStartRow) \<Rightarrow> map_keys columnMap)))"

section \<open>The CSV parser\<close>

text \<open>
  \<^verbatim>\<open>parseSimpleCSV\<close> (lines 796 to 821): the lines that are not blank; the first gives the
  headers; every other line gives a row object with one property per header, a missing
  or empty value read as the empty string. The assignment \<^verbatim>\<open>row[header] = value\<close> creates
  no property for the header \<^verbatim>\<open>__proto__\<close>: it reaches the setter of the prototype, which
  ignores a string.
\<close>

definition csv_fields :: "string \<Rightarrow> string list" where
  "csv_fields line = map (\<lambda>v. strip_quotes (trim v)) (split_char (CHR '','') line)"

definition csv_row_object :: "string list \<Rightarrow> string list \<Rightarrow> (string \<times> string) list" where
  "csv_row_object headers vals =
     foldl (\<lambda>r (header, index).
              if header = ''__proto__'' then r
              else map_set r header (if index < length vals then vals ! index else []))
       [] (zip headers [0 ..< length headers])"

text \<open>
  \<^verbatim>\<open>Object.keys\<close> lists the properties whose name is an array index (the decimal numeral,
  without leading zeros, of a number below \<open>2 ^ 32 - 1\<close>) first, in ascending order, and
  the other properties after them in the order of their creation.
\<close>

definition array_index :: "string \<Rightarrow> int option" where
  "array_index s =
     (if s \<noteq> [] \<and> list_all is_digit s \<and> (s = ''0'' \<or> hd s \<noteq> CHR ''0'') \<and>
         the (radix_value 10 0 s) < 2 ^ 32 - 1
      then radix_value 10 0 s else None)"

definition own_entries :: "(string \<times> 'v) list \<Rightarrow> (string \<times> 'v) list" where
  "own_entries r =
     sort_key (\<lambda>(k, v). the (array_index k)) (filter (\<lambda>(k, v). array_index k \<noteq> None) r) @
     filter (\<lambda>(k, v). array_index k = None) r"

definition parseSimpleCSV :: "string \<Rightarrow> (string \<times> string) list list" where
  "parseSimpleCSV text_in =
     (let lines = filter (\<lambda>line. length (trim line) > 0) (split_lines text_in) in
      case lines of
        [] \<Rightarrow> []
      | headerLine # dataLines \<Rightarrow>
          (let headers = csv_fields headerLine in
           map (\<lambda>line. csv_row_object headers (csv_fields line)) dataLines))"

text \<open>
  \<^verbatim>\<open>getCSVValue\<close> (lines 830 to 849): for each candidate name, the value under exactly that
  key when it is not empty, else the value under the first key that equals the name up to
  case, whatever that value is. The candidate names of the callers are no names of
  \<^verbatim>\<open>Object.prototype\<close>, so \<^verbatim>\<open>row[name]\<close> reads an own property or nothing.
\<close>

fun getCSVValue :: "(string \<times> string) list \<Rightarrow> string list \<Rightarrow> string option" where
  "getCSVValue r [] = None"
| "getCSVValue r (name # names) =
     (case map_of r name of
        Some v \<Rightarrow>
          if v \<noteq> [] then Some v
          else (case List.find (\<lambda>(key, x). toLowerCase key = toLowerCase name) (own_entries r) of
                  Some (key, x) \<Rightarrow> Some x
                | None \<Rightarrow> getCSVValue r names)
      | None \<Rightarrow>
          (case List.find (\<lambda>(key, x). toLowerCase key = toLowerCase name) (own_entries r) of
             Some (key, x) \<Rightarrow> Some x
           | None \<Rightarrow> getCSVValue r names))"

text \<open>A string or undefined in a condition, and \<^verbatim>\<open>a || b\<close> on such values.\<close>

definition present :: "string option \<Rightarrow> bool" where
  "present v = (case v of None \<Rightarrow> False | Some s \<Rightarrow> s \<noteq> [])"

text \<open>One row of the CSV file (lines 903 to 977); \<open>index\<close> counts the data rows from 0.\<close>

definition csv_row_step ::
  "host \<Rightarrow> string \<Rightarrow> nat \<Rightarrow> (string \<times> string) list \<Rightarrow> parse_state \<Rightarrow> parse_state" where
  "csv_row_step h member index r st =
     (let rowNumber = index + 2;
          dateDebutValue =
            getCSVValue r
              [''Date d'' @ [e_acute] @ ''but'', ''Date de d'' @ [e_acute] @ ''but'',
               ''Start Date'', ''Date'', ''date_debut'', ''D'' @ [e_acute] @ ''but'', ''debut'']
      in if \<not> present dateDebutValue
         then push_warning
                (''Ligne '' @ nat_to_string rowNumber @ '': Date de d'' @ [e_acute] @
                 ''but manquante'') st
         else
           let dateFin = getCSVValue r
                           [''Date fin'', ''Date de fin'', ''End Date'', ''date_fin'', ''Fin'',
                            ''fin''];
               dateFinValue = (if present dateFin then dateFin else dateDebutValue);
               typeFound = getCSVValue r
                             [''Type'', ''type'', ''Statut'', ''statut'', ''Status'', ''status'',
                              [E_acute] @ ''tat'', ''etat''];
               typeValue = (if present typeFound then the typeFound else [e_acute] @ ''cole'');
               startD = date_parse h (the dateDebutValue);
               endD = date_parse h (the dateFinValue)
           in if isNaN_getTime startD \<or> isNaN_getTime endD
              then push_warning (''Ligne '' @ nat_to_string rowNumber @ '': Date invalide'') st
              else if date_less endD startD
              then push_warning
                     (''Ligne '' @ nat_to_string rowNumber @ '': Date de fin avant date de d'' @
                      [e_acute] @ ''but'') st
              else
                let st_status = detectStatusFromSummary typeValue
                in push_event
                     \<lparr>event_id = gen_id h (length (ps_events st)),
                      memberId = member,
                      startDate = startOfDay h startD,
                      endDate = endOfDay h endD,
                      status = st_status,
                      event_note = Some typeValue,
                      isImported = True\<rparr> st)"

fun csv_rows_loop ::
  "host \<Rightarrow> string \<Rightarrow> nat \<Rightarrow> (string \<times> string) list list \<Rightarrow> parse_state \<Rightarrow> parse_state" where
  "csv_rows_loop h member index [] st = st"
| "csv_rows_loop h member index (r # rest) st =
     csv_rows_loop h member (Suc index) rest (csv_row_step h member index r st)"

text \<open>\<^verbatim>\<open>parseCSVFile\<close> (lines 872 to 1005).\<close>

definition parseCSVFile :: "host \<Rightarrow> input_file \<Rightarrow> string \<Rightarrow> CalendarParseResult" where
  "parseCSVFile h f member =
     (case file_content f of
        Unreadable msg \<Rightarrow> failure [''Erreur parsing CSV: '' @ msg]
      | Content text_in \<Rightarrow>
          if text_in = [] \<or> length (trim text_in) = 0
          then failure [''Le fichier CSV est vide'']
          else
            let rows = parseSimpleCSV text_in in
            if length rows = 0
            then failure [''Aucune donn'' @ [e_acute] @ ''e trouv'' @ [e_acute] @
                          ''e dans le fichier CSV'']
            else
              let st = csv_rows_loop h member 0 rows empty_state
              in if length (ps_events st) = 0
                 then \<lparr>success = False, events = [],
                       errors = Some [''Aucun '' @ [e_acute] @ ''v'' @ [e_acute] @
                                      ''nement valide trouv'' @ [e_acute] @
                                      '' dans le fichier CSV''],
                       warnings = warnings_or_undefined (ps_warnings st)\<rparr>
                 else \<lparr>success = True, events = ps_events st, errors = None,
                       warnings = warnings_or_undefined (ps_warnings st)\<rparr>)"

section \<open>The iCalendar parser\<close>

text \<open>\<^verbatim>\<open>event.summary || 'Sans titre'\<close>\<close>

definition title_of :: "string option \<Rightarrow> string" where
  "title_of s = (if present s then the s else ''Sans titre'')"

text \<open>One VEVENT (lines 155 to 218).\<close>

definition ics_event_step :: "host \<Rightarrow> string \<Rightarrow> vevent \<Rightarrow> parse_state \<Rightarrow> parse_state" where
  "ics_event_step h member ve st =
     (if ev_raises ve
      then push_warning
             ([E_acute] @ ''v'' @ [e_acute] @ ''nement ignor'' @ [e_acute] @
              '' (erreur de traitement): '' @ title_of (ev_summary ve)) st
      else
        case (ev_start ve, ev_end ve) of
          (Some startD, Some endD) \<Rightarrow>
            if isNaN_getTime startD \<or> isNaN_getTime endD
            then push_warning
                   ([E_acute] @ ''v'' @ [e_acute] @ ''nement ignor'' @ [e_acute] @
                    '' (erreur de date): '' @ title_of (ev_summary ve)) st
            else if date_less endD startD
            then push_warning
                   ([E_acute] @ ''v'' @ [e_acute] @ ''nement ignor'' @ [e_acute] @
                    '' (date de fin avant date de d'' @ [e_acute] @ ''but): '' @
                    title_of (ev_summary ve)) st
            else
              let summary = (if present (ev_summary ve) then the (ev_summary ve) else []);
                  st_status = detectStatusFromSummary summary
              in push_event
                   \<lparr>event_id = gen_id h (length (ps_events st)),
                    memberId = member,
                    startDate = startOfDay h startD,
                    endDate = endOfDay h endD,
                    status = st_status,
                    event_note = Some summary,
                    isImported = True\<rparr> st
        | _ \<Rightarrow>
            push_warning
              ([E_acute] @ ''v'' @ [e_acute] @ ''nement ignor'' @ [e_acute] @
               '' (dates manquantes): '' @ title_of (ev_summary ve)) st)"

fun ics_events_loop :: "host \<Rightarrow> string \<Rightarrow> vevent list \<Rightarrow> parse_state \<Rightarrow> parse_state" where
  "ics_events_loop h member [] st = st"
| "ics_events_loop h member (ve # rest) st =
     ics_events_loop h member rest (ics_event_step h member ve st)"

text \<open>\<^verbatim>\<open>parseICSFile\<close> (lines 105 to 247).\<close>

definition parseICSFile :: "host \<Rightarrow> input_file \<Rightarrow> string \<Rightarrow> CalendarParseResult" where
  "parseICSFile h f member =
     (case file_content f of
        Unreadable msg \<Rightarrow> failure [''Erreur lors de la lecture du fichier: '' @ msg]
      | Content text_in \<Rightarrow>
          if text_in = [] \<or> length (trim text_in) = 0
          then failure [''Le fichier est vide'']
          else
            (case ical_parse h text_in of
               ParseError msg \<Rightarrow> failure [''Format ICS invalide: '' @ msg]
             | ComponentError msg \<Rightarrow>
                 failure [''Erreur lors de la lecture du fichier: '' @ msg]
             | VEvents vevents \<Rightarrow>
                 if length vevents = 0
                 then failure [''Aucun '' @ [e_acute] @ ''v'' @ [e_acute] @ ''nement trouv'' @
                               [e_acute] @ '' dans le fichier ICS'']
                 else
                   let st = ics_events_loop h member vevents empty_state
                   in if length (ps_events st) = 0
                      then \<lparr>success = False, events = [],
                            errors = Some [''Aucun '' @ [e_acute] @ ''v'' @ [e_acute] @
                                           ''nement valide trouv'' @ [e_acute]],
                            warnings = warnings_or_undefined (ps_warnings st)\<rparr>
                      else \<lparr>success = True, events = ps_events st, errors = None,
                            warnings = warnings_or_undefined (ps_warnings st)\<rparr>))"

section \<open>The facade\<close>

text \<open>
  \<^verbatim>\<open>parseCalendarFile\<close> (lines 1032 to 1069): the extension is the lower-cased text after
  the last dot of the file name (the whole name when it has no dot).
\<close>

definition extension_of :: "string \<Rightarrow> string" where
  "extension_of fname = toLowerCase (last (split_char (CHR ''.'') fname))"

definition parseCalendarFile :: "host \<Rightarrow> input_file \<Rightarrow> string \<Rightarrow> CalendarParseResult" where
  "parseCalendarFile h f member =
     (let extension = extension_of (file_name f) in
      if extension = []
      then failure [''Impossible de d'' @ [e_acute] @ ''terminer le format du fichier'']
      else if extension = ''ics'' then parseICSFile h f member
      else if extension = ''xlsx'' \<or> extension = ''xls'' then parseExcelFile h f member
      else if extension = ''csv'' then parseCSVFile h f member
      else failure
             [''Format de fichier non support'' @ [e_acute] @ '': .'' @ extension,
              ''Formats support'' @ [e_acute] @ ''s: .ics, .xlsx, .xls, .csv''])"

section \<open>The invariant of a parse result\<close>

text \<open>
  A successful result has at least one event, and a result that carries error messages is
  not successful.
\<close>

definition result_invariant :: "CalendarParseResult \<Rightarrow> bool" where
  "result_invariant r =
     ((success r \<longrightarrow> length (events r) > 0) \<and>
      ((\<exists>es. errors r = Some es \<and> es \<noteq> []) \<longrightarrow> \<not> success r))"

section \<open>Day-normalised events\<close>

text \<open>
  The local time values of the first and of the last millisecond of the local day of an
  instant, and the instant \<open>k\<close> local days after an instant, as \<^verbatim>\<open>setDate\<close> computes it.
\<close>

definition day_start :: "host \<Rightarrow> int \<Rightarrow> int" where
  "day_start h t = MakeDate (Day (LocalTime h t)) (MakeTime 0 0 0 0)"

definition day_end :: "host \<Rightarrow> int \<Rightarrow> int" where
  "day_end h t = MakeDate (Day (LocalTime h t)) (MakeTime 23 59 59 999)"

definition add_days :: "host \<Rightarrow> int \<Rightarrow> int \<Rightarrow> int" where
  "add_days h t k = UTC h (LocalTime h t + k * msPerDay)"

text \<open>
  A local time value exists in the zone when the instant that stands for it shows it
  again; where clocks are set forward, the local times that are skipped do not exist. A
  Date reads as a local time value when that is its local time.
\<close>

definition exists_locally :: "host \<Rightarrow> int \<Rightarrow> bool" where
  "exists_locally h x = (LocalTime h (UTC h x) = x)"

definition reads_as :: "host \<Rightarrow> jsdate \<Rightarrow> int \<Rightarrow> bool" where
  "reads_as h d x = (case d of Invalid_Date \<Rightarrow> False | Date_at t \<Rightarrow> LocalTime h t = x)"

text \<open>
  A zone is regular when the local calendar day never goes back as time passes and the
  offsets by which local times are read differ by less than a day.
\<close>

definition regular_zone :: "host \<Rightarrow> bool" where
  "regular_zone h =
     ((\<forall>a b. a \<le> b \<longrightarrow> Day (LocalTime h a) \<le> Day (LocalTime h b)) \<and>
      (\<forall>x y. localTZA h x False - localTZA h y False < msPerDay))"

text \<open>
  A Date is at the start of a local day when its local time of day is 00:00:00.000, and at
  the end when it is 23:59:59.999, one millisecond before a day starts.
\<close>

definition at_start_of_day :: "host \<Rightarrow> jsdate \<Rightarrow> bool" where
  "at_start_of_day h d =
     (case d of Invalid_Date \<Rightarrow> False | Date_at t \<Rightarrow> TimeWithinDay (LocalTime h t) = 0)"

definition at_end_of_day :: "host \<Rightarrow> jsdate \<Rightarrow> bool" where
  "at_end_of_day h d =
     (case d of
        Invalid_Date \<Rightarrow> False
      | Date_at t \<Rightarrow> TimeWithinDay (LocalTime h t) = msPerDay - 1)"

text \<open>\<^verbatim>\<open>a >= b\<close> on two Date objects; false when one of them is invalid.\<close>

fun date_geq :: "jsdate \<Rightarrow> jsdate \<Rightarrow> bool" where
  "date_geq (Date_at a) (Date_at b) = (a \<ge> b)"
| "date_geq _ _ = False"

text \<open>An event stamped with the subject identifier and marked as imported.\<close>

definition stamped :: "string \<Rightarrow> CalendarEvent \<Rightarrow> bool" where
  "stamped member e = (memberId e = member \<and> isImported e)"

text \<open>Two dates in ascending order, as far as both are valid.\<close>

definition date_before_or_invalid :: "jsdate \<Rightarrow> jsdate \<Rightarrow> bool" where
  "date_before_or_invalid a b = (a = Invalid_Date \<or> b = Invalid_Date \<or> date_less a b)"


text \<open>
  What the code gives. The dates of an event come from two instants, the second not before
  the first: the start date is the instant that stands for the first millisecond of the
  local day of the first, the end date the instant that stands for the last millisecond
  of the local day of the second, each an Invalid Date exactly when that instant lies
  beyond the range of Date. A valid start date reads as that first millisecond when it
  exists in the zone, and a valid end date as that last millisecond when it exists; in a
  regular zone a valid end date is not before a valid start date. In the weekly grid
  both dates are also invalid when the day of the cell, up to six days after a valid
  anchor, is itself beyond the range.
\<close>

definition day_normalized :: "host \<Rightarrow> CalendarEvent \<Rightarrow> bool" where
  "day_normalized h e =
     ((\<exists>y1 y2. y1 \<le> y2 \<and>
         startDate e = timeClip (UTC h (day_start h y1)) \<and>
         endDate e = timeClip (UTC h (day_end h y2)) \<and>
         (startDate e \<noteq> Invalid_Date \<and> exists_locally h (day_start h y1) \<longrightarrow>
            reads_as h (startDate e) (day_start h y1) \<and> at_start_of_day h (startDate e)) \<and>
         (endDate e \<noteq> Invalid_Date \<and> exists_locally h (day_end h y2) \<longrightarrow>
            reads_as h (endDate e) (day_end h y2) \<and> at_end_of_day h (endDate e)) \<and>
         (regular_zone h \<and> startDate e \<noteq> Invalid_Date \<and> endDate e \<noteq> Invalid_Date \<longrightarrow>
            date_geq (endDate e) (startDate e))) \<or>
      (startDate e = Invalid_Date \<and> endDate e = Invalid_Date \<and>
       (\<exists>t k. \<bar>t\<bar> \<le> maxTime \<and> 0 \<le> k \<and> k \<le> 6 \<and> maxTime < \<bar>add_days h t k\<bar>)))"

text \<open>
  An event of the weekly grid for a weekday column and an anchor: stamped, and dated on the
  day of that column.
\<close>

definition cell_event ::
  "host \<Rightarrow> string \<Rightarrow> jsdate \<Rightarrow> weekday_column \<Rightarrow> CalendarEvent \<Rightarrow> bool" where
  "cell_event h m d wc e =
     (stamped m e \<and> startDate e = startOfDay h (currentDate_of h d (dayOffset wc)) \<and>
      endDate e = endOfDay h (currentDate_of h d (dayOffset wc)))"

text \<open>
  The anchor texts of the weekly grid. A summary label is a text that contains one of the
  two words the sub-parser skips. A text is three numbers between slashes when it is
  \<open>a/b/c\<close> with no further slash and each part is a finite number as \<^verbatim>\<open>Number\<close> reads
  it.
\<close>

definition summary_label :: "string \<Rightarrow> bool" where
  "summary_label t =
     (str_includes t (''synth'' @ [e_grave] @ ''se'') \<or>
      str_includes t (''p'' @ [e_acute] @ ''riode''))"



text \<open>The number of a day offset that is one, and the rank of a weekday column in the week.\<close>

fun offset_number :: "day_offset \<Rightarrow> nat" where
  "offset_number (Offset n) = n"
| "offset_number Inherited = 0"

definition day_rank :: "weekday_column \<Rightarrow> nat" where
  "day_rank wc = offset_number (dayOffset wc)"

section \<open>Example hosts and inputs\<close>

text \<open>
  A host for the examples. It agrees with the platform on the inputs the examples reach:
  \<^verbatim>\<open>String\<close> on small natural numbers, \<^verbatim>\<open>new Date\<close> on three ISO dates (read as UTC
  midnight, the third being the last instant a Date can hold), the message of a
  TypeError as the V8 engine words it. Local time is one hour ahead of UTC all year. The
  fields no example reaches are constants.
\<close>

definition sample_date_parse :: "string \<Rightarrow> jsdate" where
  "sample_date_parse s =
     (if s = ''2025-01-13'' then Date_at (20101 * msPerDay)
      else if s = ''2025-01-17'' then Date_at (20105 * msPerDay)
      else if s = ''+275760-09-13'' then Date_at maxTime
      else Invalid_Date)"

definition sample_vevent :: vevent where
  "sample_vevent =
     \<lparr>ev_raises = False, ev_summary = Some ''Cours HETIC'',
      ev_start = Some (Date_at (20101 * msPerDay + 8 * 3600000)),
      ev_end = Some (Date_at (20101 * msPerDay + 16 * 3600000))\<rparr>"

definition text_cell :: "string \<Rightarrow> cell" where
  "text_cell s = \<lparr>cvalue = VString s, ctext = s\<rparr>"

definition number_cell :: "real \<Rightarrow> string \<Rightarrow> cell" where
  "number_cell n s = \<lparr>cvalue = VNumber n, ctext = s\<rparr>"

text \<open>A weekly grid: the header and the week of Monday 13 January 2025.\<close>

definition sample_grid :: worksheet where
  "sample_grid =
     [[(1, text_cell (''N'' @ [degree_sign] @ '' Semaine'')), (2, text_cell ''Date''),
       (3, text_cell ''LU''), (4, text_cell ''MA''), (5, text_cell ''ME''),
       (6, text_cell ''JE''), (7, text_cell ''VE'')],
      [(1, number_cell 3 ''3''), (2, text_cell ''13/01/2025''), (3, text_cell ''7''),
       (4, text_cell ''7''), (6, text_cell (''F'' @ [e_acute] @ ''ri'' @ [e_acute])),
       (7, text_cell ''Disponible'')]]"

definition sample_host :: host where
  "sample_host =
     \<lparr>localTZA = (\<lambda>t isUTC. 3600000),
      not_a_function = (\<lambda>callee. callee @ '' is not a function''),
      num_to_string = (\<lambda>x. nat_to_string (nat (to_integer x))),
      date_parse = sample_date_parse,
      date_to_string = (\<lambda>d. ''Invalid Date''),
      locale_date_fr = (\<lambda>d. ''Invalid Date''),
      gen_id = (\<lambda>k. ''import-'' @ nat_to_string k),
      ical_parse = (\<lambda>t. VEvents [sample_vevent]),
      xlsx_load = (\<lambda>b. Inr [sample_grid])\<rparr>"

text \<open>
  A grid whose header has the week number, the date and the columns of Thursday and
  Friday only, and the host that loads it.
\<close>

definition je_ve_grid :: worksheet where
  "je_ve_grid =
     [[(1, text_cell (''N'' @ [degree_sign] @ '' Semaine'')), (2, text_cell ''Date''),
       (3, text_cell ''JE''), (4, text_cell ''VE'')],
      [(1, text_cell ''3''), (2, text_cell ''13/01/2025''), (3, text_cell ''7''),
       (4, text_cell ''7'')]]"

definition je_ve_host :: host where
  "je_ve_host = sample_host\<lparr>xlsx_load := (\<lambda>b. Inr [je_ve_grid])\<rparr>"

text \<open>
  A grid whose header has, beside the week number, the date and the Monday column, a
  column named \<^verbatim>\<open>Constructor\<close>, and the host that loads it.
\<close>

definition constructor_grid :: worksheet where
  "constructor_grid =
     [[(1, text_cell (''N'' @ [degree_sign] @ '' Semaine'')), (2, text_cell ''Date''),
       (3, text_cell ''LU''), (4, text_cell ''Constructor'')],
      [(1, text_cell ''3''), (2, text_cell ''13/01/2025''), (3, text_cell ''7''),
       (4, text_cell ''Dupont'')]]"

definition constructor_host :: host where
  "constructor_host = sample_host\<lparr>xlsx_load := (\<lambda>b. Inr [constructor_grid])\<rparr>"



text \<open>
  A grid whose week row has a hyperlink with rich text under ME, and the host that loads
  it.
\<close>

definition linked_grid :: worksheet where
  "linked_grid =
     [[(1, text_cell (''N'' @ [degree_sign] @ '' Semaine'')), (2, text_cell ''Date''),
       (3, text_cell ''LU''), (4, text_cell ''MA''), (5, text_cell ''ME''),
       (6, text_cell ''JE'')],
      [(1, text_cell ''3''), (2, text_cell ''13/01/2025''), (3, text_cell ''7''),
       (4, text_cell ''7''),
       (5, \<lparr>cvalue = VHyperlink (HRichText [''Salon'', '' 2025'']) ''https://example.org'',
            ctext = ''Salon 2025''\<rparr>),
       (6, text_cell ''7'')]]"

definition linked_host :: host where
  "linked_host = sample_host\<lparr>xlsx_load := (\<lambda>b. Inr [linked_grid])\<rparr>"

text \<open>
  A classic table under a title row and an empty row, and a CSV file of three rows, the
  second with its end before its start, the third without end and type.
\<close>

definition titled_sheet :: worksheet where
  "titled_sheet =
     [[(1, text_cell ''Planning 2025'')],
      [],
      [(1, text_cell (''Date d'' @ [e_acute] @ ''but'')), (2, text_cell ''Date fin''),
       (3, text_cell ''Type''), (4, text_cell ''Note'')],
      [(1, text_cell ''2025-01-13''), (2, text_cell ''2025-01-17''),
       (3, text_cell ''Vacances'')]]"

definition sample_csv :: string where
  "sample_csv =
     ''Date d'' @ [e_acute] @ ''but,Date fin,Type'' @ [CHR 0x0D, CHR 0x0A] @
     ''2025-01-13,2025-01-17,Vacances'' @ [CHR 0x0A] @
     ''2025-01-17,2025-01-13,Cours'' @ [CHR 0x0A] @
     ''2025-01-17,,'' @ [CHR 0x0A]"

text \<open>A column map whose weekday columns are not in the order of the week.\<close>

definition shuffled_columns :: "(string \<times> nat) list" where
  "shuffled_columns =
     [(''n'' @ [degree_sign] @ '' semaine'', 1), (''date'', 2), (''ve'', 3), (''lu'', 4),
      (''ma'', 5)]"


definition sample_file :: "string \<Rightarrow> string \<Rightarrow> input_file" where
  "sample_file fname payload = \<lparr>file_name = fname, file_content = Content payload\<rparr>"



text \<open>
  A zone whose offset was larger in 1899 than it is today: 1 h 24 min ahead of UTC until
  1915-08-04T22:36:00Z and one hour ahead from then on (Warsaw, daylight saving left
  out).
\<close>

definition warsaw_zone :: "int \<Rightarrow> bool \<Rightarrow> int" where
  "warsaw_zone t isUTC =
     (if isUTC then (if t < - 1717032240000 then 5040000 else 3600000)
      else (if t < - 1717027200000 then 5040000 else 3600000))"

definition warsaw_host :: host where
  "warsaw_host = sample_host\<lparr>localTZA := warsaw_zone\<rparr>"

section \<open>Properties of the string functions\<close>

lemma str_includes_sublist: "str_includes s k = sublist k s"
  by (induction s) (auto simp: sublist_Cons_right)

lemma toLowerCase_append: "toLowerCase (a @ b) = toLowerCase a @ toLowerCase b"
  by (simp add: toLowerCase_def)

lemma sublist_toLowerCase:
  "sublist k (toLowerCase s) = (\<exists>part. sublist part s \<and> toLowerCase part = k)"
proof
  assume "sublist k (toLowerCase s)"
  then obtain part where "sublist part s" "k = map lower_char part"
    unfolding toLowerCase_def using sublist_map_rightE by blast
  then show "\<exists>part. sublist part s \<and> toLowerCase part = k"
    by (auto simp: toLowerCase_def)
next
  assume "\<exists>part. sublist part s \<and> toLowerCase part = k"
  then show "sublist k (toLowerCase s)"
    unfolding toLowerCase_def by (auto intro: map_mono_sublist)
qed

lemma mentions_code:
  "mentions label kws = list_ex (str_includes (toLowerCase label)) kws"
  unfolding mentions_def list_ex_iff str_includes_sublist sublist_toLowerCase by blast


section \<open>Rounding to doubles\<close>

lemma bit_length_bounds:
  "0 < n \<Longrightarrow> 2 ^ nat (bit_length n - 1) \<le> n \<and> n < 2 ^ nat (bit_length n) \<and> 1 \<le> bit_length n"
proof (induction n rule: bit_length.induct)
  case (1 n)
  show ?case
  proof (cases "n = 1")
    case True
    have "bit_length 1 = 1"
      by (simp add: bit_length.simps [of 1] bit_length.simps [of 0])
    then show ?thesis using True by simp
  next
    case False
    then have h: "0 < n div 2" using 1(2) by simp
    have ih: "2 ^ nat (bit_length (n div 2) - 1) \<le> n div 2" "n div 2 < 2 ^ nat (bit_length (n div 2))"
      "1 \<le> bit_length (n div 2)"
      using 1(1) [OF _ h] 1(2) by simp_all
    have e: "bit_length n = 1 + bit_length (n div 2)"
      using 1(2) by (simp add: bit_length.simps [of n])
    have n1: "nat (bit_length n - 1) = Suc (nat (bit_length (n div 2) - 1))"
      using e ih(3) by simp
    have n2: "nat (bit_length n) = Suc (nat (bit_length (n div 2)))"
      using e ih(3) by simp
    have "2 * (n div 2) \<le> n" "n < 2 * (n div 2) + 2"
      by simp_all
    then show ?thesis
      using ih e unfolding n1 n2 by simp
  qed
qed

lemma round_half_even_of_int: "round_half_even (of_int j) = j"
  by (simp add: round_half_even_def)

text \<open>Whole numbers up to \<open>2 ^ 53\<close> in absolute value are doubles.\<close>

lemma fl_of_int:
  assumes "\<bar>k\<bar> \<le> 2 ^ 53"
  shows "fl (of_int k) = Some (of_int k)"
proof (cases "k = 0")
  case True
  then show ?thesis by (simp add: fl_def)
next
  case False
  define a where "a = \<bar>k\<bar>"
  have a: "0 < a" "a \<le> 2 ^ 53" using False assms by (simp_all add: a_def)
  define n where "n = bit_length a"
  have n: "2 ^ nat (n - 1) \<le> a" "a < 2 ^ nat n" "1 \<le> n"
    using bit_length_bounds [OF a(1)] by (simp_all add: n_def)
  have p: "(2::int) ^ nat (n - 1) \<le> 2 ^ 53" using n(1) a(2) by linarith
  have "(1::int) < 2" by simp
  then have n53: "nat (n - 1) \<le> 53"
    using p by (rule power_le_imp_le_exp)
  define u where "u = pow2 (max (binary_exponent (of_int k)) (- 1022) - 52)"
  have ex: "binary_exponent (of_int k) = n - 1"
  proof -
    have "1 \<le> \<bar>real_of_int k\<bar>" using False by linarith
    moreover have "\<lfloor>\<bar>real_of_int k\<bar>\<rfloor> = a"
      unfolding a_def by (metis floor_of_int of_int_abs)
    ultimately show ?thesis by (simp add: binary_exponent_def n_def)
  qed
  have u: "u = pow2 (n - 53)"
    using n(3) by (simp add: u_def ex)
  have md: "\<bar>real_of_int k\<bar> \<le> max_double"
  proof -
    have "\<bar>real_of_int k\<bar> \<le> 2 ^ 53" using assms
      by (metis of_int_abs of_int_le_iff of_int_numeral of_int_power)
    also have "\<dots> \<le> max_double" by (simp add: max_double_def)
    finally show ?thesis .
  qed
  have r: "of_int (round_half_even (real_of_int k / u)) * u = real_of_int k"
  proof (cases "n \<le> 53")
    case True
    define d where "d = nat (53 - n)"
    have "pow2 (n - 53) = 1 / 2 ^ d"
    proof (cases "n = 53")
      case True
      then show ?thesis by (simp add: pow2_def d_def)
    next
      case False
      then have "n - 53 < 0" using True by simp
      moreover have "nat (- (n - 53)) = d" by (simp add: d_def)
      ultimately show ?thesis by (simp add: pow2_def)
    qed
    then have u': "u = 1 / 2 ^ d" using u by simp
    have q: "real_of_int k / (1 / 2 ^ d) = of_int (k * 2 ^ d)"
      by simp
    show ?thesis
      unfolding u' q round_half_even_of_int by simp
  next
    case False
    then have n54: "n = 54" using n53 n(3) by linarith
    then have "a = 2 ^ 53" using n(1) a(2) by simp
    then have "k = 2 ^ 53 \<or> k = - (2 ^ 53)" unfolding a_def by linarith
    then obtain j where j: "k = 2 * j" by auto
    have u': "u = 2"
      using n54 u by (simp add: pow2_def)
    have "real_of_int k / 2 = of_int j" using j by simp
    then show ?thesis
      unfolding u' using j by (simp add: round_half_even_of_int)
  qed
  have "real_of_int k \<noteq> 0" using False by simp
  then show ?thesis
    unfolding fl_def Let_def u_def [symmetric] r using md by simp
qed

text \<open>
  The same as an equation for evaluation: a whole number up to \<open>2 ^ 53\<close> is its own
  rounding, and every other number is rounded as defined.
\<close>

lemma fl_whole [code]:
  "fl x =
     (if of_int \<lfloor>x\<rfloor> = x \<and> \<bar>\<lfloor>x\<rfloor>\<bar> \<le> 9007199254740992 then Some x
      else if x = 0 then Some 0
      else
        let u = pow2 (max (binary_exponent x) (- 1022) - 52);
            r = of_int (round_half_even (x / u)) * u
        in if \<bar>r\<bar> \<le> max_double then Some r else None)"
proof (cases "of_int \<lfloor>x\<rfloor> = x \<and> \<bar>\<lfloor>x\<rfloor>\<bar> \<le> 9007199254740992")
  case True
  then have "fl (of_int \<lfloor>x\<rfloor>) = Some (of_int \<lfloor>x\<rfloor>)"
    by (intro fl_of_int) simp
  then show ?thesis using True by simp
next
  case False
  show ?thesis
    by (subst if_not_P [OF False]) (simp only: fl_def)
qed

section \<open>The free-text classifier: priority of the keyword tiers\<close>

text \<open>
  Claim C2. A label that contains a vacation keyword and a school keyword, in any mix of
  upper and lower case, is classified as vacation and never as school. More generally the
  tiers are tried in the strict order vacation, school, unavailable, available: a tier
  decides the status exactly when no earlier tier occurs in the label.
\<close>

theorem classifier_priority:
  "(mentions label vacation_keywords \<and> mentions label school_keywords \<longrightarrow>
      detectStatusFromSummary label = Vacation \<and> detectStatusFromSummary label \<noteq> School) \<and>
   (mentions label vacation_keywords \<longrightarrow> detectStatusFromSummary label = Vacation) \<and>
   (\<not> mentions label vacation_keywords \<and> mentions label school_keywords \<longrightarrow>
      detectStatusFromSummary label = School) \<and>
   (\<not> mentions label vacation_keywords \<and> \<not> mentions label school_keywords \<and>
    mentions label unavailable_keywords \<longrightarrow> detectStatusFromSummary label = Unavailable) \<and>
   (\<not> mentions label vacation_keywords \<and> \<not> mentions label school_keywords \<and>
    \<not> mentions label unavailable_keywords \<and> mentions label available_keywords \<longrightarrow>
      detectStatusFromSummary label = Available)"
  by (simp add: mentions_code detectStatusFromSummary_def Let_def vacation_keywords_def
      school_keywords_def unavailable_keywords_def available_keywords_def)

theorem classifier_priority_witness:
  "mentions (''VACANCES - Cours annul'' @ [e_acute] @ ''s'') vacation_keywords \<and>
   mentions (''VACANCES - Cours annul'' @ [e_acute] @ ''s'') school_keywords \<and>
   detectStatusFromSummary (''VACANCES - Cours annul'' @ [e_acute] @ ''s'') = Vacation"
proof -
  have v: "mentions (''VACANCES - Cours annul'' @ [e_acute] @ ''s'') vacation_keywords"
    by (simp add: mentions_code vacation_keywords_def toLowerCase_def e_acute_def)
  have s: "mentions (''VACANCES - Cours annul'' @ [e_acute] @ ''s'') school_keywords"
    by (simp add: mentions_code school_keywords_def toLowerCase_def e_acute_def)
  show ?thesis
    using classifier_priority [of "''VACANCES - Cours annul'' @ [e_acute] @ ''s''"] v s
    by blast
qed

section \<open>The invariant of every parse result\<close>

lemma failure_invariant: "result_invariant (failure es)"
  by (simp add: result_invariant_def failure_def)

lemma weekly_invariant:
  "result_invariant (parseWeeklyCalendarFormat h ws columnMap dataStartRow member extract)"
  by (simp add: parseWeeklyCalendarFormat_def Let_def failure_invariant split: option.splits)
    (simp_all add: result_invariant_def)

lemma excel_invariant: "result_invariant (parseExcelFile h f member)"
  by (simp add: parseExcelFile_def Let_def failure_invariant weekly_invariant
      split: read_result.splits sum.splits list.splits prod.splits)
    (simp_all add: result_invariant_def)

lemma csv_invariant: "result_invariant (parseCSVFile h f member)"
  by (simp add: parseCSVFile_def Let_def failure_invariant split: read_result.splits)
    (simp_all add: result_invariant_def)

lemma ics_invariant: "result_invariant (parseICSFile h f member)"
  by (simp add: parseICSFile_def Let_def failure_invariant
      split: read_result.splits ical_outcome.splits)
    (simp_all add: result_invariant_def)

text \<open>
  Claim C1. For every host, file and subject identifier, the result of the facade and of
  each format-specific parser satisfies: success implies at least one event, and a
  non-empty list of errors implies no success.
\<close>

theorem parse_result_invariant:
  "result_invariant (parseCalendarFile h f member) \<and>
   result_invariant (parseICSFile h f member) \<and>
   result_invariant (parseExcelFile h f member) \<and>
   result_invariant (parseCSVFile h f member)"
  by (simp add: parseCalendarFile_def Let_def failure_invariant ics_invariant
      excel_invariant csv_invariant)

theorem parse_result_invariant_witness:
  "success (parseCalendarFile sample_host (sample_file ''planning.ICS'' ''BEGIN:VCALENDAR'') ''m1'') \<and>
   events (parseCalendarFile sample_host (sample_file ''planning.ICS'' ''BEGIN:VCALENDAR'') ''m1'') \<noteq> [] \<and>
   errors (parseCalendarFile sample_host (sample_file ''notes.txt'' ''x'') ''m1'') \<noteq> None \<and>
   errors (parseCalendarFile sample_host (sample_file ''notes.txt'' ''x'') ''m1'') \<noteq> Some [] \<and>
   \<not> success (parseCalendarFile sample_host (sample_file ''notes.txt'' ''x'') ''m1'')"
proof -
  let ?ok = "parseCalendarFile sample_host (sample_file ''planning.ICS'' ''BEGIN:VCALENDAR'') ''m1''"
  let ?ko = "parseCalendarFile sample_host (sample_file ''notes.txt'' ''x'') ''m1''"
  have s: "success ?ok"
    by code_simp
  have e: "errors ?ko \<noteq> None" "errors ?ko \<noteq> Some []"
    by code_simp+
  then have e': "\<exists>es. errors ?ko = Some es \<and> es \<noteq> []"
    by (cases "errors ?ko") auto
  have "result_invariant ?ok" "result_invariant ?ko"
    using parse_result_invariant by blast+
  then show ?thesis
    using s e e' unfolding result_invariant_def by auto
qed

section \<open>The calendar arithmetic\<close>

text \<open>
  The year computed for a day number is the one the standard defines, the largest year
  that starts on or before the day; a year has 366 days when it is a leap year and 365
  otherwise; the day of the month lies between 1 and 31, and February 1900 has 28 days.
\<close>

lemma div_bounds:
  fixes x n :: int
  assumes "0 < n"
  shows "n * (x div n) \<le> x" "x < n * (x div n) + n"
proof -
  have "x = n * (x div n) + x mod n" by simp
  moreover have "0 \<le> x mod n" "x mod n < n" using assms by simp_all
  ultimately show "n * (x div n) \<le> x" "x < n * (x div n) + n" by linarith+
qed

lemma DayFromYear_estimate:
  "146097 * y - 287811596 \<le> 400 * DayFromYear y"
  "400 * DayFromYear y \<le> 146097 * y - 287810501"
proof -
  define a where "a = (y - 1969) div 4"
  define b where "b = (y - 1901) div 100"
  define c where "c = (y - 1601) div 400"
  have a: "4 * a \<le> y - 1969" "y - 1969 < 4 * a + 4"
    unfolding a_def by (rule div_bounds, simp)+
  have b: "100 * b \<le> y - 1901" "y - 1901 < 100 * b + 100"
    unfolding b_def by (rule div_bounds, simp)+
  have c: "400 * c \<le> y - 1601" "y - 1601 < 400 * c + 400"
    unfolding c_def by (rule div_bounds, simp)+
  have e: "400 * DayFromYear y = 146000 * y - 287620000 + 400 * a - 400 * b + 400 * c"
    unfolding DayFromYear_def a_def b_def c_def by (simp add: algebra_simps)
  show "146097 * y - 287811596 \<le> 400 * DayFromYear y"
    using a b c unfolding e by linarith
  show "400 * DayFromYear y \<le> 146097 * y - 287810501"
    using a b c unfolding e by linarith
qed

lemma YearFromDay_bounds:
  "DayFromYear (YearFromDay d) \<le> d \<and> d < DayFromYear (YearFromDay d + 1)"
proof -
  define q where "q = (d * 400) div 146097"
  have q: "146097 * q \<le> d * 400" "d * 400 < 146097 * q + 146097"
    unfolding q_def by (rule div_bounds, simp)+
  have "400 * DayFromYear (1969 + q) \<le> 146097 * (1969 + q) - 287810501"
    by (rule DayFromYear_estimate)
  then have lo: "DayFromYear (1969 + q) \<le> d"
    using q by (simp add: algebra_simps)
  have "146097 * (1972 + q) - 287811596 \<le> 400 * DayFromYear (1972 + q)"
    by (rule DayFromYear_estimate)
  then have hi: "d < DayFromYear (1972 + q)"
    using q by (simp add: algebra_simps)
  have s: "1970 + q - 1 = 1969 + q" "1970 + q + 1 + 1 = 1972 + q"
    by simp_all
  show ?thesis
    using lo hi unfolding YearFromDay_def q_def [symmetric] Let_def
    by (auto simp: s)
qed

lemma DayFromYear_Suc: "DayFromYear y < DayFromYear (y + 1)"
proof -
  define a where "a = (y - 1969) div 4"
  define a' where "a' = (y + 1 - 1969) div 4"
  define b where "b = (y - 1901) div 100"
  define b' where "b' = (y + 1 - 1901) div 100"
  define c where "c = (y - 1601) div 400"
  define c' where "c' = (y + 1 - 1601) div 400"
  have a: "a \<le> a'" "c \<le> c'"
    unfolding a_def a'_def c_def c'_def by (simp_all add: zdiv_mono1)
  have b: "100 * b \<le> y - 1901" "y - 1901 < 100 * b + 100"
    unfolding b_def by (rule div_bounds, simp)+
  have c: "100 * b' \<le> y + 1 - 1901" "y + 1 - 1901 < 100 * b' + 100"
    unfolding b'_def by (rule div_bounds, simp)+
  have "b' \<le> b + 1"
    using b c by linarith
  moreover have "DayFromYear y = 365 * y - 719050 + a - b + c"
    unfolding DayFromYear_def a_def b_def c_def by simp
  moreover have "DayFromYear (y + 1) = 365 * y - 718685 + a' - b' + c'"
    unfolding DayFromYear_def a'_def b'_def c'_def by simp
  ultimately show ?thesis
    using a by linarith
qed

lemma DayFromYear_mono: "y \<le> z \<Longrightarrow> DayFromYear y \<le> DayFromYear z"
proof (induction "nat (z - y)" arbitrary: z)
  case 0
  then show ?case by simp
next
  case (Suc n)
  then have "n = nat (z - 1 - y)" "y \<le> z - 1"
    by linarith+
  then have "DayFromYear y \<le> DayFromYear (z - 1)"
    using Suc.hyps(1) by blast
  then show ?case
    using DayFromYear_Suc [of "z - 1"] by simp
qed

text \<open>The year of a day is the largest year that starts on or before it.\<close>

lemma YearFromDay_greatest:
  "DayFromYear y \<le> d \<longleftrightarrow> y \<le> YearFromDay d"
proof
  assume "DayFromYear y \<le> d"
  show "y \<le> YearFromDay d"
  proof (rule ccontr)
    assume "\<not> y \<le> YearFromDay d"
    then have "YearFromDay d + 1 \<le> y" by simp
    then have "DayFromYear (YearFromDay d + 1) \<le> DayFromYear y"
      by (rule DayFromYear_mono)
    then show False
      using YearFromDay_bounds [of d] \<open>DayFromYear y \<le> d\<close> by linarith
  qed
next
  assume "y \<le> YearFromDay d"
  then have "DayFromYear y \<le> DayFromYear (YearFromDay d)"
    by (rule DayFromYear_mono)
  then show "DayFromYear y \<le> d"
    using YearFromDay_bounds [of d] by linarith
qed

lemma div_succ:
  fixes x n :: int
  assumes "0 < n"
  shows "(x + 1) div n = x div n + (if (x + 1) mod n = 0 then 1 else 0)"
proof (cases "x mod n + 1 < n")
  case True
  have e: "x + 1 = n * (x div n) + (x mod n + 1)" by simp
  have "0 \<le> x mod n + 1" using assms by (simp add: add_nonneg_nonneg)
  then have "(x + 1) div n = x div n" "(x + 1) mod n = x mod n + 1"
    using True e int_div_pos_eq [of "x + 1" n "x div n" "x mod n + 1"]
      int_mod_pos_eq [of "x + 1" n "x div n" "x mod n + 1"] by simp_all
  moreover have "x mod n + 1 \<noteq> 0"
    using assms pos_mod_sign [of n x] by linarith
  ultimately show ?thesis by simp
next
  case False
  have "x mod n < n" using assms by simp
  then have r: "x mod n + 1 = n" using False by linarith
  have "x + 1 = n * (x div n) + (x mod n + 1)" by simp
  then have e: "x + 1 = n * (x div n + 1) + 0" 
    unfolding r by (simp add: algebra_simps)
  have "(x + 1) div n = x div n + 1" "(x + 1) mod n = 0"
    using e assms int_div_pos_eq [of "x + 1" n "x div n + 1" 0]
      int_mod_pos_eq [of "x + 1" n "x div n + 1" 0] by simp_all
  then show ?thesis by simp
qed

lemma shift_mod: "((y::int) - k * n) mod n = y mod n"
  by (metis mod_mult_self2 diff_add_cancel mult.commute)

lemma step4: "((y::int) + 1 - 1969) div 4 = (y - 1969) div 4 + (if y mod 4 = 0 then 1 else 0)"
proof -
  have "(y - 1969 + 1) mod 4 = (y - 492 * 4) mod 4" by simp
  then have "(y - 1969 + 1) mod 4 = y mod 4" by (simp only: shift_mod)
  then show ?thesis
    using div_succ [of 4 "y - 1969"] by (simp add: algebra_simps)
qed

lemma step100: "((y::int) + 1 - 1901) div 100 = (y - 1901) div 100 + (if y mod 100 = 0 then 1 else 0)"
proof -
  have "(y - 1901 + 1) mod 100 = (y - 19 * 100) mod 100" by simp
  then have "(y - 1901 + 1) mod 100 = y mod 100" by (simp only: shift_mod)
  then show ?thesis
    using div_succ [of 100 "y - 1901"] by (simp add: algebra_simps)
qed

lemma step400: "((y::int) + 1 - 1601) div 400 = (y - 1601) div 400 + (if y mod 400 = 0 then 1 else 0)"
proof -
  have "(y - 1601 + 1) mod 400 = (y - 4 * 400) mod 400" by simp
  then have "(y - 1601 + 1) mod 400 = y mod 400" by (simp only: shift_mod)
  then show ?thesis
    using div_succ [of 400 "y - 1601"] by (simp add: algebra_simps)
qed

lemma mod_chain:
  fixes y :: int
  shows "y mod 400 = 0 \<Longrightarrow> y mod 100 = 0" "y mod 100 = 0 \<Longrightarrow> y mod 4 = 0"
proof -
  assume "y mod 400 = 0"
  then have "400 dvd y" by (simp add: mod_eq_0_iff_dvd)
  moreover have "(100::int) dvd 400" by simp
  ultimately have "100 dvd y" using dvd_trans by blast
  then show "y mod 100 = 0" by (simp add: mod_eq_0_iff_dvd)
next
  assume "y mod 100 = 0"
  then have "100 dvd y" by (simp add: mod_eq_0_iff_dvd)
  moreover have "(4::int) dvd 100" by simp
  ultimately have "4 dvd y" using dvd_trans by blast
  then show "y mod 4 = 0" by (simp add: mod_eq_0_iff_dvd)
qed

lemma DayFromYear_diff:
  "DayFromYear (y + 1) = DayFromYear y + (if InLeapYear y then 366 else 365)"
proof -
  define A where "A = (y - 1969) div 4"
  define B where "B = (y - 1901) div 100"
  define C where "C = (y - 1601) div 400"
  define p4 where "p4 = (y mod 4 = 0)"
  define p100 where "p100 = (y mod 100 = 0)"
  define p400 where "p400 = (y mod 400 = 0)"
  have e: "DayFromYear y = 365 * y - 719050 + A - B + C"
    unfolding DayFromYear_def A_def [symmetric] B_def [symmetric] C_def [symmetric] by simp
  have e': "DayFromYear (y + 1) = 365 * y - 718685 + (A + (if p4 then 1 else 0))
      - (B + (if p100 then 1 else 0)) + (C + (if p400 then 1 else 0))"
    unfolding DayFromYear_def step4 step100 step400 A_def [symmetric] B_def [symmetric]
      C_def [symmetric] p4_def [symmetric] p100_def [symmetric] p400_def [symmetric] by simp
  have l: "InLeapYear y = (p4 \<and> (\<not> p100 \<or> p400))"
    unfolding InLeapYear_def p4_def p100_def p400_def by simp
  have c: "p400 \<longrightarrow> p100" "p100 \<longrightarrow> p4"
    unfolding p4_def p100_def p400_def using mod_chain [of y] by blast+
  show ?thesis
    unfolding e e' l using c by (cases p4; cases p100; cases p400) simp_all
qed

lemma DayWithinYear_range:
  "0 \<le> DayWithinYear d \<and>
   DayWithinYear d < (if InLeapYear (YearFromDay d) then 366 else 365)"
  using YearFromDay_bounds [of d] DayFromYear_diff [of "YearFromDay d"]
  by (simp add: DayWithinYear_def split: if_splits)

lemma MonthFromDay_start:
  "monthStart (InLeapYear (YearFromDay d)) (MonthFromDay d) \<le> DayWithinYear d"
  using DayWithinYear_range [of d]
  by (simp add: MonthFromDay_def monthStart_def Let_def)

lemma DateFromDay_range: "1 \<le> DateFromDay d \<and> DateFromDay d \<le> 31"
proof -
  define w where "w = DayWithinYear d"
  define leap where "leap = InLeapYear (YearFromDay d)"
  have w: "0 \<le> w" "w < (if leap then 366 else 365)"
    using DayWithinYear_range [of d] by (simp_all add: w_def leap_def)
  show ?thesis
    unfolding DateFromDay_def MonthFromDay_def Let_def w_def [symmetric] leap_def [symmetric]
    using w by (cases leap) (simp_all add: monthStart_def)
qed

text \<open>In the year 1900 February has 28 days.\<close>

lemma february_1900:
  assumes "YearFromDay d = 1900" "MonthFromDay d = 1"
  shows "DateFromDay d \<le> 28"
proof -
  define w where "w = DayWithinYear d"
  have l: "InLeapYear 1900 = False"
    by (simp add: InLeapYear_def)
  have "MonthFromDay d = 1 \<longrightarrow> w < 59"
    unfolding MonthFromDay_def Let_def assms(1) l w_def [symmetric]
    by (simp add: monthStart_def)
  then show ?thesis
    using assms unfolding DateFromDay_def w_def [symmetric] l
    by (simp add: monthStart_def)
qed

lemma no_29_february_1900: "calendar_day h d \<noteq> Some (1900, 2, 29)"
proof (cases d)
  case Invalid_Date
  then show ?thesis by (simp add: calendar_day_def)
next
  case (Date_at t)
  show ?thesis
  proof
    assume "calendar_day h d = Some (1900, 2, 29)"
    then have "YearFromDay (Day (LocalTime h t)) = 1900" "MonthFromDay (Day (LocalTime h t)) = 1"
      "DateFromDay (Day (LocalTime h t)) = 29"
      using Date_at by (simp_all add: calendar_day_def)
    then show False
      using february_1900 [of "Day (LocalTime h t)"] by simp
  qed
qed

section \<open>Decoding spreadsheet serial dates\<close>

lemma to_integer_of_int: "to_integer (of_int k) = k"
  by (simp add: to_integer_def)

lemma timeClipNumber_of_int: "timeClipNumber (of_int k) = timeClip k"
proof -
  have "(\<bar>real_of_int k\<bar> \<le> of_int maxTime) = (\<bar>k\<bar> \<le> maxTime)"
    by linarith
  then show ?thesis
    by (simp add: timeClipNumber_def timeClip_def to_integer_of_int)
qed

lemma excel_epoch_day_value: "excel_epoch_day = - 25569"
  by (simp add: excel_epoch_day_def MakeDay_def DayFromYear_def InLeapYear_def monthStart_def
      Let_def)

lemma excel_epoch:
  "new_Date h (Some 1899) (Some 11) (Some 30) = timeClip (serial_instant h 0)"
  by (simp add: new_Date_def to_integer_def UTC_def serial_instant_def epoch_offset_def
      excel_epoch_day_def Let_def)

text \<open>
  On a whole serial the arithmetic of the decoder is exact, and the result is the Date of
  the instant of that serial.
\<close>

lemma excelDateToJSDate_of_int:
  assumes "\<bar>epoch_offset h\<bar> \<le> msPerDay" "\<bar>n\<bar> \<le> 99900000"
  shows "excelDateToJSDate h (of_int n) = Date_at (serial_instant h n)"
proof -
  define off where "off = epoch_offset h"
  have off: "- 86400000 \<le> off" "off \<le> 86400000"
    using assms(1) by (simp_all add: off_def msPerDay_def abs_le_iff)
  have s0: "serial_instant h 0 = - 2209161600000 - off"
    by (simp add: serial_instant_def excel_epoch_day_value MakeDate_def MakeTime_def
        msPerDay_def off_def)
  have sn: "serial_instant h n = n * 86400000 - 2209161600000 - off"
    by (simp add: serial_instant_def excel_epoch_day_value MakeDate_def MakeTime_def
        msPerDay_def off_def algebra_simps)
  have e: "new_Date h (Some 1899) (Some 11) (Some 30) = Date_at (serial_instant h 0)"
    using off by (simp add: excel_epoch timeClip_def s0 maxTime_def abs_le_iff)
  have "\<bar>n * 86400000\<bar> \<le> 2 ^ 53"
    using assms(2) by (simp add: abs_le_iff)
  then have "fl (of_int (n * 86400000)) = Some (of_int (n * 86400000))"
    by (rule fl_of_int)
  then have m: "num_mult (Some (of_int n)) (Some 86400000) = Some (of_int (n * 86400000))"
    by (simp add: num_mult_def)
  have "\<bar>serial_instant h 0 + n * 86400000\<bar> \<le> 2 ^ 53"
    using assms(2) off by (simp add: s0 abs_le_iff)
  then have "fl (of_int (serial_instant h 0 + n * 86400000)) =
      Some (of_int (serial_instant h 0 + n * 86400000))"
    by (rule fl_of_int)
  moreover have "serial_instant h 0 + n * 86400000 = serial_instant h n"
    by (simp add: s0 sn)
  ultimately have "fl (real_of_int (serial_instant h 0) + real_of_int (n * 86400000)) =
      Some (of_int (serial_instant h n))"
    by (metis of_int_add)
  then have a: "num_add (Some (of_int (serial_instant h 0))) (Some (of_int (n * 86400000))) =
      Some (of_int (serial_instant h n))"
    by (simp add: num_add_def del: of_int_add of_int_mult of_int_diff)
  have "\<bar>serial_instant h n\<bar> \<le> maxTime"
    using assms(2) off by (simp add: sn maxTime_def abs_le_iff)
  then show ?thesis
    by (simp add: excelDateToJSDate_def e getTime_def m a date_of_number_def
        timeClipNumber_of_int timeClip_def Let_def
        del: of_int_add of_int_mult of_int_diff)
qed

lemma calendar_day_Date_at:
  "calendar_day h (Date_at t) = Some (civil_day (Day (LocalTime h t)))"
  by (simp add: calendar_day_def civil_day_def)

lemma Day_serial_instant:
  assumes "reads_like_epoch h n"
  shows "Day (LocalTime h (serial_instant h n)) = excel_epoch_day + n"
proof -
  define d where "d = localTZA h (serial_instant h n) True - epoch_offset h"
  have d: "0 \<le> d" "d < msPerDay"
    using assms by (simp_all add: reads_like_epoch_def d_def)
  have "LocalTime h (serial_instant h n) = (excel_epoch_day + n) * msPerDay + d"
    by (simp add: LocalTime_def d_def serial_instant_def MakeDate_def MakeTime_def)
  moreover have "((excel_epoch_day + n) * msPerDay + d) div msPerDay = excel_epoch_day + n"
    using d by (simp add: msPerDay_def div_pos_pos_trivial)
  ultimately show ?thesis
    by (simp add: Day_def)
qed

lemma civil_days_1900:
  "civil_day excel_epoch_day = (1899, 12, 30)"
  "civil_day (excel_epoch_day + 1) = (1899, 12, 31)"
  "civil_day (excel_epoch_day + 60) = (1900, 2, 28)"
  "civil_day (excel_epoch_day + 61) = (1900, 3, 1)"
  by code_simp+

lemma never_29_february_1900:
  "calendar_day h (excelDateToJSDate h x) \<noteq> Some (1900, 2, 29)"
  by (rule no_29_february_1900)

text \<open>
  Claim C3, as the code has it. The decoder adds the serial times the milliseconds of a
  day to local midnight of 30 December 1899. For a whole serial \<open>n\<close>, up to 99 900 000 in
  absolute value, with the epoch read at an offset of at most a day, in a zone that reads
  the resulting instant like the epoch, the result shows the Gregorian calendar day \<open>n\<close>
  days after 30 December 1899. That day is 31 December 1899 for serial 1, 28 February 1900
  for serial 60 and 1 March 1900 for serial 61. No serial, whole or not, in any zone,
  decodes to 29 February 1900: the decoder counts days in the Gregorian calendar, in which
  1900 has no such day.
\<close>

theorem excel_serial_calendar_days:
  assumes "\<bar>n\<bar> \<le> 99900000"
    and "\<bar>epoch_offset h\<bar> \<le> msPerDay"
    and "reads_like_epoch h n"
  shows "calendar_day h (excelDateToJSDate h (of_int n)) = Some (civil_day (excel_epoch_day + n)) \<and>
         civil_day excel_epoch_day = (1899, 12, 30) \<and>
         civil_day (excel_epoch_day + 1) = (1899, 12, 31) \<and>
         civil_day (excel_epoch_day + 60) = (1900, 2, 28) \<and>
         civil_day (excel_epoch_day + 61) = (1900, 3, 1) \<and>
         (\<forall>x h'. calendar_day h' (excelDateToJSDate h' x) \<noteq> Some (1900, 2, 29))"
proof -
  have "calendar_day h (excelDateToJSDate h (of_int n)) = Some (civil_day (excel_epoch_day + n))"
    using assms by (simp add: excelDateToJSDate_of_int calendar_day_Date_at Day_serial_instant)
  then show ?thesis
    using civil_days_1900 never_29_february_1900 by simp
qed

lemma sample_host_zone:
  "\<bar>epoch_offset sample_host\<bar> \<le> msPerDay" "reads_like_epoch sample_host n"
  by (simp_all add: epoch_offset_def reads_like_epoch_def sample_host_def msPerDay_def)

theorem excel_serial_calendar_days_witness:
  "\<bar>60\<bar> \<le> (99900000::int) \<and> \<bar>epoch_offset sample_host\<bar> \<le> msPerDay \<and>
   reads_like_epoch sample_host 60 \<and>
   calendar_day sample_host (excelDateToJSDate sample_host 60) = Some (1900, 2, 28) \<and>
   calendar_day sample_host (excelDateToJSDate sample_host 1) = Some (1899, 12, 31) \<and>
   calendar_day sample_host (excelDateToJSDate sample_host 61) = Some (1900, 3, 1)"
  using excel_serial_calendar_days [where n = 60 and h = sample_host, OF _ sample_host_zone]
    excel_serial_calendar_days [where n = 1 and h = sample_host, OF _ sample_host_zone]
    excel_serial_calendar_days [where n = 61 and h = sample_host, OF _ sample_host_zone]
    sample_host_zone(1) sample_host_zone(2) [of 60]
  by simp

text \<open>
  The claim as stated fails at serial 60: the decoded day is 28 February 1900, not the
  29 February of the spreadsheet convention.
\<close>

theorem excel_serial_60_counterexample:
  "calendar_day sample_host (excelDateToJSDate sample_host 60) = Some (1900, 2, 28) \<and>
   calendar_day sample_host (excelDateToJSDate sample_host 60) \<noteq> Some (1900, 2, 29)"
proof -
  have "\<bar>60\<bar> \<le> (99900000::int)" by simp
  then have "excelDateToJSDate sample_host (of_int 60) = Date_at (serial_instant sample_host 60)"
    using sample_host_zone(1) by (intro excelDateToJSDate_of_int) simp_all
  then have "calendar_day sample_host (excelDateToJSDate sample_host 60) =
      Some (civil_day (excel_epoch_day + 60))"
    using sample_host_zone(2) [of 60] by (simp add: calendar_day_Date_at Day_serial_instant)
  then show ?thesis
    by (simp add: civil_days_1900)
qed

section \<open>The status of a weekday cell\<close>

lemma weekly_cell_status_cases:
  "weekly_cell_status c =
     (if c = ''7'' \<or> c = ''7.00'' then School
      else if mentions c holiday_keywords then Vacation
      else if mentions c [''disponible''] then Available
      else Company)"
proof -
  have "str_includes (toLowerCase c) ''indisponible'' \<Longrightarrow> str_includes (toLowerCase c) ''disponible''"
    unfolding str_includes_sublist
    by (rule sublist_order.order.trans [of _ "''indisponible''"]) (simp_all add: sublist_Cons_right)
  then show ?thesis
    by (auto simp: weekly_cell_status_def mentions_code holiday_keywords_def)
qed

text \<open>
  Claim C4, as the code has it. A weekday cell that is not the school code, names no
  holiday, vacation or exam, and contains \<^verbatim>\<open>disponible\<close> without \<^verbatim>\<open>indisponible\<close> (in any
  case of the letters) is available. Nothing is stated here about cells that contain
  \<^verbatim>\<open>indisponible\<close>.
\<close>

theorem weekly_cell_available:
  "c \<noteq> ''7'' \<and> c \<noteq> ''7.00'' \<and> \<not> mentions c holiday_keywords \<and>
   mentions c [''disponible''] \<and> \<not> mentions c [''indisponible'']
   \<longrightarrow> weekly_cell_status c = Available"
  by (simp add: weekly_cell_status_cases)

theorem weekly_cell_available_witness:
  "''Disponible'' \<noteq> ''7'' \<and> ''Disponible'' \<noteq> ''7.00'' \<and>
   \<not> mentions ''Disponible'' holiday_keywords \<and>
   mentions ''Disponible'' [''disponible''] \<and> \<not> mentions ''Disponible'' [''indisponible''] \<and>
   weekly_cell_status ''Disponible'' = Available"
proof -
  have a: "\<not> mentions ''Disponible'' holiday_keywords"
    by (simp add: mentions_code holiday_keywords_def toLowerCase_def e_acute_def)
  have b: "mentions ''Disponible'' [''disponible'']"
    by (simp add: mentions_code toLowerCase_def)
  have c: "\<not> mentions ''Disponible'' [''indisponible'']"
    by (simp add: mentions_code toLowerCase_def)
  show ?thesis
    using weekly_cell_available [of "''Disponible''"] a b c by simp
qed

text \<open>
  The claim as stated fails twice. A cell that contains \<^verbatim>\<open>disponible\<close> and not
  \<^verbatim>\<open>indisponible\<close> is a vacation when it also names an exam, since the holiday tests come
  first. A cell that contains \<^verbatim>\<open>indisponible\<close> is available, not unavailable: the test
  for \<^verbatim>\<open>disponible\<close> stands before the test for \<^verbatim>\<open>indisponible\<close> and matches every such cell.
\<close>

theorem weekly_cell_counterexample:
  "mentions ''Disponible (exam)'' [''disponible''] \<and>
   \<not> mentions ''Disponible (exam)'' [''indisponible''] \<and>
   weekly_cell_status ''Disponible (exam)'' = Vacation \<and>
   mentions ''Indisponible'' [''indisponible''] \<and>
   weekly_cell_status ''Indisponible'' = Available"
  by (simp add: mentions_code toLowerCase_def weekly_cell_status_def e_acute_def)

section \<open>Files the facade rejects\<close>

text \<open>
  Claim C6, as the code has it. A file whose extension is not empty and is none of ics,
  xlsx, xls, csv (compared in lower case) gets the failure result whose two messages
  name the extension and the supported set. A file whose name ends with a dot or is
  empty has an empty extension and gets the failure result with the single message that
  the format cannot be determined. Both results are fixed by the file name alone: the
  host's libraries and the payload play no part.
\<close>

theorem unsupported_extension_rejected:
  "(extension_of (file_name f) \<notin> {[], ''ics'', ''xlsx'', ''xls'', ''csv''} \<longrightarrow>
      parseCalendarFile h f member =
        \<lparr>success = False, events = [],
         errors = Some [''Format de fichier non support'' @ [e_acute] @ '': .'' @
                          extension_of (file_name f),
                        ''Formats support'' @ [e_acute] @ ''s: .ics, .xlsx, .xls, .csv''],
         warnings = None\<rparr>) \<and>
   (extension_of (file_name f) = [] \<longrightarrow>
      parseCalendarFile h f member =
        \<lparr>success = False, events = [],
         errors = Some [''Impossible de d'' @ [e_acute] @ ''terminer le format du fichier''],
         warnings = None\<rparr>)"
  by (simp add: parseCalendarFile_def Let_def failure_def)

lemma extension_notes_TXT: "extension_of ''notes.TXT'' = ''txt''"
  by (simp add: extension_of_def toLowerCase_def)

lemma extension_trailing_dot: "extension_of ''planning.'' = []"
  by (simp add: extension_of_def toLowerCase_def)

theorem unsupported_extension_rejected_witness:
  "extension_of ''notes.TXT'' \<notin> {[], ''ics'', ''xlsx'', ''xls'', ''csv''} \<and>
   parseCalendarFile sample_host (sample_file ''notes.TXT'' ''x'') ''m1'' =
     \<lparr>success = False, events = [],
      errors = Some [''Format de fichier non support'' @ [e_acute] @ '': .txt'',
                     ''Formats support'' @ [e_acute] @ ''s: .ics, .xlsx, .xls, .csv''],
      warnings = None\<rparr> \<and>
   extension_of ''planning.'' = [] \<and>
   parseCalendarFile sample_host (sample_file ''planning.'' ''x'') ''m1'' =
     \<lparr>success = False, events = [],
      errors = Some [''Impossible de d'' @ [e_acute] @ ''terminer le format du fichier''],
      warnings = None\<rparr>"
  using unsupported_extension_rejected [of "sample_file ''notes.TXT'' ''x''" sample_host "''m1''"]
    unsupported_extension_rejected [of "sample_file ''planning.'' ''x''" sample_host "''m1''"]
  by (simp add: sample_file_def extension_notes_TXT extension_trailing_dot)

text \<open>
  The claim as stated fails for a name that ends with a dot: its extension is none of the
  four, and the error does not name the supported set.
\<close>

theorem unsupported_extension_counterexample:
  "extension_of ''planning.'' \<notin> {''ics'', ''xlsx'', ''xls'', ''csv''} \<and>
   errors (parseCalendarFile sample_host (sample_file ''planning.'' ''x'') ''m1'') =
     Some [''Impossible de d'' @ [e_acute] @ ''terminer le format du fichier''] \<and>
   ''Formats support'' @ [e_acute] @ ''s: .ics, .xlsx, .xls, .csv'' \<notin>
     set (the (errors (parseCalendarFile sample_host (sample_file ''planning.'' ''x'') ''m1'')))"
  by (simp add: parseCalendarFile_def Let_def failure_def sample_file_def
      extension_trailing_dot)

section \<open>What every emitted event satisfies\<close>

lemma ps_push [simp]:
  "ps_events (push_warning w st) = ps_events st"
  "ps_warnings (push_warning w st) = ps_warnings st @ [w]"
  "ps_events (push_event e st) = ps_events st @ [e]"
  "ps_warnings (push_event e st) = ps_warnings st"
  by (simp_all add: push_warning_def push_event_def)

lemma failure_events [simp]: "events (failure es) = []"
  by (simp add: failure_def)

lemma empty_state_events [simp]: "ps_events empty_state = []"
  by (simp add: empty_state_def)

lemma MonthFromDay_range: "0 \<le> MonthFromDay d \<and> MonthFromDay d \<le> 11"
  by (simp add: MonthFromDay_def Let_def)

lemma MakeDay_of_day:
  "MakeDay (YearFromDay d) (MonthFromDay d) (DateFromDay d + k) = d + k"
proof -
  have "MonthFromDay d div 12 = 0" "MonthFromDay d mod 12 = MonthFromDay d"
    using MonthFromDay_range [of d] by simp_all
  then show ?thesis
    by (simp add: MakeDay_def DateFromDay_def DayWithinYear_def Let_def)
qed

lemma startOfDay_Date_at: "startOfDay h (Date_at t) = timeClip (UTC h (day_start h t))"
  by (simp add: startOfDay_def day_start_def)

lemma endOfDay_Date_at: "endOfDay h (Date_at t) = timeClip (UTC h (day_end h t))"
  by (simp add: endOfDay_def day_end_def)

lemma day_start_time: "TimeWithinDay (day_start h t) = 0"
  by (simp add: day_start_def MakeDate_def MakeTime_def TimeWithinDay_def)

lemma day_end_time: "TimeWithinDay (day_end h t) = msPerDay - 1"
  by (simp add: day_end_def MakeDate_def MakeTime_def TimeWithinDay_def msPerDay_def)

lemma timeClip_valid: "timeClip x \<noteq> Invalid_Date \<Longrightarrow> timeClip x = Date_at x"
  by (simp add: timeClip_def split: if_splits)

lemma timeClip_range: "timeClip x = Date_at t \<Longrightarrow> \<bar>t\<bar> \<le> maxTime"
  by (simp add: timeClip_def split: if_splits)

text \<open>
  In a regular zone the instant of the end of the local day of a later instant is not
  before the instant of the start of the local day of an earlier one.
\<close>

lemma regular_zone_order:
  assumes "regular_zone h" "a \<le> b"
  shows "UTC h (day_start h a) \<le> UTC h (day_end h b)"
proof -
  have "Day (LocalTime h a) \<le> Day (LocalTime h b)"
    using assms by (simp add: regular_zone_def)
  then have "Day (LocalTime h a) * msPerDay \<le> Day (LocalTime h b) * msPerDay"
    by (simp add: msPerDay_def)
  moreover have "localTZA h (day_end h b) False - localTZA h (day_start h a) False < msPerDay"
    using assms(1) by (simp add: regular_zone_def)
  ultimately show ?thesis
    by (simp add: UTC_def day_start_def day_end_def MakeDate_def MakeTime_def msPerDay_def)
qed

text \<open>An event whose dates are the start and the end of the days of two valid dates.\<close>

lemma day_normalized_interval:
  assumes "startDate e = startOfDay h (Date_at a)" "endDate e = endOfDay h (Date_at b)"
    and "\<not> date_less (Date_at b) (Date_at a)"
  shows "day_normalized h e"
proof -
  have ab: "a \<le> b" using assms(3) by simp
  have s: "startDate e = timeClip (UTC h (day_start h a))"
    using assms(1) by (simp add: startOfDay_Date_at)
  have t: "endDate e = timeClip (UTC h (day_end h b))"
    using assms(2) by (simp add: endOfDay_Date_at)
  have 1: "startDate e \<noteq> Invalid_Date \<and> exists_locally h (day_start h a) \<longrightarrow>
      reads_as h (startDate e) (day_start h a) \<and> at_start_of_day h (startDate e)"
    using timeClip_valid [of "UTC h (day_start h a)"] day_start_time [of h a]
    by (auto simp: s exists_locally_def reads_as_def at_start_of_day_def)
  have 2: "endDate e \<noteq> Invalid_Date \<and> exists_locally h (day_end h b) \<longrightarrow>
      reads_as h (endDate e) (day_end h b) \<and> at_end_of_day h (endDate e)"
    using timeClip_valid [of "UTC h (day_end h b)"] day_end_time [of h b]
    by (auto simp: t exists_locally_def reads_as_def at_end_of_day_def)
  have 3: "regular_zone h \<and> startDate e \<noteq> Invalid_Date \<and> endDate e \<noteq> Invalid_Date \<longrightarrow>
      date_geq (endDate e) (startDate e)"
    using timeClip_valid [of "UTC h (day_start h a)"] timeClip_valid [of "UTC h (day_end h b)"]
      regular_zone_order [OF _ ab, of h]
    by (auto simp: s t)
  show ?thesis
    unfolding day_normalized_def using ab s t 1 2 3 by blast
qed

lemma day_normalized_dates:
  assumes "startDate e = startOfDay h s" "endDate e = endOfDay h t"
    and "s \<noteq> Invalid_Date" "t \<noteq> Invalid_Date" "\<not> date_less t s"
  shows "day_normalized h e"
proof -
  obtain a b where "s = Date_at a" "t = Date_at b"
    using assms(3,4) by (cases s; cases t) simp_all
  then show ?thesis
    using assms(1,2,5) day_normalized_interval [of e h a b] by simp
qed

text \<open>
  The date of a weekday cell is the Date of the instant so many local days after the
  anchor.
\<close>

lemma currentDate_of_Date_at:
  "currentDate_of h (Date_at t) (Offset k) = timeClip (add_days h t (int k))"
proof -
  have "(Day (LocalTime h t) + int k) * msPerDay + TimeWithinDay (LocalTime h t)
        = LocalTime h t + int k * msPerDay"
    by (simp add: Day_def TimeWithinDay_def algebra_simps)
  then show ?thesis
    by (simp add: currentDate_of_def MakeDay_of_day Let_def add_days_def MakeDate_def)
qed


lemma detect_not_company: "detectStatusFromSummary s \<noteq> Company"
  by (simp add: detectStatusFromSummary_def Let_def)

lemma ics_step_shape:
  "ps_events (ics_event_step h m ve st) = ps_events st \<or>
   (\<exists>e. ps_events (ics_event_step h m ve st) = ps_events st @ [e] \<and>
        day_normalized h e \<and> status e \<noteq> Company \<and> stamped m e)"
  by (auto simp: ics_event_step_def Let_def detect_not_company isNaN_getTime_def stamped_def
      intro!: day_normalized_dates split: option.splits)

lemma csv_step_shape:
  "ps_events (csv_row_step h m i r st) = ps_events st \<or>
   (\<exists>e. ps_events (csv_row_step h m i r st) = ps_events st @ [e] \<and>
        day_normalized h e \<and> status e \<noteq> Company \<and> stamped m e)"
  by (auto simp: csv_row_step_def Let_def detect_not_company isNaN_getTime_def stamped_def
      intro!: day_normalized_dates)

lemma excel_step_shape:
  "ps_events (excel_row_step h ws cm m n st) = ps_events st \<or>
   (\<exists>e. ps_events (excel_row_step h ws cm m n st) = ps_events st @ [e] \<and>
        day_normalized h e \<and> status e \<noteq> Company \<and> stamped m e)"
  by (auto simp: excel_row_step_def Let_def detect_not_company isNaN_getTime_def stamped_def
      intro!: day_normalized_dates)

lemma ics_loop_all:
  assumes "\<forall>e\<in>set (ps_events st). P e"
    and "\<And>e. day_normalized h e \<Longrightarrow> status e \<noteq> Company \<Longrightarrow> stamped m e \<Longrightarrow> P e"
  shows "\<forall>e\<in>set (ps_events (ics_events_loop h m ves st)). P e"
  using assms(1)
proof (induction ves arbitrary: st)
  case Nil
  then show ?case by simp
next
  case (Cons ve ves)
  have "\<forall>e\<in>set (ps_events (ics_event_step h m ve st)). P e"
    using ics_step_shape [of h m ve st] Cons.prems assms(2) by auto
  then show ?case
    using Cons.IH by simp
qed

lemma csv_loop_all:
  assumes "\<forall>e\<in>set (ps_events st). P e"
    and "\<And>e. day_normalized h e \<Longrightarrow> status e \<noteq> Company \<Longrightarrow> stamped m e \<Longrightarrow> P e"
  shows "\<forall>e\<in>set (ps_events (csv_rows_loop h m i rs st)). P e"
  using assms(1)
proof (induction rs arbitrary: st i)
  case Nil
  then show ?case by simp
next
  case (Cons r rs)
  have "\<forall>e\<in>set (ps_events (csv_row_step h m i r st)). P e"
    using csv_step_shape [of h m i r st] Cons.prems assms(2) by auto
  then show ?case
    using Cons.IH by simp
qed

lemma excel_loop_all:
  assumes "\<forall>e\<in>set (ps_events st). P e"
    and "\<And>e. day_normalized h e \<Longrightarrow> status e \<noteq> Company \<Longrightarrow> stamped m e \<Longrightarrow> P e"
  shows "\<forall>e\<in>set (ps_events (excel_rows_loop h ws cm m ns st)). P e"
  using assms(1)
proof (induction ns arbitrary: st)
  case Nil
  then show ?case by simp
next
  case (Cons n ns)
  have "\<forall>e\<in>set (ps_events (excel_row_step h ws cm m n st)). P e"
    using excel_step_shape [of h ws cm m n st] Cons.prems assms(2) by auto
  then show ?case
    using Cons.IH by simp
qed

text \<open>
  The events of the weekly grid: each comes from a weekday column of the header and from
  a valid anchor, and is dated on the day of that column.
\<close>

lemma weekly_day_step_shape:
  assumes "weekly_day_step h m ex r d wc st = Inr st'"
  shows "\<exists>e. ps_events st' = ps_events st @ [e] \<and> ps_warnings st' = ps_warnings st \<and>
             cell_event h m d wc e"
  using assms
  by (auto simp: weekly_day_step_def Let_def cell_event_def stamped_def split: sum.splits)

lemma weekly_days_loop_all:
  assumes "\<forall>e\<in>set (ps_events st). P e" "set wcs \<subseteq> W"
    and "\<And>e wc. wc \<in> W \<Longrightarrow> cell_event h m d wc e \<Longrightarrow> P e"
  shows "\<forall>e\<in>set (ps_events (snd (weekly_days_loop h m ex r d wcs st))). P e"
  using assms(1,2)
proof (induction wcs arbitrary: st)
  case Nil
  then show ?case by simp
next
  case (Cons wc wcs)
  show ?case
  proof (cases "weekly_day_step h m ex r d wc st")
    case (Inl message)
    then show ?thesis using Cons.prems(1) by simp
  next
    case (Inr st')
    then obtain e where "ps_events st' = ps_events st @ [e]" "cell_event h m d wc e"
      using weekly_day_step_shape by blast
    then have "\<forall>e\<in>set (ps_events st'). P e"
      using Cons.prems assms(3) [of wc e] by simp
    then show ?thesis
      using Cons.IH [of st'] Cons.prems(2) Inr by simp
  qed
qed

lemma new_Date_range: "new_Date h y mo d = Date_at t \<Longrightarrow> \<bar>t\<bar> \<le> maxTime"
  by (auto simp: new_Date_def Let_def dest: timeClip_range split: option.splits)

lemma weekly_row_step_all:
  assumes "\<forall>e\<in>set (ps_events st). P e" "set wcs \<subseteq> W"
    and "\<And>e wc t. wc \<in> W \<Longrightarrow> \<bar>t\<bar> \<le> maxTime \<Longrightarrow> cell_event h m (Date_at t) wc e \<Longrightarrow> P e"
  shows "\<forall>e\<in>set (ps_events (weekly_row_step h ws dc wcs m ex n st)). P e"
proof -
  have days: "\<forall>e\<in>set (ps_events (snd (weekly_days_loop h m ex (getRow ws n)
      (monday_of h parts) wcs st))). P e"
    if valid: "monday_of h parts \<noteq> Invalid_Date" for parts
  proof -
    obtain t where t: "monday_of h parts = Date_at t"
      using valid by (cases "monday_of h parts") simp_all
    then have "\<bar>t\<bar> \<le> maxTime"
      unfolding monday_of_def Let_def by (rule new_Date_range)
    then show ?thesis
      unfolding t using weekly_days_loop_all [of st P wcs W h m "Date_at t"] assms by blast
  qed
  show ?thesis
    using assms(1) days
    by (auto simp: weekly_row_step_def Let_def isNaN_getTime_def
        split: cell_text.splits prod.splits option.splits)
qed

lemma weekly_rows_loop_all:
  assumes "\<forall>e\<in>set (ps_events st). P e" "set wcs \<subseteq> W"
    and "\<And>e wc t. wc \<in> W \<Longrightarrow> \<bar>t\<bar> \<le> maxTime \<Longrightarrow> cell_event h m (Date_at t) wc e \<Longrightarrow> P e"
  shows "\<forall>e\<in>set (ps_events (weekly_rows_loop h ws dc wcs m ex ns st)). P e"
  using assms(1)
proof (induction ns arbitrary: st)
  case Nil
  then show ?case by simp
next
  case (Cons n ns)
  have "\<forall>e\<in>set (ps_events (weekly_row_step h ws dc wcs m ex n st)). P e"
    using weekly_row_step_all [of st P wcs W h m, OF Cons.prems assms(2,3)] by simp
  then show ?case
    using Cons.IH by simp
qed

lemma weekly_events_all:
  assumes "\<And>e wc t. wc \<in> set (weekdayColumns_of cm) \<Longrightarrow> \<bar>t\<bar> \<le> maxTime \<Longrightarrow>
             cell_event h m (Date_at t) wc e \<Longrightarrow> P e"
  shows "\<forall>e\<in>set (events (parseWeeklyCalendarFormat h ws cm n m ex)). P e"
  using weekly_rows_loop_all [of empty_state P "weekdayColumns_of cm" "set (weekdayColumns_of cm)"
      h m] assms
  by (simp add: parseWeeklyCalendarFormat_def Let_def split: option.splits)

text \<open>The weekday columns of a column map, whatever their order.\<close>

lemma set_insert_column: "set (insert_column x ys) = insert x (set ys)"
  by (induction ys) auto

lemma set_sort_columns: "set (sort_columns xs) = set xs"
  by (induction xs) (simp_all add: sort_columns_def set_insert_column)

lemma set_map_filter_Some:
  "set (List.map_filter f xs) = {y. \<exists>x\<in>set xs. f x = Some y}"
  by (induction xs) (auto split: option.splits)

lemma weekday_entry_Some:
  "weekday_entry e = Some wc \<longleftrightarrow>
     (\<exists>off. dayMapping (fst e) = Some off \<and>
            wc = \<lparr>day = fst e, colIndex = snd e, dayOffset = off\<rparr>)"
  by (auto simp: weekday_entry_def split: option.splits)

lemma set_weekdayColumns_of:
  "set (weekdayColumns_of cm) =
     {\<lparr>day = k, colIndex = c, dayOffset = off\<rparr> | k c off.
        (k, c) \<in> set cm \<and> dayMapping k = Some off}"
proof (rule set_eqI)
  fix wc
  have "wc \<in> set (weekdayColumns_of cm) \<longleftrightarrow>
        (\<exists>e\<in>set cm. \<exists>off. dayMapping (fst e) = Some off \<and>
            wc = \<lparr>day = fst e, colIndex = snd e, dayOffset = off\<rparr>)"
    by (simp add: weekdayColumns_of_def set_sort_columns set_map_filter_Some
        weekday_entry_Some)
  also have "\<dots> \<longleftrightarrow> (\<exists>k c off. (k, c) \<in> set cm \<and> dayMapping k = Some off \<and>
            wc = \<lparr>day = k, colIndex = c, dayOffset = off\<rparr>)"
    by force
  finally show "wc \<in> set (weekdayColumns_of cm) \<longleftrightarrow>
      wc \<in> {\<lparr>day = k, colIndex = c, dayOffset = off\<rparr> | k c off.
        (k, c) \<in> set cm \<and> dayMapping k = Some off}"
    by blast
qed

lemma dayMapping_Offset: "dayMapping k = Some (Offset n) \<longleftrightarrow> (k, n) \<in> set weekday_names"
proof -
  have "distinct (map fst weekday_names)"
    by (simp add: weekday_names_def)
  then have "map_of weekday_names k = Some n \<longleftrightarrow> (k, n) \<in> set weekday_names"
    by simp
  then show ?thesis
    by (auto simp: dayMapping_def split: option.splits)
qed

lemma dayMapping_Inherited: "dayMapping k = Some Inherited \<Longrightarrow> k \<in> set prototype_names"
  by (auto simp: dayMapping_def split: option.splits if_splits)

lemma weekday_offset_range: "(k, n) \<in> set weekday_names \<Longrightarrow> n \<le> 6"
  by (auto simp: weekday_names_def)

lemma plain_weekday_column:
  assumes "wc \<in> set (weekdayColumns_of cm)"
    and "\<forall>k\<in>set (map_keys cm). k \<notin> set prototype_names"
  shows "\<exists>n. dayOffset wc = Offset n \<and> n \<le> 6 \<and> (day wc, n) \<in> set weekday_names"
proof -
  obtain k c off where wc: "wc = \<lparr>day = k, colIndex = c, dayOffset = off\<rparr>"
    "(k, c) \<in> set cm" "dayMapping k = Some off"
    using assms(1) unfolding set_weekdayColumns_of by blast
  have "k \<notin> set prototype_names"
    using assms(2) wc(2) by (force simp: map_keys_def)
  then obtain n where "off = Offset n"
    using wc(3) dayMapping_Inherited by (cases off) auto
  then show ?thesis
    using wc dayMapping_Offset weekday_offset_range by auto
qed




text \<open>
  The events of the spreadsheet parser are those of the weekly-grid sub-parser on the
  detected header, or those of the row loop of the classic table.
\<close>

lemma excel_events_cases:
  assumes "e \<in> set (events (parseExcelFile h f m))"
  shows "(\<exists>ws cm n. map_keys cm = detected_columns h f \<and>
            e \<in> set (events (parseWeeklyCalendarFormat h ws cm n m (extractCellText h)))) \<or>
         (\<exists>ws cm ns. e \<in> set (ps_events (excel_rows_loop h ws cm m ns empty_state)))"
proof (cases "file_content f")
  case (Unreadable msg)
  then show ?thesis using assms by (simp add: parseExcelFile_def)
next
  case (Content buffer)
  show ?thesis
  proof (cases "xlsx_load h buffer")
    case (Inl msg)
    then show ?thesis using assms Content by (simp add: parseExcelFile_def)
  next
    case (Inr sheets)
    show ?thesis
    proof (cases sheets)
      case Nil
      then show ?thesis using assms Content Inr by (simp add: parseExcelFile_def)
    next
      case (Cons ws others)
      show ?thesis
      proof (cases "find_header h ws [1 ..< Suc (min 10 (rowCount ws))]")
        case (Inl message)
        then show ?thesis
          using assms Content Inr Cons by (simp add: parseExcelFile_def)
      next
        case found: (Inr res)
        obtain cm n where res: "res = (cm, n)" by (cases res)
        have dc: "map_keys cm = detected_columns h f"
          using Content Inr Cons found res by (simp add: detected_columns_def)
        have "e \<in> set (events (parseWeeklyCalendarFormat h ws cm n m (extractCellText h))) \<or>
              e \<in> set (ps_events (excel_rows_loop h ws cm m [n ..< Suc (rowCount ws)] empty_state))"
          using assms Content Inr Cons found res
          by (simp add: parseExcelFile_def Let_def split: if_splits)
        then show ?thesis
          using dc by blast
      qed
    qed
  qed
qed



lemma sample_ics_events:
  "events (parseCalendarFile sample_host (sample_file ''planning.ics'' ''BEGIN:VCALENDAR'') ''m1'') =
     [\<lparr>event_id = ''import-0'', memberId = ''m1'', startDate = Date_at 1736722800000,
       endDate = Date_at 1736809199999, status = School, event_note = Some ''Cours HETIC'',
       isImported = True\<rparr>]"
  by code_simp


lemma sample_zone_regular: "regular_zone sample_host"
proof -
  have "\<And>a b :: int. a \<le> b \<Longrightarrow> (a + 3600000) div 86400000 \<le> (b + 3600000) div 86400000"
    by (intro zdiv_mono1) simp_all
  then show ?thesis
    by (simp add: regular_zone_def LocalTime_def Day_def sample_host_def msPerDay_def)
qed

lemma sample_zone_exists: "exists_locally sample_host x"
  by (simp add: exists_locally_def LocalTime_def UTC_def sample_host_def)



section \<open>Where the company status comes from\<close>

lemma ics_not_company:
  "\<forall>e\<in>set (events (parseICSFile h f m)). status e \<noteq> Company"
  using ics_loop_all [of empty_state "\<lambda>e. status e \<noteq> Company" h m]
  by (simp add: parseICSFile_def Let_def split: read_result.splits ical_outcome.splits)

lemma csv_not_company:
  "\<forall>e\<in>set (events (parseCSVFile h f m)). status e \<noteq> Company"
  using csv_loop_all [of empty_state "\<lambda>e. status e \<noteq> Company" h m]
  by (simp add: parseCSVFile_def Let_def split: read_result.splits)

lemma excel_rows_not_company:
  "\<forall>e\<in>set (ps_events (excel_rows_loop h ws cm m ns empty_state)). status e \<noteq> Company"
  using excel_loop_all [of empty_state "\<lambda>e. status e \<noteq> Company" h m]
  by simp

lemma detect_entreprise: "detectStatusFromSummary ''entreprise'' = Available"
  by (simp add: detectStatusFromSummary_def Let_def toLowerCase_def e_acute_def)

text \<open>
  Claim C10. The free-text classifier returns vacation, school, unavailable or available
  for every string and never company; the keyword \<^verbatim>\<open>entreprise\<close> gives available. The
  company status comes only from the last branch of the classifier of weekday cells: a
  cell is company exactly when it is not the school code and contains neither a holiday
  keyword nor \<^verbatim>\<open>disponible\<close>. So no event of the iCalendar parser, of the CSV parser or of
  the row loop of the classic spreadsheet table is company.
\<close>

theorem classifier_never_company:
  "detectStatusFromSummary s \<in> {Vacation, School, Unavailable, Available} \<and>
   detectStatusFromSummary s \<noteq> Company \<and>
   detectStatusFromSummary ''entreprise'' = Available \<and>
   (weekly_cell_status c = Company \<longleftrightarrow>
      c \<noteq> ''7'' \<and> c \<noteq> ''7.00'' \<and> \<not> mentions c holiday_keywords \<and>
      \<not> mentions c [''disponible'']) \<and>
   (\<forall>e\<in>set (events (parseICSFile h f m)). status e \<noteq> Company) \<and>
   (\<forall>e\<in>set (events (parseCSVFile h f m)). status e \<noteq> Company) \<and>
   (\<forall>e\<in>set (ps_events (excel_rows_loop h ws cm m ns empty_state)). status e \<noteq> Company)"
proof -
  have "detectStatusFromSummary s \<in> {Vacation, School, Unavailable, Available}"
    by (simp add: detectStatusFromSummary_def Let_def)
  moreover have "weekly_cell_status c = Company \<longleftrightarrow>
      c \<noteq> ''7'' \<and> c \<noteq> ''7.00'' \<and> \<not> mentions c holiday_keywords \<and>
      \<not> mentions c [''disponible'']"
    by (simp add: weekly_cell_status_cases)
  ultimately show ?thesis
    using detect_not_company detect_entreprise ics_not_company csv_not_company
      excel_rows_not_company by blast
qed

theorem classifier_never_company_witness:
  "weekly_cell_status [] = Company \<and>
   \<lparr>event_id = ''import-0'', memberId = ''m1'', startDate = Date_at 1736722800000,
     endDate = Date_at 1736809199999, status = School, event_note = Some ''Cours HETIC'',
     isImported = True\<rparr>
     \<in> set (events (parseICSFile sample_host
                       (sample_file ''planning.ics'' ''BEGIN:VCALENDAR'') ''m1'')) \<and>
   status \<lparr>event_id = ''import-0'', memberId = ''m1'', startDate = Date_at 1736722800000,
     endDate = Date_at 1736809199999, status = School, event_note = Some ''Cours HETIC'',
     isImported = True\<rparr> \<noteq> Company \<and>
   detectStatusFromSummary ''Disponible entreprise'' = Available"
proof -
  have a: "\<not> mentions [] holiday_keywords" "\<not> mentions [] [''disponible'']"
    by (simp_all add: mentions_code holiday_keywords_def toLowerCase_def)
  have b: "events (parseICSFile sample_host
                       (sample_file ''planning.ics'' ''BEGIN:VCALENDAR'') ''m1'') =
     [\<lparr>event_id = ''import-0'', memberId = ''m1'', startDate = Date_at 1736722800000,
       endDate = Date_at 1736809199999, status = School, event_note = Some ''Cours HETIC'',
       isImported = True\<rparr>]"
    by code_simp
  have c: "detectStatusFromSummary ''Disponible entreprise'' = Available"
    by (simp add: detectStatusFromSummary_def Let_def toLowerCase_def e_acute_def)
  show ?thesis
    using classifier_never_company
      [of "''Disponible entreprise''" "[]" sample_host
        "sample_file ''planning.ics'' ''BEGIN:VCALENDAR''" "''m1''"] a b c
    by simp
qed

section \<open>The weekday columns of the grid\<close>

text \<open>
  Claim C9 fails on the code. The header of the example grid has, beside the Monday column,
  a column named \<^verbatim>\<open>Constructor\<close>. The key \<^verbatim>\<open>constructor\<close> is no weekday name, but
  \<^verbatim>\<open>dayMapping['constructor']\<close> is the function every object inherits, which is not
  \<^verbatim>\<open>undefined\<close>: the column is taken for a weekday column, and the week row gives a
  second event from it, whose start and end are Invalid Dates. The comparison of the sort
  is 0 on the two columns, so that they stay in the order of the header.
\<close>

theorem inherited_column_taken_for_weekday:
  "find_header constructor_host constructor_grid [1 ..< Suc (min 10 (rowCount constructor_grid))] =
     Inr ([(''n'' @ [degree_sign] @ '' semaine'', 1), (''date'', 2), (''lu'', 3),
           (''constructor'', 4)], 2) \<and>
   ''constructor'' \<notin> fst ` set weekday_names \<and>
   weekdayColumns_of [(''n'' @ [degree_sign] @ '' semaine'', 1), (''date'', 2), (''lu'', 3),
                      (''constructor'', 4)] =
     [\<lparr>day = ''lu'', colIndex = 3, dayOffset = Offset 0\<rparr>,
      \<lparr>day = ''constructor'', colIndex = 4, dayOffset = Inherited\<rparr>] \<and>
   parseCalendarFile constructor_host (sample_file ''planning.xlsx'' ''PK'') ''m1'' =
     \<lparr>success = True,
      events =
        [\<lparr>event_id = ''import-0'', memberId = ''m1'', startDate = Date_at 1736722800000,
          endDate = Date_at 1736809199999, status = School, event_note = Some ''7'',
          isImported = True\<rparr>,
         \<lparr>event_id = ''import-1'', memberId = ''m1'', startDate = Invalid_Date,
          endDate = Invalid_Date, status = Company, event_note = Some ''Dupont'',
          isImported = True\<rparr>],
      errors = None, warnings = None\<rparr>"
proof -
  have a: "find_header constructor_host constructor_grid
             [1 ..< Suc (min 10 (rowCount constructor_grid))] =
     Inr ([(''n'' @ [degree_sign] @ '' semaine'', 1), (''date'', 2), (''lu'', 3),
           (''constructor'', 4)], 2)"
    by code_simp
  have b: "''constructor'' \<notin> fst ` set weekday_names"
    by (simp add: weekday_names_def)
  have c: "weekdayColumns_of [(''n'' @ [degree_sign] @ '' semaine'', 1), (''date'', 2), (''lu'', 3),
                      (''constructor'', 4)] =
     [\<lparr>day = ''lu'', colIndex = 3, dayOffset = Offset 0\<rparr>,
      \<lparr>day = ''constructor'', colIndex = 4, dayOffset = Inherited\<rparr>]"
    by code_simp
  have d: "parseCalendarFile constructor_host (sample_file ''planning.xlsx'' ''PK'') ''m1'' =
     \<lparr>success = True,
      events =
        [\<lparr>event_id = ''import-0'', memberId = ''m1'', startDate = Date_at 1736722800000,
          endDate = Date_at 1736809199999, status = School, event_note = Some ''7'',
          isImported = True\<rparr>,
         \<lparr>event_id = ''import-1'', memberId = ''m1'', startDate = Invalid_Date,
          endDate = Invalid_Date, status = Company, event_note = Some ''Dupont'',
          isImported = True\<rparr>],
      errors = None, warnings = None\<rparr>"
    by code_simp
  show ?thesis
    using a b c d by simp
qed

section \<open>Week rows whose anchor date is rejected\<close>




lemma cons_first_parts:
  "ws \<noteq> [] \<Longrightarrow> set (cons_first c ws) = insert (c # hd ws) (set (tl ws))"
  by (cases ws) simp_all













section \<open>Routing a spreadsheet to the weekly-grid sub-parser\<close>

text \<open>
  Claim C5 fails on the code. The header of the example grid has the week number, the
  date and the weekday columns JE and VE, four distinct values. The header scan accepts
  the row, and the sub-parser, given this header, reads the week row and succeeds with
  its two days. But the routing test of the spreadsheet parser looks for lu, ma or me
  only, where the scan looks for lu to ve and the sub-parser knows all seven days: the
  sheet is not handed to the sub-parser, it is read as a classic table, its week row
  fails as a dated row, and the file is rejected.
\<close>

theorem thursday_friday_grid_not_dispatched:
  "find_header je_ve_host je_ve_grid [1 ..< Suc (min 10 (rowCount je_ve_grid))] =
     Inr ([(''n'' @ [degree_sign] @ '' semaine'', 1), (''date'', 2), (''je'', 3), (''ve'', 4)], 2) \<and>
   parseExcelFile je_ve_host (sample_file ''grille.xlsx'' ''PK'') ''m1'' =
     \<lparr>success = False, events = [],
      errors = Some [''Aucun '' @ [e_acute] @ ''v'' @ [e_acute] @ ''nement valide trouv'' @
                     [e_acute] @ '' dans le fichier Excel''],
      warnings = Some [''Ligne 2: Date invalide'']\<rparr> \<and>
   success (parseWeeklyCalendarFormat je_ve_host je_ve_grid
     [(''n'' @ [degree_sign] @ '' semaine'', 1), (''date'', 2), (''je'', 3), (''ve'', 4)] 2 ''m1''
     (extractCellText je_ve_host)) \<and>
   map status (events (parseWeeklyCalendarFormat je_ve_host je_ve_grid
     [(''n'' @ [degree_sign] @ '' semaine'', 1), (''date'', 2), (''je'', 3), (''ve'', 4)] 2 ''m1''
     (extractCellText je_ve_host))) = [School, School] \<and>
   parseExcelFile je_ve_host (sample_file ''grille.xlsx'' ''PK'') ''m1'' \<noteq>
     parseWeeklyCalendarFormat je_ve_host je_ve_grid
       [(''n'' @ [degree_sign] @ '' semaine'', 1), (''date'', 2), (''je'', 3), (''ve'', 4)] 2 ''m1''
       (extractCellText je_ve_host)"
proof -
  have a: "find_header je_ve_host je_ve_grid [1 ..< Suc (min 10 (rowCount je_ve_grid))] =
     Inr ([(''n'' @ [degree_sign] @ '' semaine'', 1), (''date'', 2), (''je'', 3), (''ve'', 4)], 2)"
    by code_simp
  have b: "parseExcelFile je_ve_host (sample_file ''grille.xlsx'' ''PK'') ''m1'' =
     \<lparr>success = False, events = [],
      errors = Some [''Aucun '' @ [e_acute] @ ''v'' @ [e_acute] @ ''nement valide trouv'' @
                     [e_acute] @ '' dans le fichier Excel''],
      warnings = Some [''Ligne 2: Date invalide'']\<rparr>"
    by code_simp
  have c: "success (parseWeeklyCalendarFormat je_ve_host je_ve_grid
     [(''n'' @ [degree_sign] @ '' semaine'', 1), (''date'', 2), (''je'', 3), (''ve'', 4)] 2 ''m1''
     (extractCellText je_ve_host))"
    by code_simp
  have d: "map status (events (parseWeeklyCalendarFormat je_ve_host je_ve_grid
     [(''n'' @ [degree_sign] @ '' semaine'', 1), (''date'', 2), (''je'', 3), (''ve'', 4)] 2 ''m1''
     (extractCellText je_ve_host))) = [School, School]"
    by code_simp
  have "\<not> success (parseExcelFile je_ve_host (sample_file ''grille.xlsx'' ''PK'') ''m1'')"
    by (simp add: b)
  then show ?thesis
    using a b c d by metis
qed

lemma map_set_key_set: "fst ` set (map_set m k v) = insert k (fst ` set m)"
proof (induction m)
  case Nil
  show ?case by simp
next
  case (Cons p m)
  then show ?case by (cases p) (simp add: insert_commute)
qed

lemma foldl_map_set_keys:
  "fst ` set (foldl (\<lambda>m (t, c). map_set m t c) m texts) = fst ` set m \<union> fst ` set texts"
proof (induction texts arbitrary: m)
  case Nil
  show ?case by simp
next
  case (Cons p texts)
  show ?case
    by (cases p) (simp add: Cons.IH map_set_key_set)
qed

lemma tempMap_of_keys: "set (map_keys (tempMap_of texts)) = set (map fst texts)"
  by (simp add: tempMap_of_def map_keys_def foldl_map_set_keys)

lemma weekday_header_row:
  assumes "\<exists>t\<in>set (map fst texts). t = ''lu'' \<or> t = ''ma'' \<or> t = ''me''"
  shows "is_header_row texts"
proof -
  have "list_ex (\<lambda>col. col = ''lu'' \<or> col = ''ma'' \<or> col = ''me'' \<or> col = ''je'' \<or> col = ''ve'')
          (map_keys (tempMap_of texts))"
    using assms unfolding list_ex_iff tempMap_of_keys by blast
  then show ?thesis
    by (simp add: is_header_row_def Let_def)
qed

section \<open>The weekday columns of a header without inherited names\<close>

lemma insert_column_plain:
  assumes "\<exists>a. dayOffset x = Offset a" "\<forall>y\<in>set ys. \<exists>b. dayOffset y = Offset b"
  shows "insert_column x ys = insort_key day_rank x ys"
  using assms by (induction ys) (auto simp: day_rank_def)

lemma sort_columns_plain:
  assumes "\<forall>x\<in>set xs. \<exists>n. dayOffset x = Offset n"
  shows "sort_columns xs = sort_key day_rank xs"
  using assms
proof (induction xs)
  case Nil
  then show ?case by (simp add: sort_columns_def)
next
  case (Cons x xs)
  have ih: "sort_columns xs = sort_key day_rank xs"
    using Cons by simp
  have "\<forall>y\<in>set (sort_columns xs). \<exists>b. dayOffset y = Offset b"
    using Cons.prems by (simp add: set_sort_columns)
  then have "insert_column x (sort_columns xs) =
      insort_key day_rank x (sort_columns xs)"
    using Cons.prems by (intro insert_column_plain) simp_all
  then show ?case
    using ih by (simp add: sort_columns_def)
qed

lemma plain_entries:
  assumes "\<forall>k\<in>set (map_keys cm). k \<notin> set prototype_names"
  shows "\<forall>x\<in>set (List.map_filter weekday_entry cm). \<exists>n. dayOffset x = Offset n"
proof
  fix x
  assume "x \<in> set (List.map_filter weekday_entry cm)"
  then have "x \<in> set (weekdayColumns_of cm)"
    by (simp add: weekdayColumns_of_def set_sort_columns)
  then show "\<exists>n. dayOffset x = Offset n"
    using plain_weekday_column [OF _ assms] by blast
qed

lemma weekdayColumns_plain:
  assumes "\<forall>k\<in>set (map_keys cm). k \<notin> set prototype_names"
  shows "weekdayColumns_of cm =
           sort_key day_rank (List.map_filter weekday_entry cm)"
  unfolding weekdayColumns_of_def using plain_entries [OF assms] by (rule sort_columns_plain)

lemma set_plain_weekdayColumns:
  assumes "\<forall>k\<in>set (map_keys cm). k \<notin> set prototype_names"
  shows "set (weekdayColumns_of cm) =
     {\<lparr>day = k, colIndex = c, dayOffset = Offset n\<rparr> | k c n.
        (k, c) \<in> set cm \<and> (k, n) \<in> set weekday_names}"
proof (rule set_eqI)
  fix wc
  show "wc \<in> set (weekdayColumns_of cm) \<longleftrightarrow>
      wc \<in> {\<lparr>day = k, colIndex = c, dayOffset = Offset n\<rparr> | k c n.
        (k, c) \<in> set cm \<and> (k, n) \<in> set weekday_names}"
  proof
    assume wc: "wc \<in> set (weekdayColumns_of cm)"
    then obtain k c off where e: "wc = \<lparr>day = k, colIndex = c, dayOffset = off\<rparr>"
      "(k, c) \<in> set cm" "dayMapping k = Some off"
      unfolding set_weekdayColumns_of by blast
    obtain n where "dayOffset wc = Offset n" "(day wc, n) \<in> set weekday_names"
      using plain_weekday_column [OF wc assms] by blast
    then show "wc \<in> {\<lparr>day = k, colIndex = c, dayOffset = Offset n\<rparr> | k c n.
        (k, c) \<in> set cm \<and> (k, n) \<in> set weekday_names}"
      using e by auto
  next
    assume "wc \<in> {\<lparr>day = k, colIndex = c, dayOffset = Offset n\<rparr> | k c n.
        (k, c) \<in> set cm \<and> (k, n) \<in> set weekday_names}"
    then show "wc \<in> set (weekdayColumns_of cm)"
      unfolding set_weekdayColumns_of using dayMapping_Offset by blast
  qed
qed

lemma weekday_names_inj:
  "(k, n) \<in> set weekday_names \<Longrightarrow> (k', n) \<in> set weekday_names \<Longrightarrow> k = k'"
  by (auto simp: weekday_names_def)

lemma key_unique:
  "distinct (map fst cm) \<Longrightarrow> (k, c) \<in> set cm \<Longrightarrow> (k, c') \<in> set cm \<Longrightarrow> c = c'"
  by (meson eq_key_imp_eq_value)

lemma dayOffset_inj_on:
  assumes "distinct (map fst cm)" "\<forall>k\<in>set (map_keys cm). k \<notin> set prototype_names"
  shows "inj_on day_rank (set (weekdayColumns_of cm))"
proof (rule inj_onI)
  fix a b
  assume a: "a \<in> set (weekdayColumns_of cm)" and b: "b \<in> set (weekdayColumns_of cm)"
    and eq: "day_rank a = day_rank b"
  from a obtain k c n where a': "a = \<lparr>day = k, colIndex = c, dayOffset = Offset n\<rparr>"
    "(k, c) \<in> set cm" "(k, n) \<in> set weekday_names"
    unfolding set_plain_weekdayColumns [OF assms(2)] by blast
  from b obtain k' c' n' where b': "b = \<lparr>day = k', colIndex = c', dayOffset = Offset n'\<rparr>"
    "(k', c') \<in> set cm" "(k', n') \<in> set weekday_names"
    unfolding set_plain_weekdayColumns [OF assms(2)] by blast
  have "n = n'" using eq a'(1) b'(1) by (simp add: day_rank_def)
  then have "k = k'"
    using a'(3) b'(3) weekday_names_inj by blast
  then have "c = c'"
    using key_unique [OF assms(1)] a'(2) b'(2) by blast
  then show "a = b"
    using a'(1) b'(1) \<open>k = k'\<close> \<open>n = n'\<close> by simp
qed

lemma distinct_weekday_entries:
  assumes "distinct (map fst cm)"
  shows "distinct (List.map_filter weekday_entry cm)"
proof -
  have d: "distinct cm"
    using assms by (simp add: distinct_map)
  have "inj_on (the \<circ> weekday_entry) (set (filter (\<lambda>x. weekday_entry x \<noteq> None) cm))"
  proof (rule inj_onI)
    fix x y
    assume x: "x \<in> set (filter (\<lambda>x. weekday_entry x \<noteq> None) cm)"
      and y: "y \<in> set (filter (\<lambda>x. weekday_entry x \<noteq> None) cm)"
      and eq: "(the \<circ> weekday_entry) x = (the \<circ> weekday_entry) y"
    from x y obtain wx wy where w: "weekday_entry x = Some wx" "weekday_entry y = Some wy"
      by auto
    then have "wx = wy" using eq by simp
    then have "fst x = fst y" "snd x = snd y"
      using w by (auto simp: weekday_entry_Some)
    then show "x = y" by (simp add: prod_eq_iff)
  qed
  then show ?thesis
    using d by (simp add: List.map_filter_def distinct_map)
qed

lemma weekdayColumns_strictly_sorted:
  assumes "distinct (map fst cm)" "\<forall>k\<in>set (map_keys cm). k \<notin> set prototype_names"
  shows "sorted_wrt (<) (map day_rank (weekdayColumns_of cm))"
proof -
  have "sorted (map day_rank (weekdayColumns_of cm))"
    unfolding weekdayColumns_plain [OF assms(2)] by simp
  moreover have "distinct (weekdayColumns_of cm)"
    unfolding weekdayColumns_plain [OF assms(2)]
    using distinct_weekday_entries [OF assms(1)] by simp
  then have "distinct (map day_rank (weekdayColumns_of cm))"
    using dayOffset_inj_on [OF assms] by (simp add: distinct_map)
  ultimately show ?thesis
    by (simp add: strict_sorted_iff)
qed

lemma weekdayColumns_order_independent:
  assumes "distinct (map fst cm)" "\<forall>k\<in>set (map_keys cm). k \<notin> set prototype_names"
    and "distinct (map fst cm')" "set cm' = set cm"
  shows "weekdayColumns_of cm' = weekdayColumns_of cm"
proof -
  have p': "\<forall>k\<in>set (map_keys cm'). k \<notin> set prototype_names"
    using assms(2,4) by (simp add: map_keys_def)
  have s: "set (weekdayColumns_of cm') = set (weekdayColumns_of cm)"
    using assms(4) by (simp add: set_weekdayColumns_of)
  have "map day_rank (weekdayColumns_of cm') =
        map day_rank (weekdayColumns_of cm)"
  proof (rule sorted_distinct_set_unique)
    show "sorted (map day_rank (weekdayColumns_of cm'))"
      "sorted (map day_rank (weekdayColumns_of cm))"
      using weekdayColumns_strictly_sorted [OF assms(1,2)]
        weekdayColumns_strictly_sorted [OF assms(3) p']
      by (simp_all add: strict_sorted_iff)
    show "distinct (map day_rank (weekdayColumns_of cm'))"
      "distinct (map day_rank (weekdayColumns_of cm))"
      using weekdayColumns_strictly_sorted [OF assms(1,2)]
        weekdayColumns_strictly_sorted [OF assms(3) p']
      by (simp_all add: strict_sorted_iff)
    show "set (map day_rank (weekdayColumns_of cm')) =
          set (map day_rank (weekdayColumns_of cm))"
      using s by simp
  qed
  moreover have "inj_on day_rank
      (set (weekdayColumns_of cm') \<union> set (weekdayColumns_of cm))"
    using dayOffset_inj_on [OF assms(1,2)] s by simp
  ultimately show ?thesis
    by (simp add: inj_on_map_eq_map)
qed

lemma weekdayColumns_at_most_seven:
  assumes "distinct (map fst cm)" "\<forall>k\<in>set (map_keys cm). k \<notin> set prototype_names"
  shows "length (weekdayColumns_of cm) \<le> 7"
proof -
  have d: "distinct (map day_rank (weekdayColumns_of cm))"
    using weekdayColumns_strictly_sorted [OF assms] by (simp add: strict_sorted_iff)
  have "set (map day_rank (weekdayColumns_of cm)) \<subseteq> {0, 1, 2, 3, 4, 5, 6}"
    unfolding set_map set_plain_weekdayColumns [OF assms(2)]
    by (auto simp: weekday_names_def day_rank_def)
  then have "card (set (map day_rank (weekdayColumns_of cm)))
      \<le> card {0::nat, 1, 2, 3, 4, 5, 6}"
    by (intro card_mono) simp_all
  then show ?thesis
    using distinct_card [OF d] by simp
qed

lemma map_set_keys:
  "map fst (map_set m k v) = (if k \<in> set (map fst m) then map fst m else map fst m @ [k])"
proof (induction m)
  case Nil
  show ?case by simp
next
  case (Cons p m)
  then show ?case by (cases p) force
qed

lemma map_set_distinct: "distinct (map fst m) \<Longrightarrow> distinct (map fst (map_set m k v))"
  by (simp add: map_set_keys)

lemma foldl_map_set_distinct:
  "distinct (map fst m) \<Longrightarrow> distinct (map fst (foldl (\<lambda>m (t, c). map_set m t c) m texts))"
  by (induction texts arbitrary: m) (auto simp: map_set_distinct)

lemma tempMap_of_distinct: "distinct (map fst (tempMap_of texts))"
  by (simp add: tempMap_of_def foldl_map_set_distinct)

text \<open>
  Property X1. The column map of a header has distinct keys (it is a Map). When none of
  them is the name of a property of \<^verbatim>\<open>Object.prototype\<close>, the weekday columns are exactly
  the entries whose key is one of lu, ma, me, je, ve, sa, di, each with the offset of
  that day; there are at most seven, and they stand in strictly ascending offset,
  whatever the order of the entries in the map. The column map that the header scan
  builds has distinct keys.
\<close>

theorem weekday_columns_week_order:
  assumes "distinct (map fst columnMap)"
    and "\<forall>k\<in>set (map_keys columnMap). k \<notin> set prototype_names"
  shows
    "sorted_wrt (<) (map day_rank (weekdayColumns_of columnMap)) \<and>
     length (weekdayColumns_of columnMap) \<le> 7 \<and>
     set (weekdayColumns_of columnMap) =
       {\<lparr>day = k, colIndex = c, dayOffset = Offset n\<rparr> | k c n.
          (k, c) \<in> set columnMap \<and> (k, n) \<in> set weekday_names} \<and>
     (\<forall>columnMap'. distinct (map fst columnMap') \<and> set columnMap' = set columnMap \<longrightarrow>
        weekdayColumns_of columnMap' = weekdayColumns_of columnMap) \<and>
     (\<forall>texts. distinct (map fst (tempMap_of texts)))"
  using weekdayColumns_strictly_sorted [OF assms] weekdayColumns_at_most_seven [OF assms]
    set_plain_weekdayColumns [OF assms(2)] weekdayColumns_order_independent [OF assms]
    tempMap_of_distinct
  by (simp only: simp_thms) blast

lemma shuffled_columns_weekdays:
  "weekdayColumns_of shuffled_columns =
     [\<lparr>day = ''lu'', colIndex = 4, dayOffset = Offset 0\<rparr>,
      \<lparr>day = ''ma'', colIndex = 5, dayOffset = Offset 1\<rparr>,
      \<lparr>day = ''ve'', colIndex = 3, dayOffset = Offset 4\<rparr>]"
  by code_simp

theorem weekday_columns_week_order_witness:
  "distinct (map fst shuffled_columns) \<and>
   set (map_keys shuffled_columns) \<inter> set prototype_names = {} \<and>
   weekdayColumns_of shuffled_columns =
     [\<lparr>day = ''lu'', colIndex = 4, dayOffset = Offset 0\<rparr>,
      \<lparr>day = ''ma'', colIndex = 5, dayOffset = Offset 1\<rparr>,
      \<lparr>day = ''ve'', colIndex = 3, dayOffset = Offset 4\<rparr>] \<and>
   sorted_wrt (<) (map day_rank (weekdayColumns_of shuffled_columns))"
proof -
  have d: "distinct (map fst shuffled_columns)"
    by (simp add: shuffled_columns_def degree_sign_def)
  have e: "set (map_keys shuffled_columns) \<inter> set prototype_names = {}"
    by (simp add: shuffled_columns_def map_keys_def prototype_names_def degree_sign_def)
  then have p: "\<forall>k\<in>set (map_keys shuffled_columns). k \<notin> set prototype_names"
    by blast
  show ?thesis
    using weekday_columns_week_order [OF d p] d e
    by (simp add: shuffled_columns_weekdays day_rank_def)
qed

text \<open>The events of a week row whose cells are all texts, one per weekday column.\<close>

lemma weekly_days_loop_texts:
  assumes "\<forall>wc\<in>set wcs. ex (getCell r (colIndex wc)) \<noteq> NotText"
  shows "\<exists>new. weekly_days_loop h m ex r d wcs st =
                 (None, st\<lparr>ps_events := ps_events st @ new\<rparr>) \<and>
               map startDate new =
                 map (\<lambda>wc. startOfDay h (currentDate_of h d (dayOffset wc))) wcs \<and>
               map status new =
                 map (\<lambda>wc. weekly_cell_status (the_text (ex (getCell r (colIndex wc))))) wcs"
  using assms
proof (induction wcs arbitrary: st)
  case Nil
  then show ?case by simp
next
  case (Cons wc wcs)
  obtain c where c: "ex (getCell r (colIndex wc)) = Text c"
    using Cons.prems by (cases "ex (getCell r (colIndex wc))") simp_all
  define e where "e = \<lparr>event_id = gen_id h (length (ps_events st)), memberId = m,
      startDate = startOfDay h (currentDate_of h d (dayOffset wc)),
      endDate = endOfDay h (currentDate_of h d (dayOffset wc)),
      status = weekly_cell_status c,
      event_note = (if c = [] then None else Some c), isImported = True\<rparr>"
  have step: "weekly_day_step h m ex r d wc st = Inr (st\<lparr>ps_events := ps_events st @ [e]\<rparr>)"
    by (simp add: weekly_day_step_def method_on_def c Let_def push_event_def e_def)
  obtain new where new:
    "weekly_days_loop h m ex r d wcs (st\<lparr>ps_events := ps_events st @ [e]\<rparr>) =
       (None, st\<lparr>ps_events := ps_events st @ [e]\<rparr>
                \<lparr>ps_events := ps_events (st\<lparr>ps_events := ps_events st @ [e]\<rparr>) @ new\<rparr>)"
    "map startDate new = map (\<lambda>wc. startOfDay h (currentDate_of h d (dayOffset wc))) wcs"
    "map status new =
       map (\<lambda>wc. weekly_cell_status (the_text (ex (getCell r (colIndex wc))))) wcs"
    using Cons.IH [of "st\<lparr>ps_events := ps_events st @ [e]\<rparr>"] Cons.prems by auto
  have "weekly_days_loop h m ex r d (wc # wcs) st =
      (None, st\<lparr>ps_events := ps_events st @ (e # new)\<rparr>)"
    using step new(1) by simp
  moreover have "map startDate (e # new) =
      map (\<lambda>wc. startOfDay h (currentDate_of h d (dayOffset wc))) (wc # wcs)"
    using new(2) by (simp add: e_def)
  moreover have "map status (e # new) =
      map (\<lambda>wc. weekly_cell_status (the_text (ex (getCell r (colIndex wc))))) (wc # wcs)"
    using new(3) by (simp add: e_def c)
  ultimately show ?case by blast
qed

text \<open>
  In a regular zone the starts of two days of the week are in the order of the days, when
  the local times of the anchor on those days exist.
\<close>

lemma week_start_order:
  assumes "regular_zone h" "i < j"
    and "exists_locally h (LocalTime h t + int i * msPerDay)"
    and "exists_locally h (LocalTime h t + int j * msPerDay)"
  shows "date_before_or_invalid (startOfDay h (timeClip (add_days h t (int i))))
           (startOfDay h (timeClip (add_days h t (int j))))"
proof -
  define m where "m = Day (LocalTime h t) * msPerDay"
  have start: "startOfDay h (timeClip (add_days h t (int k))) = Invalid_Date \<or>
      startOfDay h (timeClip (add_days h t (int k))) = timeClip (UTC h (m + int k * msPerDay))"
    if "exists_locally h (LocalTime h t + int k * msPerDay)" for k
  proof (cases "\<bar>add_days h t (int k)\<bar> \<le> maxTime")
    case False
    then show ?thesis by (simp add: timeClip_def startOfDay_def)
  next
    case True
    have "LocalTime h (add_days h t (int k)) = LocalTime h t + int k * msPerDay"
      using that by (simp add: exists_locally_def add_days_def)
    then have "Day (LocalTime h (add_days h t (int k))) = Day (LocalTime h t) + int k"
      by (simp add: Day_def msPerDay_def)
    then have "day_start h (add_days h t (int k)) = m + int k * msPerDay"
      by (simp add: day_start_def MakeDate_def MakeTime_def m_def algebra_simps)
    then show ?thesis
      using True by (simp add: timeClip_def startOfDay_Date_at)
  qed
  have "localTZA h (m + int j * msPerDay) False - localTZA h (m + int i * msPerDay) False
        < msPerDay"
    using assms(1) by (simp add: regular_zone_def)
  moreover have "int i * msPerDay + msPerDay \<le> int j * msPerDay"
    using assms(2) by (simp add: msPerDay_def)
  ultimately have "UTC h (m + int i * msPerDay) < UTC h (m + int j * msPerDay)"
    by (simp add: UTC_def)
  then have "date_before_or_invalid (timeClip (UTC h (m + int i * msPerDay)))
      (timeClip (UTC h (m + int j * msPerDay)))"
    by (simp add: date_before_or_invalid_def timeClip_def)
  then show ?thesis
    using start [OF assms(3)] start [OF assms(4)]
    by (auto simp: date_before_or_invalid_def)
qed

lemma week_starts_ascending:
  assumes "sorted_wrt (<) (map day_rank wcs)" "\<forall>wc\<in>set wcs. day_rank wc \<le> 6"
    and "regular_zone h" "\<forall>k\<le>6. exists_locally h (LocalTime h t + int k * msPerDay)"
  shows "sorted_wrt date_before_or_invalid
           (map (\<lambda>wc. startOfDay h (timeClip (add_days h t (int (day_rank wc))))) wcs)"
proof -
  have "sorted_wrt (\<lambda>a b. day_rank a < day_rank b) wcs"
    using assms(1) by (simp add: sorted_wrt_map)
  then have "sorted_wrt (\<lambda>a b. date_before_or_invalid
      (startOfDay h (timeClip (add_days h t (int (day_rank a)))))
      (startOfDay h (timeClip (add_days h t (int (day_rank b)))))) wcs"
  proof (rule sorted_wrt_mono_rel [rotated])
    fix a b
    assume "a \<in> set wcs" "b \<in> set wcs" "day_rank a < day_rank b"
    then show "date_before_or_invalid
      (startOfDay h (timeClip (add_days h t (int (day_rank a)))))
      (startOfDay h (timeClip (add_days h t (int (day_rank b)))))"
      using assms(2,3,4) by (intro week_start_order) simp_all
  qed
  then show ?thesis
    by (simp add: sorted_wrt_map)
qed

text \<open>
  Property X2. Take a grid whose header has no column named after a property of
  \<^verbatim>\<open>Object.prototype\<close>, a date column and at least one weekday column, and whose only data
  row has values, a valid anchor date and texts in its weekday cells. The sub-parser
  succeeds without a warning and gives one event per weekday column, in the order of the
  week: the event of a column starts at the start of the day that is as many local days
  after the anchor as the rank of the column, and its status is that of the cell. In a
  regular zone in which the local times of the anchor exist on the days of the week, the
  valid start dates ascend.
\<close>

theorem week_row_in_week_order:
  assumes "distinct (map fst columnMap)"
    and "\<forall>k\<in>set (map_keys columnMap). k \<notin> set prototype_names"
    and "find_entry (\<lambda>key. str_includes key ''date'' \<or> str_includes key ''lundi'') columnMap =
           Some dateCol"
    and "0 < dateCol" "weekdayColumns_of columnMap \<noteq> []"
    and "rowCount ws = n" "hasValues (getRow ws n)"
    and "ex (getCell (getRow ws n) dateCol) = Text dateText"
    and "dateText \<noteq> []" "\<not> summary_label dateText"
    and "length (split_char (CHR ''/'') dateText) = 3"
    and "monday_of h (split_char (CHR ''/'') dateText) = Date_at t"
    and "\<forall>wc\<in>set (weekdayColumns_of columnMap). ex (getCell (getRow ws n) (colIndex wc)) \<noteq> NotText"
  shows
    "success (parseWeeklyCalendarFormat h ws columnMap n member ex) \<and>
     warnings (parseWeeklyCalendarFormat h ws columnMap n member ex) = None \<and>
     map startDate (events (parseWeeklyCalendarFormat h ws columnMap n member ex)) =
       map (\<lambda>wc. startOfDay h (timeClip (add_days h t (int (day_rank wc)))))
         (weekdayColumns_of columnMap) \<and>
     map status (events (parseWeeklyCalendarFormat h ws columnMap n member ex)) =
       map (\<lambda>wc. weekly_cell_status (the_text (ex (getCell (getRow ws n) (colIndex wc)))))
         (weekdayColumns_of columnMap) \<and>
     sorted_wrt (<) (map day_rank (weekdayColumns_of columnMap)) \<and>
     (regular_zone h \<and> (\<forall>k\<le>6. exists_locally h (LocalTime h t + int k * msPerDay)) \<longrightarrow>
        sorted_wrt date_before_or_invalid
          (map startDate (events (parseWeeklyCalendarFormat h ws columnMap n member ex))))"
proof -
  let ?wcs = "weekdayColumns_of columnMap"
  obtain new where new:
    "weekly_days_loop h member ex (getRow ws n) (Date_at t) ?wcs empty_state =
       (None, empty_state\<lparr>ps_events := ps_events empty_state @ new\<rparr>)"
    "map startDate new =
       map (\<lambda>wc. startOfDay h (currentDate_of h (Date_at t) (dayOffset wc))) ?wcs"
    "map status new =
       map (\<lambda>wc. weekly_cell_status (the_text (ex (getCell (getRow ws n) (colIndex wc))))) ?wcs"
    using weekly_days_loop_texts [OF assms(13), of h member "Date_at t" empty_state] by blast
  have rank: "currentDate_of h (Date_at t) (dayOffset wc) =
      timeClip (add_days h t (int (day_rank wc)))" if wc: "wc \<in> set ?wcs" for wc
  proof -
    obtain k where "dayOffset wc = Offset k"
      using plain_weekday_column [OF wc assms(2)] by blast
    then show ?thesis
      by (simp add: currentDate_of_Date_at day_rank_def)
  qed
  have dates: "map startDate new =
      map (\<lambda>wc. startOfDay h (timeClip (add_days h t (int (day_rank wc))))) ?wcs"
    unfolding new(2) using rank by simp
  have row: "weekly_row_step h ws dateCol ?wcs member ex n empty_state =
      empty_state\<lparr>ps_events := new\<rparr>"
    using assms(7-12) new(1)
    by (simp add: weekly_row_step_def Let_def isNaN_getTime_def summary_label_def
        empty_state_def)
  have rows: "[n ..< Suc (rowCount ws)] = [n]"
    using assms(6) by simp
  have ne: "new \<noteq> []"
    using dates assms(5) by auto
  have ew: "ps_warnings empty_state = []"
    by (simp add: empty_state_def)
  have res: "parseWeeklyCalendarFormat h ws columnMap n member ex =
      \<lparr>success = True, events = new, errors = None, warnings = None\<rparr>"
    using assms(3,4,5) ne
    by (simp add: parseWeeklyCalendarFormat_def Let_def rows row warnings_or_undefined_def
        ew del: upt_Suc)
  have sorted: "sorted_wrt (<) (map day_rank ?wcs)"
    using weekdayColumns_strictly_sorted [OF assms(1,2)] .
  have le6: "\<forall>wc\<in>set ?wcs. day_rank wc \<le> 6"
    using plain_weekday_column [OF _ assms(2)] by (fastforce simp: day_rank_def)
  have "sorted_wrt date_before_or_invalid (map startDate new)"
    if "regular_zone h" "\<forall>k\<le>6. exists_locally h (LocalTime h t + int k * msPerDay)"
    unfolding dates using sorted le6 that by (rule week_starts_ascending)
  then show ?thesis
    using res dates new(3) sorted by simp
qed

lemma sample_row:
  "find_entry (\<lambda>key. str_includes key ''date'' \<or> str_includes key ''lundi'')
     [(''n'' @ [degree_sign] @ '' semaine'', 1::nat), (''date'', 2), (''lu'', 3), (''ma'', 4),
      (''me'', 5), (''je'', 6), (''ve'', 7)] = Some 2"
  "rowCount sample_grid = 2" "hasValues (getRow sample_grid 2)"
  "extractCellText sample_host (getCell (getRow sample_grid 2) 2) = Text ''13/01/2025''"
  "\<not> summary_label ''13/01/2025''"
  "length (split_char (CHR ''/'') ''13/01/2025'') = 3"
  "monday_of sample_host (split_char (CHR ''/'') ''13/01/2025'') = Date_at 1736722800000"
  by code_simp+

lemma sample_columns:
  "weekdayColumns_of
     [(''n'' @ [degree_sign] @ '' semaine'', 1::nat), (''date'', 2), (''lu'', 3), (''ma'', 4),
      (''me'', 5), (''je'', 6), (''ve'', 7)] =
     [\<lparr>day = ''lu'', colIndex = 3, dayOffset = Offset 0\<rparr>,
      \<lparr>day = ''ma'', colIndex = 4, dayOffset = Offset 1\<rparr>,
      \<lparr>day = ''me'', colIndex = 5, dayOffset = Offset 2\<rparr>,
      \<lparr>day = ''je'', colIndex = 6, dayOffset = Offset 3\<rparr>,
      \<lparr>day = ''ve'', colIndex = 7, dayOffset = Offset 4\<rparr>]"
  by code_simp

theorem week_row_in_week_order_witness:
  "distinct (map fst [(''n'' @ [degree_sign] @ '' semaine'', 1::nat), (''date'', 2), (''lu'', 3),
      (''ma'', 4), (''me'', 5), (''je'', 6), (''ve'', 7)]) \<and>
   rowCount sample_grid = 2 \<and> hasValues (getRow sample_grid 2) \<and>
   monday_of sample_host (split_char (CHR ''/'') ''13/01/2025'') = Date_at 1736722800000 \<and>
   regular_zone sample_host \<and>
   map startDate (events (parseWeeklyCalendarFormat sample_host sample_grid
      [(''n'' @ [degree_sign] @ '' semaine'', 1), (''date'', 2), (''lu'', 3), (''ma'', 4),
       (''me'', 5), (''je'', 6), (''ve'', 7)] 2 ''m1'' (extractCellText sample_host))) =
     [Date_at 1736722800000, Date_at 1736809200000, Date_at 1736895600000,
      Date_at 1736982000000, Date_at 1737068400000] \<and>
   map status (events (parseWeeklyCalendarFormat sample_host sample_grid
      [(''n'' @ [degree_sign] @ '' semaine'', 1), (''date'', 2), (''lu'', 3), (''ma'', 4),
       (''me'', 5), (''je'', 6), (''ve'', 7)] 2 ''m1'' (extractCellText sample_host))) =
     [School, School, Company, Vacation, Available] \<and>
   sorted_wrt date_before_or_invalid
     (map startDate (events (parseWeeklyCalendarFormat sample_host sample_grid
        [(''n'' @ [degree_sign] @ '' semaine'', 1), (''date'', 2), (''lu'', 3), (''ma'', 4),
         (''me'', 5), (''je'', 6), (''ve'', 7)] 2 ''m1'' (extractCellText sample_host))))"
proof -
  let ?cm = "[(''n'' @ [degree_sign] @ '' semaine'', 1::nat), (''date'', 2), (''lu'', 3),
      (''ma'', 4), (''me'', 5), (''je'', 6), (''ve'', 7)]"
  have d: "distinct (map fst ?cm)"
    by (simp add: degree_sign_def)
  have p: "\<forall>k\<in>set (map_keys ?cm). k \<notin> set prototype_names"
    by (simp add: map_keys_def prototype_names_def degree_sign_def)
  have c: "\<forall>wc\<in>set (weekdayColumns_of ?cm).
      extractCellText sample_host (getCell (getRow sample_grid 2) (colIndex wc)) \<noteq> NotText"
    unfolding sample_columns by code_simp
  have wn: "weekdayColumns_of ?cm \<noteq> []"
    unfolding sample_columns by simp
  have ne: "''13/01/2025'' \<noteq> []" "(0::nat) < 2"
    by simp_all
  have s: "map (\<lambda>wc. startOfDay sample_host
                     (timeClip (add_days sample_host 1736722800000 (int (day_rank wc)))))
             (weekdayColumns_of ?cm) =
      [Date_at 1736722800000, Date_at 1736809200000, Date_at 1736895600000,
       Date_at 1736982000000, Date_at 1737068400000]"
    unfolding sample_columns by code_simp
  have t: "map (\<lambda>wc. weekly_cell_status
                     (the_text (extractCellText sample_host
                        (getCell (getRow sample_grid 2) (colIndex wc)))))
             (weekdayColumns_of ?cm) = [School, School, Company, Vacation, Available]"
    unfolding sample_columns by code_simp
  note w = week_row_in_week_order [OF d p sample_row(1) ne(2) wn sample_row(2,3,4) ne(1)
      sample_row(5,6,7) c, of "''m1''", unfolded s t]
  have z: "regular_zone sample_host \<and>
      (\<forall>k\<le>6. exists_locally sample_host (LocalTime sample_host 1736722800000 +
         int k * msPerDay))"
    using sample_zone_regular sample_zone_exists by blast
  show ?thesis
    using w z d sample_row(2,3,7) by blast
qed

section \<open>Further properties of the parsers\<close>

text \<open>
  Property X3. The classifier of weekday cells never gives the status unavailable: a
  cell that contains \<^verbatim>\<open>indisponible\<close> contains \<^verbatim>\<open>disponible\<close> and is decided by that
  earlier test, or by one before it.
\<close>

theorem weekly_cell_never_unavailable: "weekly_cell_status c \<noteq> Unavailable"
  by (simp add: weekly_cell_status_cases)

lemma csv_step_accounted:
  "length (ps_events (csv_row_step h m i r st)) + length (ps_warnings (csv_row_step h m i r st))
     = Suc (length (ps_events st) + length (ps_warnings st))"
  by (simp add: csv_row_step_def Let_def)

lemma ics_step_accounted:
  "length (ps_events (ics_event_step h m ve st)) + length (ps_warnings (ics_event_step h m ve st))
     = Suc (length (ps_events st) + length (ps_warnings st))"
  by (simp add: ics_event_step_def Let_def split: option.splits)

lemma csv_loop_accounted:
  "length (ps_events (csv_rows_loop h m i rs st)) + length (ps_warnings (csv_rows_loop h m i rs st))
     = length (ps_events st) + length (ps_warnings st) + length rs"
  by (induction rs arbitrary: st i) (simp_all add: csv_step_accounted)

lemma ics_loop_accounted:
  "length (ps_events (ics_events_loop h m ves st)) + length (ps_warnings (ics_events_loop h m ves st))
     = length (ps_events st) + length (ps_warnings st) + length ves"
  by (induction ves arbitrary: st) (simp_all add: ics_step_accounted)

text \<open>
  Property X4. Every data row of a CSV file and every VEVENT of an iCalendar file gives
  exactly one event or exactly one warning: starting from nothing, the events and the
  warnings together are as many as the records, so one bad record never costs another.
\<close>

theorem every_record_accounted:
  "length (ps_events (csv_rows_loop h m 0 rs empty_state)) +
   length (ps_warnings (csv_rows_loop h m 0 rs empty_state)) = length rs \<and>
   length (ps_events (ics_events_loop h m ves empty_state)) +
   length (ps_warnings (ics_events_loop h m ves empty_state)) = length ves"
  by (simp add: csv_loop_accounted ics_loop_accounted empty_state_def)

lemma weekly_stamped:
  "\<forall>e\<in>set (events (parseWeeklyCalendarFormat h ws cm n m ex)). stamped m e"
  by (rule weekly_events_all) (simp add: cell_event_def)

lemma ics_stamped: "\<forall>e\<in>set (events (parseICSFile h f m)). stamped m e"
  using ics_loop_all [of empty_state "stamped m" h m]
  by (simp add: parseICSFile_def Let_def split: read_result.splits ical_outcome.splits)

lemma csv_stamped: "\<forall>e\<in>set (events (parseCSVFile h f m)). stamped m e"
  using csv_loop_all [of empty_state "stamped m" h m]
  by (simp add: parseCSVFile_def Let_def split: read_result.splits)

lemma excel_stamped: "\<forall>e\<in>set (events (parseExcelFile h f m)). stamped m e"
proof
  fix e
  assume "e \<in> set (events (parseExcelFile h f m))"
  then consider
    (weekly) ws cm n where
      "e \<in> set (events (parseWeeklyCalendarFormat h ws cm n m (extractCellText h)))"
    | (classic) ws cm ns where "e \<in> set (ps_events (excel_rows_loop h ws cm m ns empty_state))"
    using excel_events_cases by blast
  then show "stamped m e"
  proof cases
    case weekly
    then show ?thesis using weekly_stamped by blast
  next
    case classic
    then show ?thesis
      using excel_loop_all [of empty_state "stamped m" h m ws cm ns] by simp
  qed
qed

text \<open>
  Property X5. Every event that the facade or one of the format-specific parsers emits
  carries the subject identifier of the call and is marked as imported.
\<close>

theorem events_stamped:
  "(\<forall>e\<in>set (events (parseCalendarFile h f m)). stamped m e) \<and>
   (\<forall>e\<in>set (events (parseICSFile h f m)). stamped m e) \<and>
   (\<forall>e\<in>set (events (parseExcelFile h f m)). stamped m e) \<and>
   (\<forall>e\<in>set (events (parseCSVFile h f m)). stamped m e)"
  using ics_stamped csv_stamped excel_stamped
  by (simp add: parseCalendarFile_def Let_def)

theorem events_stamped_witness:
  "events (parseCalendarFile sample_host (sample_file ''planning.ics'' ''BEGIN:VCALENDAR'') ''m1'')
     \<noteq> [] \<and>
   stamped ''m1''
     (hd (events (parseCalendarFile sample_host
                    (sample_file ''planning.ics'' ''BEGIN:VCALENDAR'') ''m1'')))"
proof -
  have "events (parseCalendarFile sample_host
                  (sample_file ''planning.ics'' ''BEGIN:VCALENDAR'') ''m1'') \<noteq> []"
    by (simp add: sample_ics_events)
  then show ?thesis
    using events_stamped
      [of sample_host "sample_file ''planning.ics'' ''BEGIN:VCALENDAR''" "''m1''"]
    by (meson hd_in_set)
qed

text \<open>
  Property X6. The weekly grid of the example, anchored on 13/01/2025 with the school
  code under LU and MA, nothing under ME, a public holiday under JE and an available day
  under VE, gives five events from 13 to 17 January 2025 with the statuses school,
  school, company, vacation, available, and no warning.
\<close>

theorem weekly_grid_scenario:
  "success (parseCalendarFile sample_host (sample_file ''planning.xlsx'' ''PK'') ''m1'') \<and>
   map status (events (parseCalendarFile sample_host (sample_file ''planning.xlsx'' ''PK'') ''m1''))
     = [School, School, Company, Vacation, Available] \<and>
   map (calendar_day sample_host \<circ> startDate)
     (events (parseCalendarFile sample_host (sample_file ''planning.xlsx'' ''PK'') ''m1''))
     = [Some (2025, 1, 13), Some (2025, 1, 14), Some (2025, 1, 15), Some (2025, 1, 16),
        Some (2025, 1, 17)] \<and>
   warnings (parseCalendarFile sample_host (sample_file ''planning.xlsx'' ''PK'') ''m1'') = None"
  by (intro conjI; code_simp)

lemma find_header_first:
  assumes "\<forall>k\<in>set pre. \<exists>texts. header_texts h (getRow ws k) = Inr texts \<and> \<not> is_header_row texts"
    and "header_texts h (getRow ws n) = Inr found" "is_header_row found"
  shows "find_header h ws (pre @ n # post) = Inr (tempMap_of found, n + 1)"
  using assms by (induction pre) (auto simp: Let_def)

text \<open>
  Property X7. The header scan stops at the first of the scanned rows that qualifies as
  a header row, and the data start on the row after it.
\<close>

theorem header_scan_first_match:
  assumes "\<forall>k\<in>set pre. \<exists>texts. header_texts h (getRow ws k) = Inr texts \<and> \<not> is_header_row texts"
    and "header_texts h (getRow ws n) = Inr found" "is_header_row found"
  shows "find_header h ws (pre @ n # post) = Inr (tempMap_of found, n + 1)"
  using assms by (rule find_header_first)

theorem header_scan_first_match_witness:
  "header_texts sample_host (getRow titled_sheet 1) = Inr [(''planning 2025'', 1)] \<and>
   \<not> is_header_row [(''planning 2025'', 1)] \<and>
   header_texts sample_host (getRow titled_sheet 2) = Inr [] \<and>
   \<not> is_header_row [] \<and>
   is_header_row
     [(''date d'' @ [e_acute] @ ''but'', 1), (''date fin'', 2), (''type'', 3), (''note'', 4)] \<and>
   find_header sample_host titled_sheet [1 ..< Suc (min 10 (rowCount titled_sheet))] =
     Inr ([(''date d'' @ [e_acute] @ ''but'', 1), (''date fin'', 2), (''type'', 3), (''note'', 4)], 4)"
proof -
  have a: "header_texts sample_host (getRow titled_sheet 1) = Inr [(''planning 2025'', 1)]"
    "\<not> is_header_row [(''planning 2025'', 1::nat)]"
    "header_texts sample_host (getRow titled_sheet 2) = Inr []"
    "\<not> is_header_row []"
    "header_texts sample_host (getRow titled_sheet 3) =
       Inr [(''date d'' @ [e_acute] @ ''but'', 1), (''date fin'', 2), (''type'', 3), (''note'', 4)]"
    "is_header_row
       [(''date d'' @ [e_acute] @ ''but'', 1::nat), (''date fin'', 2), (''type'', 3), (''note'', 4)]"
    by code_simp+
  have b: "[1 ..< Suc (min 10 (rowCount titled_sheet))] = [1, 2] @ 3 # [4]"
    by code_simp
  have c: "tempMap_of
       [(''date d'' @ [e_acute] @ ''but'', 1::nat), (''date fin'', 2), (''type'', 3), (''note'', 4)] =
     [(''date d'' @ [e_acute] @ ''but'', 1), (''date fin'', 2), (''type'', 3), (''note'', 4)]"
    by code_simp
  have "\<forall>k\<in>set [1, 2]. \<exists>texts. header_texts sample_host (getRow titled_sheet k) = Inr texts \<and>
          \<not> is_header_row texts"
    using a by simp
  then show ?thesis
    using header_scan_first_match [of "[1, 2]" sample_host titled_sheet 3 _ "[4]", OF _ a(5,6)]
      a b c
    by simp
qed

text \<open>
  Property X8. A file whose text is empty or white space only is rejected by the
  iCalendar parser and by the CSV parser with their empty-file messages.
\<close>

theorem empty_file_rejected:
  assumes "file_content f = Content text_in" and "trim text_in = []"
  shows "parseICSFile h f m = failure [''Le fichier est vide''] \<and>
         parseCSVFile h f m = failure [''Le fichier CSV est vide'']"
  using assms by (simp add: parseICSFile_def parseCSVFile_def)

theorem empty_file_rejected_witness:
  "file_content (sample_file ''vide.ics'' []) = Content [] \<and> trim [] = [] \<and>
   parseICSFile sample_host (sample_file ''vide.ics'' []) ''m1'' =
     \<lparr>success = False, events = [], errors = Some [''Le fichier est vide''], warnings = None\<rparr>"
  using empty_file_rejected [of "sample_file ''vide.ics'' []" "[]" sample_host "''m1''"]
  by (simp add: sample_file_def trim_def failure_def)

text \<open>
  Property X9. In the CSV file of the example the row typed \<^verbatim>\<open>Vacances\<close> gives a vacation,
  the row whose end is before its start gives one warning that names line 3 and no event,
  and the row without end and type gives a school day; the file as a whole succeeds.
\<close>

theorem csv_scenario:
  "success (parseCalendarFile sample_host (sample_file ''planning.csv'' sample_csv) ''m1'') \<and>
   map status (events (parseCalendarFile sample_host (sample_file ''planning.csv'' sample_csv) ''m1''))
     = [Vacation, School] \<and>
   map event_note (events (parseCalendarFile sample_host (sample_file ''planning.csv'' sample_csv) ''m1''))
     = [Some ''Vacances'', Some ([e_acute] @ ''cole'')] \<and>
   warnings (parseCalendarFile sample_host (sample_file ''planning.csv'' sample_csv) ''m1'')
     = Some [''Ligne 3: Date de fin avant date de d'' @ [e_acute] @ ''but'']"
  by (intro conjI; code_simp)

text \<open>
  Property X10. When the header row found by the scan has a week-number column (a name
  that contains \<^verbatim>\<open>semaine\<close> or \<^verbatim>\<open>week\<close>, or the name \<^verbatim>\<open>n\<close> with the degree sign) and at
  least one of the weekday columns lu, ma, me, the spreadsheet parser hands the sheet to
  the weekly-grid sub-parser, with the column map and the data start row of the scan;
  neither the number of distinct header values nor a date column plays a part. Such a
  row qualifies as the header row by its weekday column alone.
\<close>

theorem weekly_grid_dispatch:
  assumes "file_content f = Content buffer"
    and "xlsx_load h buffer = Inr (ws # others)"
    and "find_header h ws [1 ..< Suc (min 10 (rowCount ws))] = Inr (columnMap, dataStartRow)"
    and "\<exists>col\<in>set (map_keys columnMap).
           str_includes col ''semaine'' \<or> str_includes col ''week'' \<or> col = ''n'' @ [degree_sign]"
    and "\<exists>col\<in>set (map_keys columnMap). col = ''lu'' \<or> col = ''ma'' \<or> col = ''me''"
  shows "parseExcelFile h f member =
           parseWeeklyCalendarFormat h ws columnMap dataStartRow member (extractCellText h) \<and>
         (\<forall>texts. (\<exists>t\<in>set (map fst texts). t = ''lu'' \<or> t = ''ma'' \<or> t = ''me'') \<longrightarrow>
            is_header_row texts)"
proof -
  have ne: "columnMap \<noteq> []"
    using assms(4) by (auto simp: map_keys_def)
  have "list_ex (\<lambda>col. str_includes col ''semaine'' \<or> str_includes col ''week'' \<or>
                        col = ''n'' @ [degree_sign]) (map_keys columnMap)"
    "list_ex (\<lambda>col. col = ''lu'' \<or> col = ''ma'' \<or> col = ''me'') (map_keys columnMap)"
    using assms(4,5) unfolding list_ex_iff by blast+
  then have "parseExcelFile h f member =
           parseWeeklyCalendarFormat h ws columnMap dataStartRow member (extractCellText h)"
    using assms(1-3) ne by (simp add: parseExcelFile_def Let_def)
  then show ?thesis
    using weekday_header_row by blast
qed

lemma sample_grid_header:
  "find_header sample_host sample_grid [1 ..< Suc (min 10 (rowCount sample_grid))] =
     Inr ([(''n'' @ [degree_sign] @ '' semaine'', 1), (''date'', 2), (''lu'', 3), (''ma'', 4),
           (''me'', 5), (''je'', 6), (''ve'', 7)], 2)"
  by code_simp

theorem weekly_grid_dispatch_witness:
  "find_header sample_host sample_grid [1 ..< Suc (min 10 (rowCount sample_grid))] =
     Inr ([(''n'' @ [degree_sign] @ '' semaine'', 1), (''date'', 2), (''lu'', 3), (''ma'', 4),
           (''me'', 5), (''je'', 6), (''ve'', 7)], 2) \<and>
   length (remdups (map fst [(''n'' @ [degree_sign] @ '' semaine'', 1::nat), (''date'', 2),
       (''lu'', 3), (''ma'', 4), (''me'', 5), (''je'', 6), (''ve'', 7)])) > 3 \<and>
   parseExcelFile sample_host (sample_file ''planning.xlsx'' ''PK'') ''m1'' =
     parseWeeklyCalendarFormat sample_host sample_grid
       [(''n'' @ [degree_sign] @ '' semaine'', 1), (''date'', 2), (''lu'', 3), (''ma'', 4),
        (''me'', 5), (''je'', 6), (''ve'', 7)] 2 ''m1'' (extractCellText sample_host)"
proof -
  have a: "file_content (sample_file ''planning.xlsx'' ''PK'') = Content ''PK''"
    "xlsx_load sample_host ''PK'' = Inr (sample_grid # [])"
    by (simp_all add: sample_file_def sample_host_def)
  have b: "\<exists>col\<in>set (map_keys [(''n'' @ [degree_sign] @ '' semaine'', 1::nat), (''date'', 2),
       (''lu'', 3), (''ma'', 4), (''me'', 5), (''je'', 6), (''ve'', 7)]).
       str_includes col ''semaine'' \<or> str_includes col ''week'' \<or> col = ''n'' @ [degree_sign]"
    by (simp add: map_keys_def)
  have c: "\<exists>col\<in>set (map_keys [(''n'' @ [degree_sign] @ '' semaine'', 1::nat), (''date'', 2),
       (''lu'', 3), (''ma'', 4), (''me'', 5), (''je'', 6), (''ve'', 7)]).
       col = ''lu'' \<or> col = ''ma'' \<or> col = ''me''"
    by (simp add: map_keys_def)
  have d: "length (remdups (map fst [(''n'' @ [degree_sign] @ '' semaine'', 1::nat), (''date'', 2),
       (''lu'', 3), (''ma'', 4), (''me'', 5), (''je'', 6), (''ve'', 7)])) > 3"
    by (simp add: degree_sign_def)
  show ?thesis
    using weekly_grid_dispatch [OF a sample_grid_header b c, of "''m1''"] sample_grid_header d
    by blast
qed

text \<open>
  Property X11. Where the offset of the zone was larger at the epoch of the serials than
  it is at the decoded instant, a serial decodes to the day before the one the
  spreadsheet shows: in the zone of the example serial 45000, which is 15 March 2023,
  decodes to 14 March 2023.
\<close>

theorem serial_decoded_a_day_early:
  "civil_day (excel_epoch_day + 45000) = (2023, 3, 15) \<and>
   epoch_offset warsaw_host = 5040000 \<and>
   localTZA warsaw_host (serial_instant warsaw_host 45000) True = 3600000 \<and>
   calendar_day warsaw_host (excelDateToJSDate warsaw_host 45000) = Some (2023, 3, 14)"
proof -
  have a: "civil_day (excel_epoch_day + 45000) = (2023, 3, 15)"
    by code_simp
  have b: "epoch_offset warsaw_host = 5040000"
    by code_simp
  have c: "localTZA warsaw_host (serial_instant warsaw_host 45000) True = 3600000"
    by code_simp
  have "\<bar>45000\<bar> \<le> (99900000::int)" "\<bar>epoch_offset warsaw_host\<bar> \<le> msPerDay"
    by (simp_all add: b msPerDay_def)
  then have "excelDateToJSDate warsaw_host (of_int 45000) =
      Date_at (serial_instant warsaw_host 45000)"
    by (intro excelDateToJSDate_of_int) simp_all
  moreover have "calendar_day warsaw_host (Date_at (serial_instant warsaw_host 45000)) =
      Some (2023, 3, 14)"
    by code_simp
  ultimately show ?thesis
    using a b c by simp
qed

text \<open>
  Property X12. An error in a weekday cell ends the row and keeps the events of the
  cells before it. In the grid of the example the cell under ME holds a hyperlink whose
  text is rich text: the text extraction returns that object, lower-casing it raises a
  TypeError, and the row gives the events of LU and MA, one warning, and no event for JE.
\<close>

theorem row_error_keeps_earlier_events:
  "extractCellText linked_host (getCell (getRow linked_grid 2) 5) = NotText \<and>
   map (calendar_day linked_host \<circ> startDate)
     (events (parseCalendarFile linked_host (sample_file ''planning.xlsx'' ''PK'') ''m1''))
     = [Some (2025, 1, 13), Some (2025, 1, 14)] \<and>
   warnings (parseCalendarFile linked_host (sample_file ''planning.xlsx'' ''PK'') ''m1'')
     = Some [''Ligne 2: Erreur de parsing - TypeError: cellValue.toLowerCase is not a function'']"
  by (intro conjI; code_simp)


end
